theory Spec2Isabelle
  imports Main "HOL-Library.Sublist"
begin

section \<open>Strings, numbers and errors\<close>

text \<open>
  A JavaScript string is a sequence of UTF-16 code units; a code unit is modelled by its
  number. \<open>js\<close> embeds an ASCII literal. The Japanese literals of \<^verbatim>\<open>result.ts\<close> are
  written out as code units below, each with the line of the source it comes from.
  A \<^verbatim>\<open>Uint8Array\<close> is a list of byte values.
\<close>

type_synonym jstring = "nat list"
type_synonym bytes = "nat list"

definition js :: "string \<Rightarrow> jstring" where
  "js s = map of_char s"

definition nl :: jstring where
  "nl = [10]"

text \<open>
  \<^verbatim>\<open>String(n)\<close> and \<^verbatim>\<open>`${n}`\<close> for an integer \<open>n\<close> (the page index, the year,
  the month and the day are integers in the range where JavaScript prints plain decimal
  digits).
\<close>

fun digits_of :: "nat \<Rightarrow> jstring" where
  "digits_of n = (if n < 10 then [48 + n] else digits_of (n div 10) @ [48 + n mod 10])"

declare digits_of.simps [simp del]

definition js_of_int :: "int \<Rightarrow> jstring" where
  "js_of_int i = (if i < 0 then 45 # digits_of (nat (- i)) else digits_of (nat i))"

text \<open>\<^verbatim>\<open>s.padStart(2, "0")\<close>\<close>

definition padStart2 :: "jstring \<Rightarrow> jstring" where
  "padStart2 s = (if length s < 2 then replicate (2 - length s) 48 @ s else s)"

text \<open>\<^verbatim>\<open>lines.join(sep)\<close>\<close>

fun js_join :: "jstring \<Rightarrow> jstring list \<Rightarrow> jstring" where
  "js_join sep [] = []"
| "js_join sep [x] = x"
| "js_join sep (x # y # ys) = x @ sep @ js_join sep (y # ys)"

text \<open>
  The error classes of \<^verbatim>\<open>result.ts\<close>, lines 1 to 32. An error object is its class and
  the arguments of its constructor; \<open>message\<close> is the text \<^verbatim>\<open>BaseError\<close> passes to
  \<^verbatim>\<open>Error\<close>.
\<close>

datatype app_error =
    ValidationError jstring
  | NotFoundError jstring jstring
  | SystemError jstring

text \<open>Line 18: the prefix of a ValidationError's message (ten katakana, colon, space).\<close>

definition validation_prefix :: jstring where
  "validation_prefix =
     [12496, 12522, 12487, 12540, 12471, 12519, 12531, 12456, 12521, 12540, 58, 32]"

text \<open>Line 30: the prefix of a SystemError's message.\<close>

definition system_prefix :: jstring where
  "system_prefix = [12471, 12473, 12486, 12512, 12456, 12521, 12540, 58, 32]"

text \<open>Line 24: the text after the id in a NotFoundError's message; also lines 56 to 96.\<close>

definition ga_mitsukarimasen :: jstring where
  "ga_mitsukarimasen = [12364, 35211, 12388, 12363, 12426, 12414, 12379, 12435]"

fun message :: "app_error \<Rightarrow> jstring" where
  "message (ValidationError m) = validation_prefix @ m"
| "message (NotFoundError entityName ident) =
     entityName @ js ''(ID: '' @ ident @ js '')'' @ ga_mitsukarimasen"
| "message (SystemError m) = system_prefix @ m"

text \<open>
  \<^verbatim>\<open>Result<T, AppError>\<close> of neverthrow is a sum, \<open>Inl\<close> the error. A function that can
  also throw (its promise rejects) returns a \<open>completion\<close>; the thrown value is kept as
  the text JavaScript prints for it.
\<close>

type_synonym 'a result = "app_error + 'a"

datatype 'a completion = Returned 'a | Thrown jstring

section \<open>The data of the pipeline\<close>

text \<open>\<^verbatim>\<open>Args\<close>, lines 42 to 45, and \<^verbatim>\<open>Env\<close>, lines 75 to 82.\<close>

record cli_args =
  input :: jstring
  outDir :: jstring

record env =
  MISTRAL_OCR_API_KEY :: jstring
  R2_S3_URL :: jstring
  R2_ACCESS_KEY_ID :: jstring
  R2_SECRET_ACCESS_KEY :: jstring
  R2_BUCKET_NAME :: jstring
  R2_PUBLIC_URL :: jstring

text \<open>
  \<^verbatim>\<open>OCRPageObject\<close>, lines 100 to 112. \<open>imageBase64\<close> is \<open>None\<close> when the field is
  undefined or null. The bounding box and the dimensions are read by no function; they
  are kept as optional integers.

  \<open>page_index\<close> is the field \<^verbatim>\<open>index\<close>, a JavaScript number that the program
  reads only in \<^verbatim>\<open>pageObject.index + 1\<close> (lines 195 and 207). It is taken as an integer,
  and \<open>page_index object + 1\<close> is the sum of integers. This is the value the program
  computes for the integers from \<open>- 2 ^ 53\<close> up to \<open>2 ^ 53 - 1\<close>; from \<open>2 ^ 53\<close>
  on the program's sum is rounded (\<^verbatim>\<open>2 ** 53 + 1\<close> is \<^verbatim>\<open>2 ** 53\<close>), so a statement
  that needs two indices to give two sums carries this range as a hypothesis.
\<close>

record embedded_image =
  image_id :: jstring
  imageBase64 :: "jstring option"
  bottomRightX :: "int option"
  bottomRightY :: "int option"
  topLeftX :: "int option"
  topLeftY :: "int option"

record dimensions_t =
  dpi :: "int option"
  height :: "int option"
  width :: "int option"

record page =
  page_index :: int
  markdown :: jstring
  page_images :: "embedded_image list"
  dimensions :: "dimensions_t option"

text \<open>One entry of \<^verbatim>\<open>ImageMap\<close>, lines 136 to 139.\<close>

record published_image =
  pub_id :: jstring
  url :: jstring

type_synonym image_map = "published_image list"

section \<open>The world outside the program\<close>

text \<open>
  What the program asks of Deno, of the Mistral client and of the S3 client. Every effect
  is written to a trace, in the order the program performs it; a failed attempt is written
  too.
\<close>

record file_info =
  isFile :: bool
  isDirectory :: bool

record s3_client =
  region :: jstring
  endpoint :: jstring
  accessKeyId :: jstring
  secretAccessKey :: jstring

record put_object =
  Bucket :: jstring
  Key :: jstring
  Body :: bytes
  ContentType :: jstring
  ACL :: jstring

record ocr_request =
  model :: jstring
  documentUrl :: jstring
  includeImageBase64 :: bool

record date =
  fullYear :: int
  month :: nat
  day_of_month :: nat

datatype event =
    StatSync jstring
  | EnsureDir jstring
  | ReadFile jstring
  | FilesUpload jstring jstring bytes
  | GetSignedUrl jstring jstring
  | OcrProcess jstring ocr_request
  | NewDate
  | S3Send s3_client put_object
  | WriteTextFile jstring jstring
  | ConsoleError app_error
  | Uncaught jstring
  | Exit nat

type_synonym trace = "event list"

text \<open>The calls that go to the network: the three of the OCR client and the S3 upload.\<close>

fun is_network :: "event \<Rightarrow> bool" where
  "is_network (FilesUpload k n b) = True"
| "is_network (GetSignedUrl k f) = True"
| "is_network (OcrProcess k r) = True"
| "is_network (S3Send c p) = True"
| "is_network ev = False"

text \<open>
  The answers of the outside world. An answer may depend on everything done so far (the
  trace), so a clock can advance and an upload can fail the second time. A failure
  carries the text of the thrown value. \<open>parseArgs\<close> is \<^verbatim>\<open>node:util\<close>'s parser called
  with the option table of lines 48 to 55: it throws, or returns the values of
  \<^verbatim>\<open>input\<close> and \<^verbatim>\<open>outDir\<close> (\<open>None\<close> for undefined). \<open>basename\<close>,
  \<open>path_join\<close> and \<open>decodeBase64\<close> are the library functions of these names.
\<close>

record world =
  deno_args :: "jstring list"
  parseArgs :: "jstring list \<Rightarrow> jstring + (jstring option \<times> jstring option)"
  env_get :: "jstring \<Rightarrow> jstring option"
  statSync :: "trace \<Rightarrow> jstring \<Rightarrow> file_info option"
  ensureDir :: "trace \<Rightarrow> jstring \<Rightarrow> jstring option"
  readFile :: "trace \<Rightarrow> jstring \<Rightarrow> jstring + bytes"
  basename :: "jstring \<Rightarrow> jstring"
  path_join :: "jstring \<Rightarrow> jstring \<Rightarrow> jstring"
  files_upload :: "trace \<Rightarrow> jstring \<Rightarrow> jstring \<Rightarrow> bytes \<Rightarrow> jstring + jstring"
  files_getSignedUrl :: "trace \<Rightarrow> jstring \<Rightarrow> jstring \<Rightarrow> jstring + jstring"
  ocr_process :: "trace \<Rightarrow> jstring \<Rightarrow> ocr_request \<Rightarrow> jstring + page list"
  decodeBase64 :: "jstring \<Rightarrow> jstring + bytes"
  new_Date :: "trace \<Rightarrow> date"
  s3_send :: "trace \<Rightarrow> s3_client \<Rightarrow> put_object \<Rightarrow> jstring option"
  writeTextFile :: "trace \<Rightarrow> jstring \<Rightarrow> jstring \<Rightarrow> jstring option"

section \<open>Command line and configuration\<close>

text \<open>The Japanese texts of lines 61 to 69.\<close>

definition ga_sonzai_shimasen :: jstring where
  "ga_sonzai_shimasen = [12364, 23384, 22312, 12375, 12414, 12379, 12435]"

definition wa_file_dewa_arimasen :: jstring where
  "wa_file_dewa_arimasen =
     [12399, 12501, 12449, 12452, 12523, 12391, 12399, 12354, 12426, 12414, 12379, 12435]"

definition wa_directory_dewa_arimasen :: jstring where
  "wa_directory_dewa_arimasen =
     [12399, 12487, 12451, 12524, 12463, 12488, 12522, 12391, 12399, 12354, 12426, 12414,
      12379, 12435]"

text \<open>\<^verbatim>\<open>!v\<close> for a value that is a string or undefined.\<close>

fun falsy :: "jstring option \<Rightarrow> bool" where
  "falsy None = True"
| "falsy (Some s) = (s = [])"

text \<open>
  \<^verbatim>\<open>getCliArgs\<close>, lines 47 to 73. The call of \<open>parseArgs\<close> stands outside every
  \<^verbatim>\<open>try\<close>, so what it throws leaves the function as it is; each \<^verbatim>\<open>statSync\<close>
  has its own \<^verbatim>\<open>try\<close> and \<^verbatim>\<open>catch\<close>.
\<close>

definition getCliArgs :: "world \<Rightarrow> trace \<Rightarrow> cli_args result completion \<times> trace" where
  "getCliArgs w tr =
     (case parseArgs w (deno_args w) of
        Inl thrown \<Rightarrow> (Thrown thrown, tr)
      | Inr (inp, out) \<Rightarrow>
          (case inp of
             None \<Rightarrow> (Returned (Inl (ValidationError (js ''args.input '' @ ga_mitsukarimasen))), tr)
           | Some i \<Rightarrow>
               if i = [] then
                 (Returned (Inl (ValidationError (js ''args.input '' @ ga_mitsukarimasen))), tr)
               else
                 (case out of
                    None \<Rightarrow>
                      (Returned (Inl (ValidationError (js ''args.outDir '' @ ga_mitsukarimasen))), tr)
                  | Some d \<Rightarrow>
                      if d = [] then
                        (Returned (Inl (ValidationError (js ''args.outDir '' @ ga_mitsukarimasen))),
                         tr)
                      else
                        (case statSync w tr i of
                           None \<Rightarrow>
                             (Returned (Inl (ValidationError (js ''args.input '' @ ga_sonzai_shimasen))),
                              tr @ [StatSync i])
                         | Some statIn \<Rightarrow>
                             if \<not> isFile statIn then
                               (Returned (Inl (ValidationError
                                  (js ''args.input '' @ wa_file_dewa_arimasen))),
                                tr @ [StatSync i])
                             else
                               (case statSync w (tr @ [StatSync i]) d of
                                  None \<Rightarrow>
                                    (Returned (Inl (ValidationError
                                       (js ''args.outDir '' @ ga_sonzai_shimasen))),
                                     tr @ [StatSync i, StatSync d])
                                | Some statOut \<Rightarrow>
                                    if \<not> isDirectory statOut then
                                      (Returned (Inl (ValidationError
                                         (js ''args.outDir '' @ wa_directory_dewa_arimasen))),
                                       tr @ [StatSync i, StatSync d])
                                    else
                                      (Returned (Inr \<lparr>input = i, outDir = d\<rparr>),
                                       tr @ [StatSync i, StatSync d]))))))"

text \<open>
  \<^verbatim>\<open>getEnvs\<close>, lines 84 to 98. The source reads the six variables and then checks
  them in this order; a read has no effect, so each read stands here beside its check.
\<close>

definition getEnvs :: "world \<Rightarrow> env result" where
  "getEnvs w =
     (case env_get w (js ''MISTRAL_OCR_API_KEY'') of
        None \<Rightarrow> Inl (ValidationError (js ''MISTRAL_OCR_API_KEY '' @ ga_mitsukarimasen))
      | Some a \<Rightarrow>
          if a = [] then Inl (ValidationError (js ''MISTRAL_OCR_API_KEY '' @ ga_mitsukarimasen))
          else
           (case env_get w (js ''R2_S3_URL'') of
              None \<Rightarrow> Inl (ValidationError (js ''R2_S3_URL '' @ ga_mitsukarimasen))
            | Some b \<Rightarrow>
                if b = [] then Inl (ValidationError (js ''R2_S3_URL '' @ ga_mitsukarimasen))
                else
                 (case env_get w (js ''R2_ACCESS_KEY_ID'') of
                    None \<Rightarrow> Inl (ValidationError (js ''R2_ACCESS_KEY_ID '' @ ga_mitsukarimasen))
                  | Some c \<Rightarrow>
                      if c = [] then Inl (ValidationError (js ''R2_ACCESS_KEY_ID '' @ ga_mitsukarimasen))
                      else
                       (case env_get w (js ''R2_SECRET_ACCESS_KEY'') of
                          None \<Rightarrow> Inl (ValidationError (js ''R2_SECRET_ACCESS_KEY '' @ ga_mitsukarimasen))
                        | Some d \<Rightarrow>
                            if d = [] then Inl (ValidationError (js ''R2_SECRET_ACCESS_KEY '' @ ga_mitsukarimasen))
                            else
                             (case env_get w (js ''R2_BUCKET_NAME'') of
                                None \<Rightarrow> Inl (ValidationError (js ''R2_BUCKET_NAME '' @ ga_mitsukarimasen))
                              | Some e \<Rightarrow>
                                  if e = [] then Inl (ValidationError (js ''R2_BUCKET_NAME '' @ ga_mitsukarimasen))
                                  else
                                   (case env_get w (js ''R2_PUBLIC_URL'') of
                                      None \<Rightarrow> Inl (ValidationError (js ''R2_PUBLIC_URL '' @ ga_mitsukarimasen))
                                    | Some f \<Rightarrow>
                                        if f = [] then Inl (ValidationError (js ''R2_PUBLIC_URL '' @ ga_mitsukarimasen))
                                        else
                                         Inr \<lparr>MISTRAL_OCR_API_KEY = a, R2_S3_URL = b, R2_ACCESS_KEY_ID = c,
                                              R2_SECRET_ACCESS_KEY = d, R2_BUCKET_NAME = e, R2_PUBLIC_URL = f\<rparr>))))))"

section \<open>OCR\<close>

text \<open>Line 132: the fixed text of the OCR stage's error.\<close>

definition ocr_failed :: jstring where
  "ocr_failed =
     [79, 67, 82, 32, 20966, 29702, 12395, 22833, 25943, 12375, 12414, 12375, 12383]"

text \<open>
  \<^verbatim>\<open>processOcr\<close>, lines 114 to 134: read the file, upload it, get a signed URL, run the
  OCR. Whatever the promise rejects with, the mapper of line 132 ignores it.
\<close>

definition processOcr :: "world \<Rightarrow> trace \<Rightarrow> jstring \<Rightarrow> jstring \<Rightarrow> page list result \<times> trace" where
  "processOcr w tr apiKey pdfPath =
     (let tr1 = tr @ [ReadFile pdfPath] in
      case readFile w tr pdfPath of
        Inl cause \<Rightarrow> (Inl (SystemError ocr_failed), tr1)
      | Inr pdfBytes \<Rightarrow>
          (let tr2 = tr1 @ [FilesUpload apiKey (basename w pdfPath) pdfBytes] in
           case files_upload w tr1 apiKey (basename w pdfPath) pdfBytes of
             Inl cause \<Rightarrow> (Inl (SystemError ocr_failed), tr2)
           | Inr fileId \<Rightarrow>
               (let tr3 = tr2 @ [GetSignedUrl apiKey fileId] in
                case files_getSignedUrl w tr2 apiKey fileId of
                  Inl cause \<Rightarrow> (Inl (SystemError ocr_failed), tr3)
                | Inr signed \<Rightarrow>
                    (let req = \<lparr>model = js ''mistral-ocr-latest'', documentUrl = signed,
                                 includeImageBase64 = True\<rparr>;
                         tr4 = tr3 @ [OcrProcess apiKey req] in
                     case ocr_process w tr3 apiKey req of
                       Inl cause \<Rightarrow> (Inl (SystemError ocr_failed), tr4)
                     | Inr pages \<Rightarrow> (Inr pages, tr4)))))"

section \<open>Publishing the images\<close>

text \<open>
  The two regular expressions of line 169. \<open>\w\<close> is a letter, a digit or the underscore;
  \<open>\s\<close> is the white space of ECMAScript.
\<close>

definition is_word :: "nat \<Rightarrow> bool" where
  "is_word c = ((48 \<le> c \<and> c \<le> 57) \<or> (65 \<le> c \<and> c \<le> 90) \<or> c = 95 \<or> (97 \<le> c \<and> c \<le> 122))"

definition is_space :: "nat \<Rightarrow> bool" where
  "is_space c =
     ((9 \<le> c \<and> c \<le> 13) \<or> c = 32 \<or> c = 160 \<or> c = 5760 \<or> (8192 \<le> c \<and> c \<le> 8202) \<or>
      c = 8232 \<or> c = 8233 \<or> c = 8239 \<or> c = 8287 \<or> c = 12288 \<or> c = 65279)"

text \<open>\<open>strip_lit p s\<close> is the rest of \<open>s\<close> after the literal \<open>p\<close>, if \<open>s\<close> starts with it.\<close>

fun strip_lit :: "jstring \<Rightarrow> jstring \<Rightarrow> jstring option" where
  "strip_lit [] s = Some s"
| "strip_lit (p # ps) [] = None"
| "strip_lit (p # ps) (c # cs) = (if p = c then strip_lit ps cs else None)"

text \<open>
  \<^verbatim>\<open>s.replace(/^data:image\/\w+;base64,/, "")\<close>: the expression is anchored at the
  start and has no global flag, so at most the one match at the start is removed. After
  the literal, \<open>\w+\<close> takes the longest run of word characters; a shorter run would be
  followed by a word character, never by the semicolon, so backtracking finds no other
  match.
\<close>

definition strip_data_uri :: "jstring \<Rightarrow> jstring" where
  "strip_data_uri s =
     (case strip_lit (js ''data:image/'') s of
        None \<Rightarrow> s
      | Some r \<Rightarrow>
          if takeWhile is_word r = [] then s
          else (case strip_lit (js '';base64,'') (dropWhile is_word r) of
                  None \<Rightarrow> s
                | Some rest \<Rightarrow> rest))"

text \<open>\<^verbatim>\<open>s.replace(/\s+/g, "")\<close>: every run of white space is removed.\<close>

definition remove_spaces :: "jstring \<Rightarrow> jstring" where
  "remove_spaces s = filter (\<lambda>c. \<not> is_space c) s"

text \<open>Lines 161 to 165: the date of the keys, from one reading of the clock.\<close>

definition ymd_of :: "date \<Rightarrow> jstring" where
  "ymd_of today =
     (let yyyy = fullYear today;
          mm = padStart2 (js_of_int (int (month today) + 1));
          dd = padStart2 (js_of_int (int (day_of_month today)))
      in js_of_int yyyy @ js ''-'' @ mm @ js ''-'' @ dd)"

text \<open>Line 185: the text before the cause in the upload stage's error.\<close>

definition upload_failed :: jstring where
  "upload_failed =
     [30011, 20687, 12398, 12450, 12483, 12503, 12525, 12540, 12489, 12395, 22833, 25943,
      12375, 12414, 12375, 12383, 58, 32]"

text \<open>
  The loop of lines 167 to 182, with \<open>uploaded\<close> the list built so far. \<open>Inl\<close> is the
  value thrown inside the promise, by \<open>decodeBase64\<close> or by the upload.
\<close>

fun upload_loop ::
  "world \<Rightarrow> s3_client \<Rightarrow> jstring \<Rightarrow> jstring \<Rightarrow> jstring \<Rightarrow> embedded_image list \<Rightarrow> image_map \<Rightarrow>
   trace \<Rightarrow> (jstring + image_map) \<times> trace" where
  "upload_loop w client bucketName publicUrl ymd [] uploaded tr = (Inr uploaded, tr)"
| "upload_loop w client bucketName publicUrl ymd (img # rest) uploaded tr =
     (case imageBase64 img of
        None \<Rightarrow> upload_loop w client bucketName publicUrl ymd rest uploaded tr
      | Some b \<Rightarrow>
          if b = [] then upload_loop w client bucketName publicUrl ymd rest uploaded tr
          else
            (let base64 = remove_spaces (strip_data_uri b) in
             case decodeBase64 w base64 of
               Inl cause \<Rightarrow> (Inl cause, tr)
             | Inr body \<Rightarrow>
                 (let key = js ''paper/'' @ ymd @ js ''/'' @ image_id img @ js ''.png'';
                      cmd = \<lparr>Bucket = bucketName, Key = key, Body = body,
                             ContentType = js ''image/png'', ACL = js ''public-read''\<rparr>;
                      tr' = tr @ [S3Send client cmd] in
                  case s3_send w tr client cmd of
                    Some cause \<Rightarrow> (Inl cause, tr')
                  | None \<Rightarrow>
                      upload_loop w client bucketName publicUrl ymd rest
                        (uploaded @ [\<lparr>pub_id = image_id img, url = publicUrl @ js ''/'' @ key\<rparr>])
                        tr')))"

text \<open>\<^verbatim>\<open>uploadImages\<close>, lines 141 to 187.\<close>

definition uploadImages ::
  "world \<Rightarrow> trace \<Rightarrow> jstring \<Rightarrow> jstring \<Rightarrow> jstring \<Rightarrow> jstring \<Rightarrow> jstring \<Rightarrow> embedded_image list \<Rightarrow>
   image_map result \<times> trace" where
  "uploadImages w tr bucketName s3Url keyId secret publicUrl images =
     (let client = \<lparr>region = js ''auto'', endpoint = s3Url, accessKeyId = keyId,
                     secretAccessKey = secret\<rparr>;
          ymd = ymd_of (new_Date w tr)
      in case upload_loop w client bucketName publicUrl ymd images [] (tr @ [NewDate]) of
           (Inl cause, tr') \<Rightarrow> (Inl (SystemError (upload_failed @ cause)), tr')
         | (Inr uploaded, tr') \<Rightarrow> (Inr uploaded, tr'))"

section \<open>Assembling the Markdown\<close>

text \<open>Line 213: the text before the cause in the assembler's error.\<close>

definition markdown_failed :: jstring where
  "markdown_failed =
     [12510, 12540, 12463, 12480, 12454, 12531, 12398, 29983, 25104, 12395, 22833, 25943,
      12375, 12414, 12375, 12383, 58, 32]"

text \<open>
  The inner loop of lines 200 to 205: \<^verbatim>\<open>images.find\<close> returns the first entry with the
  image's id; an image with none adds nothing to \<open>lines\<close>.
\<close>

fun image_loop :: "image_map \<Rightarrow> embedded_image list \<Rightarrow> jstring list \<Rightarrow> jstring list" where
  "image_loop images [] lines = lines"
| "image_loop images (img # rest) lines =
     (case find (\<lambda>u. pub_id u = image_id img) images of
        None \<Rightarrow> image_loop images rest lines
      | Some uploaded \<Rightarrow>
          image_loop images rest
            (lines @ [js ''!['' @ image_id img @ js '']('' @ url uploaded @ js '')'', []]))"

text \<open>Lines 195 to 205: the lines of one page.\<close>

definition page_lines :: "image_map \<Rightarrow> page \<Rightarrow> jstring list" where
  "page_lines images object =
     image_loop images (page_images object)
       [js ''# Page '' @ js_of_int (page_index object + 1), [], markdown object, []]"

text \<open>
  The outer loop of lines 194 to 209, with \<open>combinedLines\<close> as built so far. \<open>Inl\<close> is
  the value \<^verbatim>\<open>writeTextFile\<close> rejected with.
\<close>

fun pages_loop ::
  "world \<Rightarrow> image_map \<Rightarrow> jstring \<Rightarrow> page list \<Rightarrow> jstring list \<Rightarrow> trace \<Rightarrow>
   (jstring + jstring list) \<times> trace" where
  "pages_loop w images dir [] combinedLines tr = (Inr combinedLines, tr)"
| "pages_loop w images dir (object # rest) combinedLines tr =
     (let lines = page_lines images object;
          filePath = path_join w dir
            (js ''page-'' @ js_of_int (page_index object + 1) @ js ''.md'');
          tr' = tr @ [WriteTextFile filePath (js_join nl lines)] in
      case writeTextFile w tr filePath (js_join nl lines) of
        Some cause \<Rightarrow> (Inl cause, tr')
      | None \<Rightarrow> pages_loop w images dir rest (combinedLines @ lines @ [[]]) tr')"

text \<open>\<^verbatim>\<open>generateMarkdown\<close>, lines 189 to 215.\<close>

definition generateMarkdown ::
  "world \<Rightarrow> trace \<Rightarrow> page list \<Rightarrow> image_map \<Rightarrow> jstring \<Rightarrow> unit result \<times> trace" where
  "generateMarkdown w tr objects images dir =
     (case pages_loop w images dir objects [] tr of
        (Inl cause, tr') \<Rightarrow> (Inl (SystemError (markdown_failed @ cause)), tr')
      | (Inr combinedLines, tr') \<Rightarrow>
          (let combinedPath = path_join w dir (js ''all-pages.md'');
               tr'' = tr' @ [WriteTextFile combinedPath (js_join nl combinedLines)] in
           case writeTextFile w tr' combinedPath (js_join nl combinedLines) of
             Some cause \<Rightarrow> (Inl (SystemError (markdown_failed @ cause)), tr'')
           | None \<Rightarrow> (Inr (), tr'')))"

section \<open>The orchestrator\<close>

text \<open>Line 231: the fixed text of the directory stage's error.\<close>

definition dir_failed :: jstring where
  "dir_failed =
     [12487, 12451, 12524, 12463, 12488, 12522, 12398, 20316, 25104, 12395, 22833, 25943,
      12375, 12414, 12375, 12383]"

text \<open>Lines 229 to 232: \<^verbatim>\<open>dirResult\<close>.\<close>

definition dirResult :: "world \<Rightarrow> trace \<Rightarrow> jstring \<Rightarrow> unit result \<times> trace" where
  "dirResult w tr dir =
     (case ensureDir w tr dir of
        Some cause \<Rightarrow> (Inl (SystemError dir_failed), tr @ [EnsureDir dir])
      | None \<Rightarrow> (Inr (), tr @ [EnsureDir dir]))"

text \<open>\<^verbatim>\<open>main\<close>, lines 217 to 257.\<close>

definition main :: "world \<Rightarrow> trace \<Rightarrow> unit result completion \<times> trace" where
  "main w tr =
     (case getCliArgs w tr of
        (Thrown thrown, tr1) \<Rightarrow> (Thrown thrown, tr1)
      | (Returned (Inl e), tr1) \<Rightarrow> (Returned (Inl e), tr1)
      | (Returned (Inr cli), tr1) \<Rightarrow>
          (case getEnvs w of
             Inl e \<Rightarrow> (Returned (Inl e), tr1)
           | Inr envs \<Rightarrow>
               (case dirResult w tr1 (outDir cli) of
                  (Inl e, tr2) \<Rightarrow> (Returned (Inl e), tr2)
                | (Inr u, tr2) \<Rightarrow>
                    (case processOcr w tr2 (MISTRAL_OCR_API_KEY envs) (input cli) of
                       (Inl e, tr3) \<Rightarrow> (Returned (Inl e), tr3)
                     | (Inr ocrPageObject, tr3) \<Rightarrow>
                         (case uploadImages w tr3 (R2_BUCKET_NAME envs) (R2_S3_URL envs)
                                 (R2_ACCESS_KEY_ID envs) (R2_SECRET_ACCESS_KEY envs)
                                 (R2_PUBLIC_URL envs) (concat (map page_images ocrPageObject)) of
                            (Inl e, tr4) \<Rightarrow> (Returned (Inl e), tr4)
                          | (Inr imageMap, tr4) \<Rightarrow>
                              (case generateMarkdown w tr4 ocrPageObject imageMap (outDir cli) of
                                 (Inl e, tr5) \<Rightarrow> (Returned (Inl e), tr5)
                               | (Inr u, tr5) \<Rightarrow> (Returned (Inr ()), tr5)))))))"

text \<open>
  The entry of lines 259 to 268: an error is printed and the process exits with code 1;
  on success nothing more is done and the process ends with code 0. When \<open>main\<close> throws,
  the top-level \<^verbatim>\<open>await\<close> throws and Deno ends the process with code 1. The result is
  the exit code and the whole trace.
\<close>

definition run :: "world \<Rightarrow> nat \<times> trace" where
  "run w =
     (case main w [] of
        (Returned (Inr u), tr) \<Rightarrow> (0, tr)
      | (Returned (Inl e), tr) \<Rightarrow> (1, tr @ [ConsoleError e, Exit 1])
      | (Thrown thrown, tr) \<Rightarrow> (1, tr @ [Uncaught thrown]))"

text \<open>
  The stage an effect belongs to, in the order of \<open>main\<close>: 1 the command line, 2 the
  configuration (it has no effect), 3 the output directory, 4 the OCR, 5 the images,
  6 the Markdown, 7 the end of the process.
\<close>

fun stage :: "event \<Rightarrow> nat" where
  "stage (StatSync p) = 1"
| "stage (EnsureDir p) = 3"
| "stage (ReadFile p) = 4"
| "stage (FilesUpload k n b) = 4"
| "stage (GetSignedUrl k f) = 4"
| "stage (OcrProcess k r) = 4"
| "stage NewDate = 5"
| "stage (S3Send c p) = 5"
| "stage (WriteTextFile p c) = 6"
| "stage (ConsoleError e) = 7"
| "stage (Uncaught t) = 7"
| "stage (Exit n) = 7"

section \<open>Notions for the statements\<close>

text \<open>
  The six variables in the order \<open>getEnvs\<close> checks them.
\<close>

definition env_names :: "jstring list" where
  "env_names =
     [js ''MISTRAL_OCR_API_KEY'', js ''R2_S3_URL'', js ''R2_ACCESS_KEY_ID'',
      js ''R2_SECRET_ACCESS_KEY'', js ''R2_BUCKET_NAME'', js ''R2_PUBLIC_URL'']"

text \<open>
  An image has inline bytes when \<^verbatim>\<open>!imageBase64\<close> of line 168 is false: the field
  is a string and not the empty one. \<open>cleaned_payload\<close> is the string line 170 hands to
  the decoder.
\<close>

definition has_inline_bytes :: "embedded_image \<Rightarrow> bool" where
  "has_inline_bytes img = (\<not> falsy (imageBase64 img))"

definition cleaned_payload :: "embedded_image \<Rightarrow> jstring" where
  "cleaned_payload img =
     (case imageBase64 img of None \<Rightarrow> [] | Some b \<Rightarrow> remove_spaces (strip_data_uri b))"

text \<open>
  The key, the upload command, the mapping entry and the client of lines 153 to 181,
  for one image and the date \<open>ymd\<close>.
\<close>

definition storage_key :: "jstring \<Rightarrow> jstring \<Rightarrow> jstring" where
  "storage_key ymd ident = js ''paper/'' @ ymd @ js ''/'' @ ident @ js ''.png''"

definition put_command :: "jstring \<Rightarrow> jstring \<Rightarrow> embedded_image \<Rightarrow> bytes \<Rightarrow> put_object" where
  "put_command bucketName ymd img body =
     \<lparr>Bucket = bucketName, Key = storage_key ymd (image_id img), Body = body,
      ContentType = js ''image/png'', ACL = js ''public-read''\<rparr>"

definition published :: "jstring \<Rightarrow> jstring \<Rightarrow> embedded_image \<Rightarrow> published_image" where
  "published publicUrl ymd img =
     \<lparr>pub_id = image_id img, url = publicUrl @ js ''/'' @ storage_key ymd (image_id img)\<rparr>"

definition s3_client_of :: "jstring \<Rightarrow> jstring \<Rightarrow> jstring \<Rightarrow> s3_client" where
  "s3_client_of s3Url keyId secret =
     \<lparr>region = js ''auto'', endpoint = s3Url, accessKeyId = keyId, secretAccessKey = secret\<rparr>"

text \<open>
  What one turn of the loop of lines 200 to 205 adds to \<open>lines\<close>, and the write of
  line 207.
\<close>

definition image_reference :: "image_map \<Rightarrow> embedded_image \<Rightarrow> jstring list" where
  "image_reference images img =
     (case find (\<lambda>u. pub_id u = image_id img) images of
        None \<Rightarrow> []
      | Some uploaded \<Rightarrow> [js ''!['' @ image_id img @ js '']('' @ url uploaded @ js '')'', []])"

definition page_write :: "world \<Rightarrow> image_map \<Rightarrow> jstring \<Rightarrow> page \<Rightarrow> event" where
  "page_write w images dir object =
     WriteTextFile
       (path_join w dir (js ''page-'' @ js_of_int (page_index object + 1) @ js ''.md''))
       (js_join nl (page_lines images object))"

text \<open>
  A trace is in order up to stage \<open>k\<close> when its effects come in the order of the stages
  and none belongs to a stage after \<open>k\<close>.
\<close>

definition in_order :: "nat \<Rightarrow> trace \<Rightarrow> bool" where
  "in_order k tr = (sorted (map stage tr) \<and> list_all (\<lambda>ev. stage ev \<le> k) tr)"

text \<open>
  The number a string of decimal digits stands for.
\<close>

definition digit_value :: "jstring \<Rightarrow> nat" where
  "digit_value s = foldl (\<lambda>a d. 10 * a + (d - 48)) 0 s"

text \<open>
  The text of a page's file as claim C3 words it: the heading, the markdown and the
  references of the images that are in the mapping, joined by line feeds, and no other
  line.
\<close>

definition claimed_page_text :: "image_map \<Rightarrow> page \<Rightarrow> jstring" where
  "claimed_page_text images object =
     js_join nl
       ([js ''# Page '' @ js_of_int (page_index object + 1), markdown object] @
        concat (map (\<lambda>img.
             case find (\<lambda>u. pub_id u = image_id img) images of
               None \<Rightarrow> []
             | Some uploaded \<Rightarrow>
                 [js ''!['' @ image_id img @ js '']('' @ url uploaded @ js '')''])
           (page_images object)))"

section \<open>A sample run\<close>

text \<open>
  A world for the examples: a PDF of two pages, the first with one image \<open>img-1\<close> that
  has inline bytes and one image \<open>img-2\<close> that has none. Its clock advances by a day
  with every effect. Its parser answers for the argument lists of the examples as
  \<^verbatim>\<open>node:util\<close> does: a positional argument makes it throw. Its decoder knows the two
  base64 strings of the examples and rejects every other string.
\<close>

definition sample_image :: embedded_image where
  "sample_image =
     \<lparr>image_id = js ''img-1'', imageBase64 = Some (js ''data:image/png;base64,QUJD''),
      bottomRightX = Some 10, bottomRightY = Some 10, topLeftX = Some 0, topLeftY = Some 0\<rparr>"

definition bare_image :: embedded_image where
  "bare_image =
     \<lparr>image_id = js ''img-2'', imageBase64 = None,
      bottomRightX = None, bottomRightY = None, topLeftX = None, topLeftY = None\<rparr>"

definition sample_page1 :: page where
  "sample_page1 =
     \<lparr>page_index = 0, markdown = js ''Hello'', page_images = [sample_image, bare_image],
      dimensions = None\<rparr>"

definition sample_page2 :: page where
  "sample_page2 =
     \<lparr>page_index = 1, markdown = js ''World'', page_images = [], dimensions = None\<rparr>"

definition sample_pages :: "page list" where
  "sample_pages = [sample_page1, sample_page2]"

definition sample_parseArgs :: "jstring list \<Rightarrow> jstring + (jstring option \<times> jstring option)" where
  "sample_parseArgs as =
     (case as of
        [] \<Rightarrow> Inr (None, None)
      | [f, v] \<Rightarrow>
          if f = js ''--input'' then Inr (Some v, None)
          else if f = js ''--outDir'' then Inr (None, Some v)
          else Inl (js ''TypeError: Unexpected argument'')
      | [f, v, g, u] \<Rightarrow>
          if f = js ''--input'' \<and> g = js ''--outDir'' then Inr (Some v, Some u)
          else Inl (js ''TypeError: Unexpected argument'')
      | _ \<Rightarrow> Inl (js ''TypeError: Unexpected argument''))"

definition sample_env :: "jstring \<Rightarrow> jstring option" where
  "sample_env =
     map_of
       [(js ''MISTRAL_OCR_API_KEY'', js ''mk''),
        (js ''R2_S3_URL'', js ''https://s3''),
        (js ''R2_ACCESS_KEY_ID'', js ''id''),
        (js ''R2_SECRET_ACCESS_KEY'', js ''secret''),
        (js ''R2_BUCKET_NAME'', js ''bucket''),
        (js ''R2_PUBLIC_URL'', js ''https://pub'')]"

definition sample_world :: world where
  "sample_world =
     \<lparr>deno_args = [js ''--input'', js ''in.pdf'', js ''--outDir'', js ''out''],
      parseArgs = sample_parseArgs,
      env_get = sample_env,
      statSync = (\<lambda>tr p.
        if p = js ''in.pdf'' then Some \<lparr>isFile = True, isDirectory = False\<rparr>
        else if p = js ''out'' then Some \<lparr>isFile = False, isDirectory = True\<rparr>
        else None),
      ensureDir = (\<lambda>tr p. None),
      readFile = (\<lambda>tr p. Inr [37, 80, 68, 70]),
      basename = (\<lambda>p. p),
      path_join = (\<lambda>d f. d @ js ''/'' @ f),
      files_upload = (\<lambda>tr k n b. Inr (js ''file-1'')),
      files_getSignedUrl = (\<lambda>tr k f. Inr (js ''https://signed'')),
      ocr_process = (\<lambda>tr k r. Inr sample_pages),
      decodeBase64 = (\<lambda>s.
        if s = js ''QUJD'' then Inr [65, 66, 67]
        else if s = js ''QQ=='' then Inr [65]
        else Inl (js ''InvalidCharacterError'')),
      new_Date = (\<lambda>tr. \<lparr>fullYear = 2025, month = 0, day_of_month = 1 + length tr\<rparr>),
      s3_send = (\<lambda>tr c p. None),
      writeTextFile = (\<lambda>tr p c. None)\<rparr>"

text \<open>
  What the sample run does: the effects up to the end of the OCR stage, the upload, the
  mapping, the three files.
\<close>

definition sample_ocr_trace :: "jstring \<Rightarrow> jstring \<Rightarrow> trace" where
  "sample_ocr_trace apiKey pdfPath =
     [ReadFile pdfPath, FilesUpload apiKey pdfPath [37, 80, 68, 70],
      GetSignedUrl apiKey (js ''file-1''),
      OcrProcess apiKey \<lparr>model = js ''mistral-ocr-latest'', documentUrl = js ''https://signed'',
        includeImageBase64 = True\<rparr>]"

definition sample_prefix_trace :: trace where
  "sample_prefix_trace =
     [StatSync (js ''in.pdf''), StatSync (js ''out''), EnsureDir (js ''out'')] @
     sample_ocr_trace (js ''mk'') (js ''in.pdf'')"

definition sample_client :: s3_client where
  "sample_client = s3_client_of (js ''https://s3'') (js ''id'') (js ''secret'')"

definition sample_put :: put_object where
  "sample_put =
     \<lparr>Bucket = js ''bucket'', Key = js ''paper/2025-01-08/img-1.png'', Body = [65, 66, 67],
      ContentType = js ''image/png'', ACL = js ''public-read''\<rparr>"

definition sample_map :: image_map where
  "sample_map = [\<lparr>pub_id = js ''img-1'', url = js ''https://pub/paper/2025-01-08/img-1.png''\<rparr>]"

definition sample_page1_text :: jstring where
  "sample_page1_text =
     js ''# Page 1'' @ nl @ nl @ js ''Hello'' @ nl @ nl @
     js ''![img-1](https://pub/paper/2025-01-08/img-1.png)'' @ nl"

definition sample_page2_text :: jstring where
  "sample_page2_text = js ''# Page 2'' @ nl @ nl @ js ''World'' @ nl"

definition sample_all_text :: jstring where
  "sample_all_text = sample_page1_text @ nl @ nl @ sample_page2_text @ nl"

definition sample_run_trace :: trace where
  "sample_run_trace =
     [StatSync (js ''in.pdf''), StatSync (js ''out''), EnsureDir (js ''out'')] @
     sample_ocr_trace (js ''mk'') (js ''in.pdf'') @
     [NewDate, S3Send sample_client sample_put,
      WriteTextFile (js ''out/page-1.md'') sample_page1_text,
      WriteTextFile (js ''out/page-2.md'') sample_page2_text,
      WriteTextFile (js ''out/all-pages.md'') sample_all_text]"

text \<open>
  Variants of the sample world: a variable unset or empty, other command lines, the OCR
  service down, the upload failing with two different causes.
\<close>

definition no_key_world :: world where
  "no_key_world = sample_world\<lparr>env_get := sample_env(js ''MISTRAL_OCR_API_KEY'' := None)\<rparr>"

definition empty_key_world :: world where
  "empty_key_world = sample_world\<lparr>env_get := sample_env(js ''R2_S3_URL'' := Some [])\<rparr>"

definition extra_argument_world :: world where
  "extra_argument_world =
     sample_world\<lparr>deno_args :=
       [js ''--input'', js ''in.pdf'', js ''--outDir'', js ''out'', js ''extra.pdf'']\<rparr>"

definition no_input_world :: world where
  "no_input_world = sample_world\<lparr>deno_args := [js ''--outDir'', js ''out'']\<rparr>"

definition input_is_directory_world :: world where
  "input_is_directory_world =
     sample_world\<lparr>deno_args := [js ''--input'', js ''out'', js ''--outDir'', js ''out'']\<rparr>"

definition ocr_down_world :: world where
  "ocr_down_world = sample_world\<lparr>ocr_process := (\<lambda>tr k r. Inl (js ''503''))\<rparr>"

definition upload_timeout_world :: world where
  "upload_timeout_world = sample_world\<lparr>s3_send := (\<lambda>tr c p. Some (js ''TimeoutError''))\<rparr>"

definition upload_denied_world :: world where
  "upload_denied_world = sample_world\<lparr>s3_send := (\<lambda>tr c p. Some (js ''AccessDenied''))\<rparr>"

text \<open>
  More images: a second one with inline bytes, and one whose payload has the media type
  \<^verbatim>\<open>svg+xml\<close>.
\<close>

definition second_image :: embedded_image where
  "second_image = sample_image\<lparr>image_id := js ''img-3''\<rparr>"

definition second_put :: put_object where
  "second_put =
     \<lparr>Bucket = js ''bucket'', Key = js ''paper/2025-01-08/img-3.png'', Body = [65, 66, 67],
      ContentType = js ''image/png'', ACL = js ''public-read''\<rparr>"


section \<open>Properties of the configuration loader\<close>

lemma falsy_iff: "falsy v \<longleftrightarrow> (v = None \<or> v = Some [])"
  by (cases v) auto

lemma js_append: "js (a @ b) = js a @ js b"
  by (simp add: js_def)

lemma env_texts:
  "js ''MISTRAL_OCR_API_KEY '' = js ''MISTRAL_OCR_API_KEY'' @ js '' ''"
  "js ''R2_S3_URL '' = js ''R2_S3_URL'' @ js '' ''"
  "js ''R2_ACCESS_KEY_ID '' = js ''R2_ACCESS_KEY_ID'' @ js '' ''"
  "js ''R2_SECRET_ACCESS_KEY '' = js ''R2_SECRET_ACCESS_KEY'' @ js '' ''"
  "js ''R2_BUCKET_NAME '' = js ''R2_BUCKET_NAME'' @ js '' ''"
  "js ''R2_PUBLIC_URL '' = js ''R2_PUBLIC_URL'' @ js '' ''"
  by (simp_all add: js_append [symmetric])

lemma getEnvs_find:
  "getEnvs w =
     (case find (\<lambda>k. falsy (env_get w k)) env_names of
        Some k \<Rightarrow> Inl (ValidationError (k @ js '' '' @ ga_mitsukarimasen))
      | None \<Rightarrow>
          Inr \<lparr>MISTRAL_OCR_API_KEY = the (env_get w (js ''MISTRAL_OCR_API_KEY'')),
               R2_S3_URL = the (env_get w (js ''R2_S3_URL'')),
               R2_ACCESS_KEY_ID = the (env_get w (js ''R2_ACCESS_KEY_ID'')),
               R2_SECRET_ACCESS_KEY = the (env_get w (js ''R2_SECRET_ACCESS_KEY'')),
               R2_BUCKET_NAME = the (env_get w (js ''R2_BUCKET_NAME'')),
               R2_PUBLIC_URL = the (env_get w (js ''R2_PUBLIC_URL''))\<rparr>)"
proof -
  define k1 where "k1 = js ''MISTRAL_OCR_API_KEY''"
  define k2 where "k2 = js ''R2_S3_URL''"
  define k3 where "k3 = js ''R2_ACCESS_KEY_ID''"
  define k4 where "k4 = js ''R2_SECRET_ACCESS_KEY''"
  define k5 where "k5 = js ''R2_BUCKET_NAME''"
  define k6 where "k6 = js ''R2_PUBLIC_URL''"
  define sp where "sp = js '' '' @ ga_mitsukarimasen"
  note ks = k1_def k2_def k3_def k4_def k5_def k6_def
  show ?thesis
    unfolding getEnvs_def env_names_def env_texts append_assoc
    unfolding ks [symmetric] sp_def [symmetric]
    by (simp add: falsy_iff split: option.split)
qed

lemma find_env_None:
  "find (\<lambda>k. falsy (env_get w k)) env_names = None \<longleftrightarrow>
     (\<not> falsy (env_get w (js ''MISTRAL_OCR_API_KEY'')) \<and> \<not> falsy (env_get w (js ''R2_S3_URL'')) \<and>
      \<not> falsy (env_get w (js ''R2_ACCESS_KEY_ID'')) \<and>
      \<not> falsy (env_get w (js ''R2_SECRET_ACCESS_KEY'')) \<and>
      \<not> falsy (env_get w (js ''R2_BUCKET_NAME'')) \<and> \<not> falsy (env_get w (js ''R2_PUBLIC_URL'')))"
  by (simp add: env_names_def)

lemma getEnvs_Inr:
  assumes "getEnvs w = Inr e"
  shows "env_get w (js ''MISTRAL_OCR_API_KEY'') = Some (MISTRAL_OCR_API_KEY e) \<and>
         env_get w (js ''R2_S3_URL'') = Some (R2_S3_URL e) \<and>
         env_get w (js ''R2_ACCESS_KEY_ID'') = Some (R2_ACCESS_KEY_ID e) \<and>
         env_get w (js ''R2_SECRET_ACCESS_KEY'') = Some (R2_SECRET_ACCESS_KEY e) \<and>
         env_get w (js ''R2_BUCKET_NAME'') = Some (R2_BUCKET_NAME e) \<and>
         env_get w (js ''R2_PUBLIC_URL'') = Some (R2_PUBLIC_URL e) \<and>
         MISTRAL_OCR_API_KEY e \<noteq> [] \<and> R2_S3_URL e \<noteq> [] \<and> R2_ACCESS_KEY_ID e \<noteq> [] \<and>
         R2_SECRET_ACCESS_KEY e \<noteq> [] \<and> R2_BUCKET_NAME e \<noteq> [] \<and> R2_PUBLIC_URL e \<noteq> []"
proof -
  have none: "find (\<lambda>k. falsy (env_get w k)) env_names = None"
    using assms by (simp add: getEnvs_find split: option.splits)
  then have e: "e = \<lparr>MISTRAL_OCR_API_KEY = the (env_get w (js ''MISTRAL_OCR_API_KEY'')),
               R2_S3_URL = the (env_get w (js ''R2_S3_URL'')),
               R2_ACCESS_KEY_ID = the (env_get w (js ''R2_ACCESS_KEY_ID'')),
               R2_SECRET_ACCESS_KEY = the (env_get w (js ''R2_SECRET_ACCESS_KEY'')),
               R2_BUCKET_NAME = the (env_get w (js ''R2_BUCKET_NAME'')),
               R2_PUBLIC_URL = the (env_get w (js ''R2_PUBLIC_URL''))\<rparr>"
    using assms by (simp add: getEnvs_find)
  from none [unfolded find_env_None] show ?thesis
    unfolding e falsy_iff by auto
qed

lemma getCliArgs_events: "set (snd (getCliArgs w tr)) \<subseteq> set tr \<union> range StatSync"
  unfolding getCliArgs_def
  by (auto split: sum.splits option.splits prod.splits)

lemma main_env_error:
  assumes "getEnvs w = Inl e"
  shows "snd (main w tr) = snd (getCliArgs w tr) \<and> fst (main w tr) \<noteq> Returned (Inr ())"
  using assms unfolding main_def
  by (auto split: sum.splits prod.splits completion.splits)

lemma run_events:
  "set (snd (run w)) \<subseteq> set (snd (main w [])) \<union> range ConsoleError \<union> range Uncaught \<union> {Exit 1}"
  unfolding run_def by (auto split: sum.splits prod.splits completion.splits)

lemma run_code: "fst (run w) = (if fst (main w []) = Returned (Inr ()) then 0 else 1)"
  unfolding run_def by (auto split: sum.splits prod.splits completion.splits)

lemma env_error_run:
  assumes "getEnvs w = Inl e"
  shows "fst (run w) = 1 \<and> list_all (\<lambda>ev. \<not> is_network ev) (snd (run w)) \<and>
         list_all (\<lambda>ev. stage ev = 1) (snd (main w []))"
proof -
  from main_env_error [OF assms, of "[]"]
  have m: "snd (main w []) = snd (getCliArgs w [])" and r: "fst (main w []) \<noteq> Returned (Inr ())"
    by auto
  have s: "set (snd (main w [])) \<subseteq> range StatSync"
    using getCliArgs_events [of w "[]"] m by simp
  have "set (snd (run w)) \<subseteq> range StatSync \<union> range ConsoleError \<union> range Uncaught \<union> {Exit 1}"
    using run_events [of w] s by blast
  then have "\<forall>ev\<in>set (snd (run w)). \<not> is_network ev"
    by auto
  moreover have "\<forall>ev\<in>set (snd (main w [])). stage ev = 1"
    using s by auto
  ultimately show ?thesis
    using r by (simp add: run_code list_all_iff)
qed

text \<open>
  Claim C6. The configuration loader returns either all six values, each as the
  environment gives it (none is defaulted), or a ValidationError that names the first
  variable, in the order of \<open>env_names\<close>, that is unset or empty. In that case the run
  exits with code 1 and its trace holds no network call; this holds in particular when
  \<^verbatim>\<open>MISTRAL_OCR_API_KEY\<close> is the missing one.
\<close>

theorem getEnvs_all_or_first_missing:
  "(case find (\<lambda>k. falsy (env_get w k)) env_names of
      Some k \<Rightarrow>
        getEnvs w = Inl (ValidationError (k @ js '' '' @ ga_mitsukarimasen)) \<and>
        fst (run w) = 1 \<and> list_all (\<lambda>ev. \<not> is_network ev) (snd (run w))
    | None \<Rightarrow>
        (\<exists>e. getEnvs w = Inr e \<and>
           env_get w (js ''MISTRAL_OCR_API_KEY'') = Some (MISTRAL_OCR_API_KEY e) \<and>
           env_get w (js ''R2_S3_URL'') = Some (R2_S3_URL e) \<and>
           env_get w (js ''R2_ACCESS_KEY_ID'') = Some (R2_ACCESS_KEY_ID e) \<and>
           env_get w (js ''R2_SECRET_ACCESS_KEY'') = Some (R2_SECRET_ACCESS_KEY e) \<and>
           env_get w (js ''R2_BUCKET_NAME'') = Some (R2_BUCKET_NAME e) \<and>
           env_get w (js ''R2_PUBLIC_URL'') = Some (R2_PUBLIC_URL e))) \<and>
   (falsy (env_get w (js ''MISTRAL_OCR_API_KEY'')) \<longrightarrow>
      getEnvs w = Inl (ValidationError (js ''MISTRAL_OCR_API_KEY '' @ ga_mitsukarimasen)) \<and>
      fst (run w) = 1 \<and> list_all (\<lambda>ev. \<not> is_network ev) (snd (run w)))"
proof (intro conjI impI)
  show "case find (\<lambda>k. falsy (env_get w k)) env_names of
      Some k \<Rightarrow>
        getEnvs w = Inl (ValidationError (k @ js '' '' @ ga_mitsukarimasen)) \<and>
        fst (run w) = 1 \<and> list_all (\<lambda>ev. \<not> is_network ev) (snd (run w))
    | None \<Rightarrow>
        (\<exists>e. getEnvs w = Inr e \<and>
           env_get w (js ''MISTRAL_OCR_API_KEY'') = Some (MISTRAL_OCR_API_KEY e) \<and>
           env_get w (js ''R2_S3_URL'') = Some (R2_S3_URL e) \<and>
           env_get w (js ''R2_ACCESS_KEY_ID'') = Some (R2_ACCESS_KEY_ID e) \<and>
           env_get w (js ''R2_SECRET_ACCESS_KEY'') = Some (R2_SECRET_ACCESS_KEY e) \<and>
           env_get w (js ''R2_BUCKET_NAME'') = Some (R2_BUCKET_NAME e) \<and>
           env_get w (js ''R2_PUBLIC_URL'') = Some (R2_PUBLIC_URL e))"
  proof (cases "find (\<lambda>k. falsy (env_get w k)) env_names")
    case None
    then obtain e where e: "getEnvs w = Inr e"
      by (simp add: getEnvs_find)
    from getEnvs_Inr [OF e] e None show ?thesis by auto
  next
    case (Some k)
    then have e: "getEnvs w = Inl (ValidationError (k @ js '' '' @ ga_mitsukarimasen))"
      by (simp add: getEnvs_find)
    from env_error_run [OF e] e Some show ?thesis by simp
  qed
next
  assume f: "falsy (env_get w (js ''MISTRAL_OCR_API_KEY''))"
  then have "find (\<lambda>k. falsy (env_get w k)) env_names = Some (js ''MISTRAL_OCR_API_KEY'')"
    by (simp add: env_names_def)
  then have e: "getEnvs w = Inl (ValidationError (js ''MISTRAL_OCR_API_KEY '' @ ga_mitsukarimasen))"
    by (simp add: getEnvs_find env_texts)
  then show "getEnvs w = Inl (ValidationError (js ''MISTRAL_OCR_API_KEY '' @ ga_mitsukarimasen))" .
  from env_error_run [OF e] show "fst (run w) = 1" by simp
  from env_error_run [OF e] show "list_all (\<lambda>ev. \<not> is_network ev) (snd (run w))" by simp
qed

text \<open>The sample world without the OCR key: the loader names it and the run fails.\<close>

theorem getEnvs_all_or_first_missing_witness:
  "falsy (env_get no_key_world (js ''MISTRAL_OCR_API_KEY'')) \<and>
   getEnvs no_key_world = Inl (ValidationError (js ''MISTRAL_OCR_API_KEY '' @ ga_mitsukarimasen)) \<and>
   fst (run no_key_world) = 1 \<and> list_all (\<lambda>ev. \<not> is_network ev) (snd (run no_key_world))"
proof -
  have f: "falsy (env_get no_key_world (js ''MISTRAL_OCR_API_KEY''))"
    by (simp add: no_key_world_def)
  note r = getEnvs_all_or_first_missing [of no_key_world, THEN conjunct2, rule_format, OF f]
  from f r show ?thesis by (rule conjI)
qed

lemma js_nonempty: "js (c # s) \<noteq> []"
  by (simp add: js_def)

lemma find_first:
  "k \<in> set xs \<Longrightarrow> P k \<Longrightarrow> \<forall>j\<in>set (takeWhile (\<lambda>j. j \<noteq> k) xs). \<not> P j \<Longrightarrow> find P xs = Some k"
  by (induction xs) auto

lemma getEnvs_update_eq:
  "getEnvs (w\<lparr>env_get := (env_get w)(k := Some [])\<rparr>) =
   getEnvs (w\<lparr>env_get := (env_get w)(k := None)\<rparr>)"
proof -
  define k1 where "k1 = js ''MISTRAL_OCR_API_KEY''"
  define k2 where "k2 = js ''R2_S3_URL''"
  define k3 where "k3 = js ''R2_ACCESS_KEY_ID''"
  define k4 where "k4 = js ''R2_SECRET_ACCESS_KEY''"
  define k5 where "k5 = js ''R2_BUCKET_NAME''"
  define k6 where "k6 = js ''R2_PUBLIC_URL''"
  define e1 where "e1 = js ''MISTRAL_OCR_API_KEY '' @ ga_mitsukarimasen"
  define e2 where "e2 = js ''R2_S3_URL '' @ ga_mitsukarimasen"
  define e3 where "e3 = js ''R2_ACCESS_KEY_ID '' @ ga_mitsukarimasen"
  define e4 where "e4 = js ''R2_SECRET_ACCESS_KEY '' @ ga_mitsukarimasen"
  define e5 where "e5 = js ''R2_BUCKET_NAME '' @ ga_mitsukarimasen"
  define e6 where "e6 = js ''R2_PUBLIC_URL '' @ ga_mitsukarimasen"
  note ks = k1_def k2_def k3_def k4_def k5_def k6_def e1_def e2_def e3_def e4_def e5_def e6_def
  show ?thesis
    unfolding getEnvs_def
    unfolding ks [symmetric]
    by (simp split: option.split)
qed

text \<open>
  Claim C10. A variable set to the empty string is treated exactly like an unset one:
  the loader's result is the same for both; with a required variable empty the loader
  returns the ValidationError of the first missing variable, which is that variable
  when all before it are present, and \<open>main\<close> performs no effect of a later stage; and a
  successful lookup has no empty value.
\<close>

theorem getEnvs_empty_as_unset:
  "getEnvs (w\<lparr>env_get := (env_get w)(k := Some [])\<rparr>) =
     getEnvs (w\<lparr>env_get := (env_get w)(k := None)\<rparr>) \<and>
   (k \<in> set env_names \<longrightarrow> env_get w k = Some [] \<longrightarrow>
      (\<exists>k'. find (\<lambda>j. falsy (env_get w j)) env_names = Some k' \<and>
            getEnvs w = Inl (ValidationError (k' @ js '' '' @ ga_mitsukarimasen))) \<and>
      ((\<forall>j\<in>set (takeWhile (\<lambda>j. j \<noteq> k) env_names). \<not> falsy (env_get w j)) \<longrightarrow>
         getEnvs w = Inl (ValidationError (k @ js '' '' @ ga_mitsukarimasen))) \<and>
      list_all (\<lambda>ev. stage ev = 1) (snd (main w []))) \<and>
   (\<forall>e. getEnvs w = Inr e \<longrightarrow>
      MISTRAL_OCR_API_KEY e \<noteq> [] \<and> R2_S3_URL e \<noteq> [] \<and> R2_ACCESS_KEY_ID e \<noteq> [] \<and>
      R2_SECRET_ACCESS_KEY e \<noteq> [] \<and> R2_BUCKET_NAME e \<noteq> [] \<and> R2_PUBLIC_URL e \<noteq> [])"
proof -
  have upd: "getEnvs (w\<lparr>env_get := (env_get w)(k := Some [])\<rparr>) =
     getEnvs (w\<lparr>env_get := (env_get w)(k := None)\<rparr>)"
    by (rule getEnvs_update_eq)
  have named: "(\<exists>k'. find (\<lambda>j. falsy (env_get w j)) env_names = Some k' \<and>
            getEnvs w = Inl (ValidationError (k' @ js '' '' @ ga_mitsukarimasen))) \<and>
      ((\<forall>j\<in>set (takeWhile (\<lambda>j. j \<noteq> k) env_names). \<not> falsy (env_get w j)) \<longrightarrow>
         getEnvs w = Inl (ValidationError (k @ js '' '' @ ga_mitsukarimasen))) \<and>
      list_all (\<lambda>ev. stage ev = 1) (snd (main w []))"
    if k: "k \<in> set env_names" and e: "env_get w k = Some []"
  proof -
    have "find (\<lambda>j. falsy (env_get w j)) env_names \<noteq> None"
      using k e by (auto simp: find_None_iff)
    then obtain k' where k': "find (\<lambda>j. falsy (env_get w j)) env_names = Some k'"
      by auto
    then have err: "getEnvs w = Inl (ValidationError (k' @ js '' '' @ ga_mitsukarimasen))"
      by (simp add: getEnvs_find)
    have stages: "list_all (\<lambda>ev. stage ev = 1) (snd (main w []))"
      using env_error_run [OF err] by simp
    have "getEnvs w = Inl (ValidationError (k @ js '' '' @ ga_mitsukarimasen))"
      if first: "\<forall>j\<in>set (takeWhile (\<lambda>j. j \<noteq> k) env_names). \<not> falsy (env_get w j)"
    proof -
      have "find (\<lambda>j. falsy (env_get w j)) env_names = Some k"
        using k e first by (intro find_first) auto
      then show ?thesis by (simp add: getEnvs_find)
    qed
    with k' err stages show ?thesis by blast
  qed
  have nonempty: "MISTRAL_OCR_API_KEY e \<noteq> [] \<and> R2_S3_URL e \<noteq> [] \<and> R2_ACCESS_KEY_ID e \<noteq> [] \<and>
      R2_SECRET_ACCESS_KEY e \<noteq> [] \<and> R2_BUCKET_NAME e \<noteq> [] \<and> R2_PUBLIC_URL e \<noteq> []"
    if "getEnvs w = Inr e" for e
    using getEnvs_Inr [OF that] by simp
  from upd named nonempty show ?thesis by blast
qed

lemma sample_env_key: "sample_env (js ''MISTRAL_OCR_API_KEY'') = Some (js ''mk'')"
  by (simp add: sample_env_def)

lemma env_name_distinct: "js ''MISTRAL_OCR_API_KEY'' \<noteq> js ''R2_S3_URL''"
  by (simp add: js_def)

text \<open>The sample world with an empty \<^verbatim>\<open>R2_S3_URL\<close>.\<close>

theorem getEnvs_empty_as_unset_witness:
  "js ''R2_S3_URL'' \<in> set env_names \<and>
   env_get empty_key_world (js ''R2_S3_URL'') = Some [] \<and>
   getEnvs empty_key_world = Inl (ValidationError (js ''R2_S3_URL'' @ js '' '' @ ga_mitsukarimasen)) \<and>
   list_all (\<lambda>ev. stage ev = 1) (snd (main empty_key_world [])) \<and>
   getEnvs (empty_key_world\<lparr>env_get := (env_get empty_key_world)(js ''R2_S3_URL'' := None)\<rparr>) =
     Inl (ValidationError (js ''R2_S3_URL'' @ js '' '' @ ga_mitsukarimasen))"
proof -
  have k: "js ''R2_S3_URL'' \<in> set env_names"
    by (simp add: env_names_def)
  have e: "env_get empty_key_world (js ''R2_S3_URL'') = Some []"
    by (simp add: empty_key_world_def)
  have tw: "takeWhile (\<lambda>j. j \<noteq> js ''R2_S3_URL'') env_names = [js ''MISTRAL_OCR_API_KEY'']"
    using env_name_distinct by (simp add: env_names_def)
  have first: "\<forall>j\<in>set (takeWhile (\<lambda>j. j \<noteq> js ''R2_S3_URL'') env_names).
      \<not> falsy (env_get empty_key_world j)"
    unfolding tw using env_name_distinct
    by (simp add: empty_key_world_def sample_env_key js_nonempty)
  have idem: "empty_key_world\<lparr>env_get := (env_get empty_key_world)(js ''R2_S3_URL'' := Some [])\<rparr>
      = empty_key_world"
    by (simp add: empty_key_world_def)
  note t = getEnvs_empty_as_unset [of empty_key_world "js ''R2_S3_URL''"]
  note n = t [THEN conjunct2, THEN conjunct1, rule_format, OF k e]
  have named: "getEnvs empty_key_world =
      Inl (ValidationError (js ''R2_S3_URL'' @ js '' '' @ ga_mitsukarimasen))"
    using n [THEN conjunct2, THEN conjunct1] first by (rule mp)
  have stages: "list_all (\<lambda>ev. stage ev = 1) (snd (main empty_key_world []))"
    using n [THEN conjunct2, THEN conjunct2] .
  have unset: "getEnvs (empty_key_world\<lparr>env_get :=
      (env_get empty_key_world)(js ''R2_S3_URL'' := None)\<rparr>) =
     Inl (ValidationError (js ''R2_S3_URL'' @ js '' '' @ ga_mitsukarimasen))"
    using t [THEN conjunct1] named unfolding idem by simp
  from k e named stages unset show ?thesis by (intro conjI)
qed

section \<open>Iterations of the publisher and of the assembler\<close>

text \<open>
  One turn of each loop, and what a whole loop leaves in the trace and returns.
\<close>

lemma upload_loop_skip:
  "\<not> has_inline_bytes img \<Longrightarrow>
   upload_loop w c b pub ymd (img # rest) up tr = upload_loop w c b pub ymd rest up tr"
  by (cases "imageBase64 img") (auto simp: has_inline_bytes_def)

lemma upload_loop_step:
  assumes "has_inline_bytes img"
  shows "upload_loop w c b pub ymd (img # rest) up tr =
     (case decodeBase64 w (cleaned_payload img) of
        Inl cause \<Rightarrow> (Inl cause, tr)
      | Inr body \<Rightarrow>
          (case s3_send w tr c (put_command b ymd img body) of
             Some cause \<Rightarrow> (Inl cause, tr @ [S3Send c (put_command b ymd img body)])
           | None \<Rightarrow>
               upload_loop w c b pub ymd rest (up @ [published pub ymd img])
                 (tr @ [S3Send c (put_command b ymd img body)])))"
proof -
  define k1 where "k1 = js ''paper/''"
  define k2 where "k2 = js ''/''"
  define k3 where "k3 = js ''.png''"
  define k4 where "k4 = js ''image/png''"
  define k5 where "k5 = js ''public-read''"
  note ks = k1_def k2_def k3_def k4_def k5_def
  from assms obtain p where p: "imageBase64 img = Some p" "p \<noteq> []"
    by (cases "imageBase64 img") (auto simp: has_inline_bytes_def)
  show ?thesis
    unfolding upload_loop.simps put_command_def published_def storage_key_def cleaned_payload_def
    unfolding ks [symmetric]
    by (simp add: p Let_def split: sum.split option.split)
qed

declare upload_loop.simps(2) [simp del]

lemma upload_loop_trace:
  "upload_loop w c b pub ymd imgs up tr = (r, tr') \<Longrightarrow>
   \<exists>sent. tr' = tr @ map (\<lambda>(img, body). S3Send c (put_command b ymd img body)) sent \<and>
          prefix (map fst sent) (filter has_inline_bytes imgs) \<and>
          (\<forall>(img, body)\<in>set sent. decodeBase64 w (cleaned_payload img) = Inr body) \<and>
          (\<forall>m. r = Inr m \<longrightarrow>
             map fst sent = filter has_inline_bytes imgs \<and>
             m = up @ map (published pub ymd) (filter has_inline_bytes imgs))"
proof (induction imgs arbitrary: up tr)
  case Nil
  then show ?case by (intro exI [of _ "[]"]) auto
next
  case (Cons img rest)
  show ?case
  proof (cases "has_inline_bytes img")
    case False
    with Cons.prems have "upload_loop w c b pub ymd rest up tr = (r, tr')"
      by (simp add: upload_loop_skip)
    from Cons.IH [OF this] False show ?thesis by simp
  next
    case True
    note step = upload_loop_step [OF True, of w c b pub ymd rest up tr]
    show ?thesis
    proof (cases "decodeBase64 w (cleaned_payload img)")
      case (Inl cause)
      with step Cons.prems have "r = Inl cause" "tr' = tr" by auto
      then show ?thesis by (intro exI [of _ "[]"]) auto
    next
      case (Inr body)
      let ?ev = "S3Send c (put_command b ymd img body)"
      show ?thesis
      proof (cases "s3_send w tr c (put_command b ymd img body)")
        case (Some cause)
        with step Inr Cons.prems have "r = Inl cause" "tr' = tr @ [?ev]" by auto
        then show ?thesis using True Inr
          by (intro exI [of _ "[(img, body)]"]) auto
      next
        case None
        with step Inr Cons.prems
        have "upload_loop w c b pub ymd rest (up @ [published pub ymd img]) (tr @ [?ev]) = (r, tr')"
          by simp
        from Cons.IH [OF this] obtain sent where
          s: "tr' = (tr @ [?ev]) @ map (\<lambda>(img, body). S3Send c (put_command b ymd img body)) sent"
            "prefix (map fst sent) (filter has_inline_bytes rest)"
            "\<forall>(img, body)\<in>set sent. decodeBase64 w (cleaned_payload img) = Inr body"
            "\<forall>m. r = Inr m \<longrightarrow> map fst sent = filter has_inline_bytes rest \<and>
               m = (up @ [published pub ymd img]) @ map (published pub ymd) (filter has_inline_bytes rest)"
          by blast
        show ?thesis using s True Inr
          by (intro exI [of _ "(img, body) # sent"]) auto
      qed
    qed
  qed
qed

lemma image_loop_concat:
  "image_loop images imgs lines = lines @ concat (map (image_reference images) imgs)"
proof (induction imgs arbitrary: lines)
  case Nil
  show ?case by simp
next
  case (Cons img rest)
  define a where "a = js ''!['' @ image_id img"
  define b where "b = js '']('' "
  define c where "c = js '')''"
  show ?case
    unfolding image_loop.simps image_reference_def Cons.IH
    by (simp split: option.split)
qed

lemma page_lines_eq:
  "page_lines images object =
     [js ''# Page '' @ js_of_int (page_index object + 1), [], markdown object, []] @
     concat (map (image_reference images) (page_images object))"
  unfolding page_lines_def image_loop_concat ..

lemma page_lines_nonempty: "page_lines images object \<noteq> []"
  unfolding page_lines_eq by simp

lemma pages_loop_step:
  "pages_loop w images dir (object # rest) combinedLines tr =
     (case writeTextFile w tr (path_join w dir (js ''page-'' @ js_of_int (page_index object + 1) @ js ''.md''))
             (js_join nl (page_lines images object)) of
        Some cause \<Rightarrow> (Inl cause, tr @ [page_write w images dir object])
      | None \<Rightarrow>
          pages_loop w images dir rest (combinedLines @ page_lines images object @ [[]])
            (tr @ [page_write w images dir object]))"
  unfolding pages_loop.simps page_write_def Let_def ..

declare pages_loop.simps(2) [simp del]

lemma pages_loop_trace:
  "pages_loop w images dir objects combinedLines tr = (r, tr') \<Longrightarrow>
   \<exists>n \<le> length objects.
      tr' = tr @ map (page_write w images dir) (take n objects) \<and>
      (\<forall>c. r = Inr c \<longrightarrow>
         n = length objects \<and>
         c = combinedLines @ concat (map (\<lambda>object. page_lines images object @ [[]]) objects)) \<and>
      (\<forall>cause. r = Inl cause \<longrightarrow> (\<exists>t p c. writeTextFile w t p c = Some cause))"
proof (induction objects arbitrary: combinedLines tr)
  case Nil
  then show ?case by auto
next
  case (Cons object rest)
  let ?ev = "page_write w images dir object"
  show ?case
  proof (cases "writeTextFile w tr (path_join w dir (js ''page-'' @ js_of_int (page_index object + 1) @ js ''.md''))
             (js_join nl (page_lines images object))")
    case (Some cause)
    with Cons.prems have "r = Inl cause" "tr' = tr @ [?ev]"
      by (auto simp: pages_loop_step)
    then show ?thesis using Some
      by (intro exI [of _ "1"]) auto
  next
    case None
    with Cons.prems
    have "pages_loop w images dir rest (combinedLines @ page_lines images object @ [[]])
            (tr @ [?ev]) = (r, tr')"
      by (simp add: pages_loop_step)
    from Cons.IH [OF this] obtain n where
      n: "n \<le> length rest" "tr' = (tr @ [?ev]) @ map (page_write w images dir) (take n rest)"
         "\<forall>c. r = Inr c \<longrightarrow> n = length rest \<and>
            c = (combinedLines @ page_lines images object @ [[]]) @
                concat (map (\<lambda>object. page_lines images object @ [[]]) rest)"
         "\<forall>cause. r = Inl cause \<longrightarrow> (\<exists>t p c. writeTextFile w t p c = Some cause)"
      by blast
    then show ?thesis
      by (intro exI [of _ "Suc n"]) auto
  qed
qed

lemma js_join_snoc_empty: "xs \<noteq> [] \<Longrightarrow> js_join sep (xs @ [[]]) = js_join sep xs @ sep"
  by (induction sep xs rule: js_join.induct) auto

lemma js_join_append:
  "xs \<noteq> [] \<Longrightarrow> ys \<noteq> [] \<Longrightarrow> js_join sep (xs @ ys) = js_join sep xs @ sep @ js_join sep ys"
proof (induction sep xs rule: js_join.induct)
  case (2 sep x)
  then show ?case by (cases ys) auto
qed auto

lemma js_join_blocks:
  "\<forall>object \<in> set objects. f object \<noteq> [] \<Longrightarrow> objects \<noteq> [] \<Longrightarrow>
   js_join sep (concat (map (\<lambda>object. f object @ [[]]) objects)) =
   js_join (sep @ sep) (map (\<lambda>object. js_join sep (f object)) objects) @ sep"
proof (induction objects)
  case Nil
  then show ?case by simp
next
  case (Cons object rest)
  show ?case
  proof (cases rest)
    case Nil
    with Cons.prems show ?thesis by (simp add: js_join_snoc_empty)
  next
    case (Cons o2 rest2)
    have ne: "concat (map (\<lambda>object. f object @ [[]]) rest) \<noteq> []"
      using Cons by simp
    have "js_join sep (concat (map (\<lambda>object. f object @ [[]]) (object # rest))) =
          js_join sep (f object @ [[]]) @ sep @ js_join sep (concat (map (\<lambda>object. f object @ [[]]) rest))"
      using js_join_append [of "f object @ [[]]" "concat (map (\<lambda>object. f object @ [[]]) rest)" sep] ne
      by simp
    also have "js_join sep (f object @ [[]]) = js_join sep (f object) @ sep"
      using Cons.prems by (simp add: js_join_snoc_empty)
    also have "js_join sep (concat (map (\<lambda>object. f object @ [[]]) rest)) =
       js_join (sep @ sep) (map (\<lambda>object. js_join sep (f object)) rest) @ sep"
      using Cons.IH Cons.prems Cons by simp
    finally show ?thesis using Cons by simp
  qed
qed

section \<open>The order of the stages\<close>

text \<open>
  \<open>main\<close> ends in one of seven ways: the parser throws, or a stage returns an error, or
  the assembler returns. Every stage adds effects of its own stage only.
\<close>

lemma main_cases [case_names thrown cli env dir ocr upload markdown]:
  obtains
    c t1 where "getCliArgs w [] = (Thrown c, t1)" "main w [] = (Thrown c, t1)"
  | e t1 where "getCliArgs w [] = (Returned (Inl e), t1)" "main w [] = (Returned (Inl e), t1)"
  | a t1 e where "getCliArgs w [] = (Returned (Inr a), t1)" "getEnvs w = Inl e"
      "main w [] = (Returned (Inl e), t1)"
  | a t1 envs e t2 where "getCliArgs w [] = (Returned (Inr a), t1)" "getEnvs w = Inr envs"
      "dirResult w t1 (outDir a) = (Inl e, t2)" "main w [] = (Returned (Inl e), t2)"
  | a t1 envs t2 e t3 where "getCliArgs w [] = (Returned (Inr a), t1)" "getEnvs w = Inr envs"
      "dirResult w t1 (outDir a) = (Inr (), t2)"
      "processOcr w t2 (MISTRAL_OCR_API_KEY envs) (input a) = (Inl e, t3)"
      "main w [] = (Returned (Inl e), t3)"
  | a t1 envs t2 pages t3 e t4 where "getCliArgs w [] = (Returned (Inr a), t1)"
      "getEnvs w = Inr envs" "dirResult w t1 (outDir a) = (Inr (), t2)"
      "processOcr w t2 (MISTRAL_OCR_API_KEY envs) (input a) = (Inr pages, t3)"
      "uploadImages w t3 (R2_BUCKET_NAME envs) (R2_S3_URL envs) (R2_ACCESS_KEY_ID envs)
         (R2_SECRET_ACCESS_KEY envs) (R2_PUBLIC_URL envs) (concat (map page_images pages)) =
       (Inl e, t4)"
      "main w [] = (Returned (Inl e), t4)"
  | a t1 envs t2 pages t3 m t4 r t5 where "getCliArgs w [] = (Returned (Inr a), t1)"
      "getEnvs w = Inr envs" "dirResult w t1 (outDir a) = (Inr (), t2)"
      "processOcr w t2 (MISTRAL_OCR_API_KEY envs) (input a) = (Inr pages, t3)"
      "uploadImages w t3 (R2_BUCKET_NAME envs) (R2_S3_URL envs) (R2_ACCESS_KEY_ID envs)
         (R2_SECRET_ACCESS_KEY envs) (R2_PUBLIC_URL envs) (concat (map page_images pages)) =
       (Inr m, t4)"
      "generateMarkdown w t4 pages m (outDir a) = (r, t5)"
      "main w [] = (Returned r, t5)"
proof -
  obtain r1 t1 where g: "getCliArgs w [] = (r1, t1)" by force
  show thesis
  proof (cases r1)
    case (Thrown c)
    with g that(1) show thesis by (simp add: main_def)
  next
    case (Returned x)
    show thesis
    proof (cases x)
      case (Inl e)
      with g Returned that(2) show thesis by (simp add: main_def)
    next
      case (Inr a)
      note g' = g [unfolded Returned Inr]
      show thesis
      proof (cases "getEnvs w")
        case (Inl e)
        with g' that(3) show thesis by (simp add: main_def)
      next
        case envs: (Inr envs)
        obtain r2 t2 where d: "dirResult w t1 (outDir a) = (r2, t2)" by force
        show thesis
        proof (cases r2)
          case (Inl e)
          with g' envs d that(4) show thesis by (simp add: main_def)
        next
          case (Inr u)
          note d' = d [unfolded Inr]
          obtain r3 t3 where p: "processOcr w t2 (MISTRAL_OCR_API_KEY envs) (input a) = (r3, t3)"
            by force
          show thesis
          proof (cases r3)
            case (Inl e)
            with g' envs d' p that(5) show thesis by (simp add: main_def)
          next
            case pages: (Inr pages)
            note p' = p [unfolded pages]
            obtain r4 t4 where u: "uploadImages w t3 (R2_BUCKET_NAME envs) (R2_S3_URL envs)
                (R2_ACCESS_KEY_ID envs) (R2_SECRET_ACCESS_KEY envs) (R2_PUBLIC_URL envs)
                (concat (map page_images pages)) = (r4, t4)"
              by force
            show thesis
            proof (cases r4)
              case (Inl e)
              with g' envs d' p' u that(6) show thesis by (simp add: main_def)
            next
              case m: (Inr m)
              note u' = u [unfolded m]
              obtain r5 t5 where md: "generateMarkdown w t4 pages m (outDir a) = (r5, t5)"
                by force
              have "main w [] = (Returned r5, t5)"
                using g' envs d' p' u' md by (cases r5) (simp_all add: main_def)
              with g' envs d' p' u' md that(7) show thesis by simp
            qed
          qed
        qed
      qed
    qed
  qed
qed


lemma sorted_same_stage: "\<forall>ev\<in>set ext. stage ev = k \<Longrightarrow> sorted (map stage ext)"
  by (induction ext) auto

lemma in_order_ext:
  assumes "in_order j tr" "j \<le> k" "tr' = tr @ ext" "\<forall>ev\<in>set ext. stage ev = k"
  shows "in_order k tr'"
proof -
  have "sorted (map stage ext)"
    using assms(4) by (rule sorted_same_stage)
  moreover have "\<forall>x\<in>set tr. \<forall>y\<in>set ext. stage x \<le> stage y"
    using assms by (fastforce simp: in_order_def list_all_iff)
  moreover have "\<forall>ev\<in>set tr. stage ev \<le> k"
    using assms by (fastforce simp: in_order_def list_all_iff)
  ultimately show ?thesis
    using assms unfolding in_order_def list_all_iff
    by (auto simp: sorted_append)
qed

lemma in_order_mono: "in_order j tr \<Longrightarrow> j \<le> k \<Longrightarrow> in_order k tr"
  unfolding in_order_def list_all_iff by auto

lemma getCliArgs_ext: "\<exists>ext. snd (getCliArgs w tr) = tr @ ext \<and> (\<forall>ev\<in>set ext. stage ev = 1)"
  unfolding getCliArgs_def
  by (simp split: sum.split option.split prod.split)

lemma dirResult_ext: "snd (dirResult w tr dir) = tr @ [EnsureDir dir]"
  unfolding dirResult_def by (simp split: option.split)

lemma processOcr_ext:
  "\<exists>ext. snd (processOcr w tr apiKey pdfPath) = tr @ ext \<and> (\<forall>ev\<in>set ext. stage ev = 4)"
  unfolding processOcr_def Let_def
  by (simp split: sum.split)

lemma uploadImages_ext:
  "\<exists>ext. snd (uploadImages w tr b s3 kid sec pub images) = tr @ ext \<and> (\<forall>ev\<in>set ext. stage ev = 5)"
proof -
  obtain r tr' where l: "upload_loop w (s3_client_of s3 kid sec) b pub (ymd_of (new_Date w tr))
      images [] (tr @ [NewDate]) = (r, tr')"
    by force
  from upload_loop_trace [OF l] obtain sent where
    "tr' = (tr @ [NewDate]) @
       map (\<lambda>(img, body). S3Send (s3_client_of s3 kid sec)
         (put_command b (ymd_of (new_Date w tr)) img body)) sent"
    by blast
  then have "tr' = tr @ NewDate #
       map (\<lambda>(img, body). S3Send (s3_client_of s3 kid sec)
         (put_command b (ymd_of (new_Date w tr)) img body)) sent"
    by simp
  moreover have "snd (uploadImages w tr b s3 kid sec pub images) = tr'"
    using l unfolding uploadImages_def Let_def s3_client_of_def [symmetric]
    by (simp split: sum.split)
  ultimately show ?thesis
    by (intro exI [of _ "NewDate # map (\<lambda>(img, body). S3Send (s3_client_of s3 kid sec)
         (put_command b (ymd_of (new_Date w tr)) img body)) sent"]) auto
qed

lemma generateMarkdown_ext:
  "\<exists>ext. snd (generateMarkdown w tr objects images dir) = tr @ ext \<and>
         (\<forall>ev\<in>set ext. stage ev = 6)"
proof -
  obtain r tr' where l: "pages_loop w images dir objects [] tr = (r, tr')"
    by force
  from pages_loop_trace [OF l] obtain n where
    n: "tr' = tr @ map (page_write w images dir) (take n objects)"
    by blast
  have st: "\<forall>ev\<in>set (map (page_write w images dir) (take n objects)). stage ev = 6"
    by (simp add: page_write_def)
  show ?thesis
  proof (cases r)
    case (Inl cause)
    with l n have "snd (generateMarkdown w tr objects images dir) =
        tr @ map (page_write w images dir) (take n objects)"
      by (simp add: generateMarkdown_def)
    with st show ?thesis by blast
  next
    case (Inr c)
    with l n have "snd (generateMarkdown w tr objects images dir) =
        tr @ (map (page_write w images dir) (take n objects) @
          [WriteTextFile (path_join w dir (js ''all-pages.md'')) (js_join nl c)])"
      by (simp add: generateMarkdown_def Let_def split: option.split)
    moreover have "\<forall>ev\<in>set (map (page_write w images dir) (take n objects) @
          [WriteTextFile (path_join w dir (js ''all-pages.md'')) (js_join nl c)]). stage ev = 6"
      using st by simp
    ultimately show ?thesis by blast
  qed
qed

lemma in_order_Nil: "in_order k []"
  by (simp add: in_order_def)

lemma in_order_cli: "getCliArgs w [] = (r, t1) \<Longrightarrow> in_order 1 t1"
  using getCliArgs_ext [of w "[]"] in_order_ext [of 1 "[]" 1 t1] in_order_Nil [of 1]
  by auto

lemma in_order_dir: "in_order 1 t1 \<Longrightarrow> dirResult w t1 d = (r, t2) \<Longrightarrow> in_order 3 t2"
  using dirResult_ext [of w t1 d] in_order_ext [of 1 t1 3 t2 "[EnsureDir d]"] by auto

lemma in_order_ocr: "in_order 3 t2 \<Longrightarrow> processOcr w t2 k p = (r, t3) \<Longrightarrow> in_order 4 t3"
  using processOcr_ext [of w t2 k p] in_order_ext [of 3 t2 4 t3] by auto

lemma in_order_upload:
  "in_order 4 t3 \<Longrightarrow> uploadImages w t3 b s3 kid sec pub images = (r, t4) \<Longrightarrow> in_order 5 t4"
  using uploadImages_ext [of w t3 b s3 kid sec pub images] in_order_ext [of 4 t3 5 t4]
  by auto

lemma in_order_markdown:
  "in_order 5 t4 \<Longrightarrow> generateMarkdown w t4 objects images d = (r, t5) \<Longrightarrow> in_order 6 t5"
  using generateMarkdown_ext [of w t4 objects images d] in_order_ext [of 5 t4 6 t5]
  by auto

lemma in_order_main: "in_order 6 (snd (main w []))"
proof (cases w rule: main_cases)
  case (thrown c t1)
  from in_order_cli [OF thrown(1)] have "in_order 6 t1" by (rule in_order_mono) simp
  with thrown show ?thesis by simp
next
  case (cli e t1)
  from in_order_cli [OF cli(1)] have "in_order 6 t1" by (rule in_order_mono) simp
  with cli show ?thesis by simp
next
  case (env a t1 e)
  from in_order_cli [OF env(1)] have "in_order 6 t1" by (rule in_order_mono) simp
  with env show ?thesis by simp
next
  case (dir a t1 envs e t2)
  from in_order_dir [OF in_order_cli [OF dir(1)] dir(3)]
  have "in_order 6 t2" by (rule in_order_mono) simp
  with dir show ?thesis by simp
next
  case (ocr a t1 envs t2 e t3)
  from in_order_ocr [OF in_order_dir [OF in_order_cli [OF ocr(1)] ocr(3)] ocr(4)]
  have "in_order 6 t3" by (rule in_order_mono) simp
  with ocr show ?thesis by simp
next
  case (upload a t1 envs t2 pages t3 e t4)
  from in_order_upload [OF in_order_ocr [OF in_order_dir [OF in_order_cli [OF upload(1)]
    upload(3)] upload(4)] upload(5)]
  have "in_order 6 t4" by (rule in_order_mono) simp
  with upload show ?thesis by simp
next
  case (markdown a t1 envs t2 pages t3 m t4 r t5)
  from in_order_markdown [OF in_order_upload [OF in_order_ocr [OF in_order_dir
    [OF in_order_cli [OF markdown(1)] markdown(3)] markdown(4)] markdown(5)] markdown(6)]
  have "in_order 6 t5" .
  with markdown show ?thesis by simp
qed

lemma in_order_run: "in_order 7 (snd (run w))"
proof -
  obtain r t where m: "main w [] = (r, t)" by force
  with in_order_main [of w] have o: "in_order 6 t" by simp
  have "\<exists>ext. snd (run w) = t @ ext \<and> (\<forall>ev\<in>set ext. stage ev = 7)"
    using m unfolding run_def by (simp split: completion.split sum.split)
  then show ?thesis using o in_order_ext [of 6 t 7] by auto
qed

text \<open>
  Claim C4. The orchestrator runs validate CLI inputs, load configuration, ensure output
  directory, OCR, publish images, assemble Markdown, in this order. When a stage returns
  an error, \<open>main\<close> returns that same error and its trace is the trace at the end of that
  stage: it holds, in order, only effects of the stages up to it (\<open>in_order\<close>), so no
  later stage has run. The entry prints the error and exits with code 1; it ends with
  code 0 exactly when \<open>main\<close> returned success.
\<close>

theorem main_short_circuit:
  "(getCliArgs w [] = (Returned (Inl e), t1) \<longrightarrow>
      main w [] = (Returned (Inl e), t1) \<and> in_order 1 t1) \<and>
   (getCliArgs w [] = (Returned (Inr a), t1) \<and> getEnvs w = Inl e \<longrightarrow>
      main w [] = (Returned (Inl e), t1) \<and> in_order 1 t1) \<and>
   (getCliArgs w [] = (Returned (Inr a), t1) \<and> getEnvs w = Inr envs \<and>
    dirResult w t1 (outDir a) = (Inl e, t2) \<longrightarrow>
      main w [] = (Returned (Inl e), t2) \<and> in_order 3 t2) \<and>
   (getCliArgs w [] = (Returned (Inr a), t1) \<and> getEnvs w = Inr envs \<and>
    dirResult w t1 (outDir a) = (Inr (), t2) \<and>
    processOcr w t2 (MISTRAL_OCR_API_KEY envs) (input a) = (Inl e, t3) \<longrightarrow>
      main w [] = (Returned (Inl e), t3) \<and> in_order 4 t3) \<and>
   (getCliArgs w [] = (Returned (Inr a), t1) \<and> getEnvs w = Inr envs \<and>
    dirResult w t1 (outDir a) = (Inr (), t2) \<and>
    processOcr w t2 (MISTRAL_OCR_API_KEY envs) (input a) = (Inr pages, t3) \<and>
    uploadImages w t3 (R2_BUCKET_NAME envs) (R2_S3_URL envs) (R2_ACCESS_KEY_ID envs)
      (R2_SECRET_ACCESS_KEY envs) (R2_PUBLIC_URL envs) (concat (map page_images pages)) =
      (Inl e, t4) \<longrightarrow>
      main w [] = (Returned (Inl e), t4) \<and> in_order 5 t4) \<and>
   (getCliArgs w [] = (Returned (Inr a), t1) \<and> getEnvs w = Inr envs \<and>
    dirResult w t1 (outDir a) = (Inr (), t2) \<and>
    processOcr w t2 (MISTRAL_OCR_API_KEY envs) (input a) = (Inr pages, t3) \<and>
    uploadImages w t3 (R2_BUCKET_NAME envs) (R2_S3_URL envs) (R2_ACCESS_KEY_ID envs)
      (R2_SECRET_ACCESS_KEY envs) (R2_PUBLIC_URL envs) (concat (map page_images pages)) =
      (Inr m, t4) \<and>
    generateMarkdown w t4 pages m (outDir a) = (r, t5) \<longrightarrow>
      main w [] = (Returned r, t5) \<and> in_order 6 t5) \<and>
   (main w [] = (Returned (Inl e), t) \<longrightarrow> run w = (1, t @ [ConsoleError e, Exit 1])) \<and>
   (main w [] = (Returned (Inr ()), t) \<longrightarrow> run w = (0, t)) \<and>
   (fst (run w) = 0 \<longleftrightarrow> fst (main w []) = Returned (Inr ())) \<and>
   in_order 7 (snd (run w))"
proof -
  have c1: "main w [] = (Returned (Inl e), t1) \<and> in_order 1 t1"
    if "getCliArgs w [] = (Returned (Inl e), t1)"
    using that in_order_cli [OF that] by (simp add: main_def)
  have c2: "main w [] = (Returned (Inl e), t1) \<and> in_order 1 t1"
    if "getCliArgs w [] = (Returned (Inr a), t1)" "getEnvs w = Inl e"
    using that in_order_cli [OF that(1)] by (simp add: main_def)
  have c3: "main w [] = (Returned (Inl e), t2) \<and> in_order 3 t2"
    if "getCliArgs w [] = (Returned (Inr a), t1)" "getEnvs w = Inr envs"
      "dirResult w t1 (outDir a) = (Inl e, t2)"
    using that in_order_dir [OF in_order_cli [OF that(1)] that(3)] by (simp add: main_def)
  have c4: "main w [] = (Returned (Inl e), t3) \<and> in_order 4 t3"
    if "getCliArgs w [] = (Returned (Inr a), t1)" "getEnvs w = Inr envs"
      "dirResult w t1 (outDir a) = (Inr (), t2)"
      "processOcr w t2 (MISTRAL_OCR_API_KEY envs) (input a) = (Inl e, t3)"
    using that in_order_ocr [OF in_order_dir [OF in_order_cli [OF that(1)] that(3)] that(4)]
    by (simp add: main_def)
  have c5: "main w [] = (Returned (Inl e), t4) \<and> in_order 5 t4"
    if "getCliArgs w [] = (Returned (Inr a), t1)" "getEnvs w = Inr envs"
      "dirResult w t1 (outDir a) = (Inr (), t2)"
      "processOcr w t2 (MISTRAL_OCR_API_KEY envs) (input a) = (Inr pages, t3)"
      "uploadImages w t3 (R2_BUCKET_NAME envs) (R2_S3_URL envs) (R2_ACCESS_KEY_ID envs)
        (R2_SECRET_ACCESS_KEY envs) (R2_PUBLIC_URL envs) (concat (map page_images pages)) =
        (Inl e, t4)"
    using that in_order_upload [OF in_order_ocr [OF in_order_dir [OF in_order_cli [OF that(1)]
      that(3)] that(4)] that(5)]
    by (simp add: main_def)
  have c6: "main w [] = (Returned r, t5) \<and> in_order 6 t5"
    if "getCliArgs w [] = (Returned (Inr a), t1)" "getEnvs w = Inr envs"
      "dirResult w t1 (outDir a) = (Inr (), t2)"
      "processOcr w t2 (MISTRAL_OCR_API_KEY envs) (input a) = (Inr pages, t3)"
      "uploadImages w t3 (R2_BUCKET_NAME envs) (R2_S3_URL envs) (R2_ACCESS_KEY_ID envs)
        (R2_SECRET_ACCESS_KEY envs) (R2_PUBLIC_URL envs) (concat (map page_images pages)) =
        (Inr m, t4)"
      "generateMarkdown w t4 pages m (outDir a) = (r, t5)"
    using that in_order_markdown [OF in_order_upload [OF in_order_ocr [OF in_order_dir
      [OF in_order_cli [OF that(1)] that(3)] that(4)] that(5)] that(6)]
    by (cases r) (simp_all add: main_def)
  have r1: "run w = (1, t @ [ConsoleError e, Exit 1])" if "main w [] = (Returned (Inl e), t)"
    using that by (simp add: run_def)
  have r2: "run w = (0, t)" if "main w [] = (Returned (Inr ()), t)"
    using that by (simp add: run_def)
  have r3: "fst (run w) = 0 \<longleftrightarrow> fst (main w []) = Returned (Inr ())"
    by (simp add: run_code)
  have i1: "getCliArgs w [] = (Returned (Inl e), t1) \<longrightarrow>
      main w [] = (Returned (Inl e), t1) \<and> in_order 1 t1"
    using c1 by blast
  have i2: "getCliArgs w [] = (Returned (Inr a), t1) \<and> getEnvs w = Inl e \<longrightarrow>
      main w [] = (Returned (Inl e), t1) \<and> in_order 1 t1"
    using c2 by blast
  have i3: "getCliArgs w [] = (Returned (Inr a), t1) \<and> getEnvs w = Inr envs \<and>
    dirResult w t1 (outDir a) = (Inl e, t2) \<longrightarrow>
      main w [] = (Returned (Inl e), t2) \<and> in_order 3 t2"
    using c3 by blast
  have i4: "getCliArgs w [] = (Returned (Inr a), t1) \<and> getEnvs w = Inr envs \<and>
    dirResult w t1 (outDir a) = (Inr (), t2) \<and>
    processOcr w t2 (MISTRAL_OCR_API_KEY envs) (input a) = (Inl e, t3) \<longrightarrow>
      main w [] = (Returned (Inl e), t3) \<and> in_order 4 t3"
    using c4 by blast
  have i5: "getCliArgs w [] = (Returned (Inr a), t1) \<and> getEnvs w = Inr envs \<and>
    dirResult w t1 (outDir a) = (Inr (), t2) \<and>
    processOcr w t2 (MISTRAL_OCR_API_KEY envs) (input a) = (Inr pages, t3) \<and>
    uploadImages w t3 (R2_BUCKET_NAME envs) (R2_S3_URL envs) (R2_ACCESS_KEY_ID envs)
      (R2_SECRET_ACCESS_KEY envs) (R2_PUBLIC_URL envs) (concat (map page_images pages)) =
      (Inl e, t4) \<longrightarrow>
      main w [] = (Returned (Inl e), t4) \<and> in_order 5 t4"
    using c5 by blast
  have i6: "getCliArgs w [] = (Returned (Inr a), t1) \<and> getEnvs w = Inr envs \<and>
    dirResult w t1 (outDir a) = (Inr (), t2) \<and>
    processOcr w t2 (MISTRAL_OCR_API_KEY envs) (input a) = (Inr pages, t3) \<and>
    uploadImages w t3 (R2_BUCKET_NAME envs) (R2_S3_URL envs) (R2_ACCESS_KEY_ID envs)
      (R2_SECRET_ACCESS_KEY envs) (R2_PUBLIC_URL envs) (concat (map page_images pages)) =
      (Inr m, t4) \<and>
    generateMarkdown w t4 pages m (outDir a) = (r, t5) \<longrightarrow>
      main w [] = (Returned r, t5) \<and> in_order 6 t5"
    using c6 by blast
  have i7: "main w [] = (Returned (Inl e), t) \<longrightarrow> run w = (1, t @ [ConsoleError e, Exit 1])"
    using r1 by blast
  have i8: "main w [] = (Returned (Inr ()), t) \<longrightarrow> run w = (0, t)"
    using r2 by blast
  from i1 i2 i3 i4 i5 i6 i7 i8 r3 in_order_run [of w] show ?thesis
    by (intro conjI)
qed

section \<open>Validation of the command line\<close>

lemma js_eq_iff: "js a = js b \<longleftrightarrow> a = b"
  unfolding js_def by (rule inj_map_eq_map) (simp add: inj_on_def)

lemma main_cli_stop:
  "getCliArgs w [] = (Returned (Inl e), t) \<Longrightarrow> main w [] = (Returned (Inl e), t)"
  "getCliArgs w [] = (Thrown c, t) \<Longrightarrow> main w [] = (Thrown c, t)"
  by (simp_all add: main_def)

text \<open>
  Claim C9, as amended. When the parser returns the option values: a missing or empty
  \<^verbatim>\<open>input\<close>, a missing or empty \<^verbatim>\<open>outDir\<close>, an input path that cannot be
  stat'ed or is not a regular file, and an output path that cannot be stat'ed or is not a
  directory each make \<open>main\<close> return the ValidationError that names the condition, after
  stat calls only. When the parser throws (as it does for a positional argument, which
  \<^verbatim>\<open>allowPositionals: false\<close> forbids), \<open>main\<close> throws the same value: no
  ValidationError is made of it. The run ends with code 1, again with no network call.
\<close>

theorem getCliArgs_validation:
  "(parseArgs w (deno_args w) = Inl thrown \<longrightarrow>
      main w [] = (Thrown thrown, []) \<and> run w = (1, [Uncaught thrown])) \<and>
   (parseArgs w (deno_args w) = Inr (inp, out) \<and> falsy inp \<longrightarrow>
      main w [] =
        (Returned (Inl (ValidationError (js ''args.input '' @ ga_mitsukarimasen))), [])) \<and>
   (parseArgs w (deno_args w) = Inr (inp, out) \<and> \<not> falsy inp \<and> falsy out \<longrightarrow>
      main w [] =
        (Returned (Inl (ValidationError (js ''args.outDir '' @ ga_mitsukarimasen))), [])) \<and>
   (parseArgs w (deno_args w) = Inr (Some i, Some d) \<and> i \<noteq> [] \<and> d \<noteq> [] \<and>
    statSync w [] i = None \<longrightarrow>
      main w [] =
        (Returned (Inl (ValidationError (js ''args.input '' @ ga_sonzai_shimasen))),
         [StatSync i])) \<and>
   (parseArgs w (deno_args w) = Inr (Some i, Some d) \<and> i \<noteq> [] \<and> d \<noteq> [] \<and>
    statSync w [] i = Some statIn \<and> \<not> isFile statIn \<longrightarrow>
      main w [] =
        (Returned (Inl (ValidationError (js ''args.input '' @ wa_file_dewa_arimasen))),
         [StatSync i])) \<and>
   (parseArgs w (deno_args w) = Inr (Some i, Some d) \<and> i \<noteq> [] \<and> d \<noteq> [] \<and>
    statSync w [] i = Some statIn \<and> isFile statIn \<and> statSync w [StatSync i] d = None \<longrightarrow>
      main w [] =
        (Returned (Inl (ValidationError (js ''args.outDir '' @ ga_sonzai_shimasen))),
         [StatSync i, StatSync d])) \<and>
   (parseArgs w (deno_args w) = Inr (Some i, Some d) \<and> i \<noteq> [] \<and> d \<noteq> [] \<and>
    statSync w [] i = Some statIn \<and> isFile statIn \<and>
    statSync w [StatSync i] d = Some statOut \<and> \<not> isDirectory statOut \<longrightarrow>
      main w [] =
        (Returned (Inl (ValidationError (js ''args.outDir '' @ wa_directory_dewa_arimasen))),
         [StatSync i, StatSync d])) \<and>
   (parseArgs w (deno_args w) = Inr (Some i, Some d) \<and> i \<noteq> [] \<and> d \<noteq> [] \<and>
    statSync w [] i = Some statIn \<and> isFile statIn \<and>
    statSync w [StatSync i] d = Some statOut \<and> isDirectory statOut \<longrightarrow>
      getCliArgs w [] =
        (Returned (Inr \<lparr>input = i, outDir = d\<rparr>), [StatSync i, StatSync d]))"
proof -
  define m1 where "m1 = js ''args.input '' @ ga_mitsukarimasen"
  define m2 where "m2 = js ''args.outDir '' @ ga_mitsukarimasen"
  define m3 where "m3 = js ''args.input '' @ ga_sonzai_shimasen"
  define m4 where "m4 = js ''args.input '' @ wa_file_dewa_arimasen"
  define m5 where "m5 = js ''args.outDir '' @ ga_sonzai_shimasen"
  define m6 where "m6 = js ''args.outDir '' @ wa_directory_dewa_arimasen"
  note ms = m1_def m2_def m3_def m4_def m5_def m6_def
  note g = getCliArgs_def [of w "[]", folded ms]
  have t: "main w [] = (Thrown thrown, []) \<and> run w = (1, [Uncaught thrown])"
    if "parseArgs w (deno_args w) = Inl thrown"
  proof -
    have "getCliArgs w [] = (Thrown thrown, [])" using that by (simp add: g)
    then have "main w [] = (Thrown thrown, [])" by (rule main_cli_stop)
    then show ?thesis by (simp add: run_def)
  qed
  have a: "main w [] = (Returned (Inl (ValidationError m1)), [])"
    if "parseArgs w (deno_args w) = Inr (inp, out)" "falsy inp"
  proof -
    have "getCliArgs w [] = (Returned (Inl (ValidationError m1)), [])"
      using that by (cases inp) (simp_all add: g)
    then show ?thesis by (rule main_cli_stop)
  qed
  have b: "main w [] = (Returned (Inl (ValidationError m2)), [])"
    if "parseArgs w (deno_args w) = Inr (inp, out)" "\<not> falsy inp" "falsy out"
  proof -
    have "getCliArgs w [] = (Returned (Inl (ValidationError m2)), [])"
      using that by (cases inp; cases out) (simp_all add: g)
    then show ?thesis by (rule main_cli_stop)
  qed
  have c: "main w [] = (Returned (Inl (ValidationError m3)), [StatSync i])"
    if "parseArgs w (deno_args w) = Inr (Some i, Some d)" "i \<noteq> []" "d \<noteq> []"
      "statSync w [] i = None"
  proof -
    have "getCliArgs w [] = (Returned (Inl (ValidationError m3)), [StatSync i])"
      using that by (simp add: g)
    then show ?thesis by (rule main_cli_stop)
  qed
  have d: "main w [] = (Returned (Inl (ValidationError m4)), [StatSync i])"
    if "parseArgs w (deno_args w) = Inr (Some i, Some d)" "i \<noteq> []" "d \<noteq> []"
      "statSync w [] i = Some statIn" "\<not> isFile statIn"
  proof -
    have "getCliArgs w [] = (Returned (Inl (ValidationError m4)), [StatSync i])"
      using that by (simp add: g)
    then show ?thesis by (rule main_cli_stop)
  qed
  have e: "main w [] = (Returned (Inl (ValidationError m5)), [StatSync i, StatSync d])"
    if "parseArgs w (deno_args w) = Inr (Some i, Some d)" "i \<noteq> []" "d \<noteq> []"
      "statSync w [] i = Some statIn" "isFile statIn" "statSync w [StatSync i] d = None"
  proof -
    have "getCliArgs w [] = (Returned (Inl (ValidationError m5)), [StatSync i, StatSync d])"
      using that by (simp add: g)
    then show ?thesis by (rule main_cli_stop)
  qed
  have f: "main w [] = (Returned (Inl (ValidationError m6)), [StatSync i, StatSync d])"
    if "parseArgs w (deno_args w) = Inr (Some i, Some d)" "i \<noteq> []" "d \<noteq> []"
      "statSync w [] i = Some statIn" "isFile statIn"
      "statSync w [StatSync i] d = Some statOut" "\<not> isDirectory statOut"
  proof -
    have "getCliArgs w [] = (Returned (Inl (ValidationError m6)), [StatSync i, StatSync d])"
      using that by (simp add: g)
    then show ?thesis by (rule main_cli_stop)
  qed
  have h: "getCliArgs w [] = (Returned (Inr \<lparr>input = i, outDir = d\<rparr>), [StatSync i, StatSync d])"
    if "parseArgs w (deno_args w) = Inr (Some i, Some d)" "i \<noteq> []" "d \<noteq> []"
      "statSync w [] i = Some statIn" "isFile statIn"
      "statSync w [StatSync i] d = Some statOut" "isDirectory statOut"
    using that by (simp add: g)
  show ?thesis
    unfolding ms [symmetric]
    using t a b c d e f h by (intro conjI impI; (elim conjE)?; blast)
qed

section \<open>The sample run, stage by stage\<close>

text \<open>
  Each stage is evaluated for every world that agrees with the sample world on what the
  stage asks of it, so the variants need no evaluation of their own.
\<close>

lemma sample_getCliArgs:
  assumes "deno_args w = [js ''--input'', js ''in.pdf'', js ''--outDir'', js ''out'']"
    and "parseArgs w = sample_parseArgs" and "statSync w = statSync sample_world"
  shows "getCliArgs w [] =
    (Returned (Inr \<lparr>input = js ''in.pdf'', outDir = js ''out''\<rparr>),
     [StatSync (js ''in.pdf''), StatSync (js ''out'')])"
  unfolding getCliArgs_def assms
  by (simp add: sample_parseArgs_def sample_world_def js_eq_iff js_nonempty)

lemma sample_getEnvs:
  assumes "env_get w = sample_env"
  shows "getEnvs w =
    Inr \<lparr>MISTRAL_OCR_API_KEY = js ''mk'', R2_S3_URL = js ''https://s3'',
         R2_ACCESS_KEY_ID = js ''id'', R2_SECRET_ACCESS_KEY = js ''secret'',
         R2_BUCKET_NAME = js ''bucket'', R2_PUBLIC_URL = js ''https://pub''\<rparr>"
  unfolding getEnvs_def assms
  by (simp add: sample_env_def js_eq_iff js_nonempty)

lemma sample_dirResult:
  assumes "ensureDir w = ensureDir sample_world"
  shows "dirResult w tr dir = (Inr (), tr @ [EnsureDir dir])"
  unfolding dirResult_def assms by (simp add: sample_world_def)

lemma sample_processOcr:
  assumes "readFile w = readFile sample_world" "basename w = basename sample_world"
    "files_upload w = files_upload sample_world"
    "files_getSignedUrl w = files_getSignedUrl sample_world"
  shows "processOcr w tr apiKey pdfPath =
    (case ocr_process w (tr @ butlast (sample_ocr_trace apiKey pdfPath)) apiKey
            \<lparr>model = js ''mistral-ocr-latest'', documentUrl = js ''https://signed'',
             includeImageBase64 = True\<rparr> of
       Inl cause \<Rightarrow> (Inl (SystemError ocr_failed), tr @ sample_ocr_trace apiKey pdfPath)
     | Inr pages \<Rightarrow> (Inr pages, tr @ sample_ocr_trace apiKey pdfPath))"
proof -
  define k1 where "k1 = js ''mistral-ocr-latest''"
  define k2 where "k2 = js ''https://signed''"
  define k3 where "k3 = js ''file-1''"
  show ?thesis
    unfolding processOcr_def assms sample_ocr_trace_def
    unfolding k1_def [symmetric] k2_def [symmetric] k3_def [symmetric]
    by (simp add: sample_world_def k1_def [symmetric] k2_def [symmetric] k3_def [symmetric]
        Let_def split: sum.split)
qed

text \<open>
  Claim C9 as stated fails: with one positional argument after the two flags the parser
  throws, and \<open>main\<close> throws too instead of returning a ValidationError.
\<close>

theorem positional_argument_not_validation_error:
  "main extra_argument_world [] = (Thrown (js ''TypeError: Unexpected argument''), []) \<and>
   (\<nexists>m. fst (main extra_argument_world []) = Returned (Inl (ValidationError m)))"
proof -
  have "parseArgs extra_argument_world (deno_args extra_argument_world) =
      Inl (js ''TypeError: Unexpected argument'')"
    by (simp add: extra_argument_world_def sample_world_def sample_parseArgs_def)
  then have "getCliArgs extra_argument_world [] =
      (Thrown (js ''TypeError: Unexpected argument''), [])"
    by (simp add: getCliArgs_def)
  then have "main extra_argument_world [] = (Thrown (js ''TypeError: Unexpected argument''), [])"
    by (rule main_cli_stop)
  then show ?thesis by simp
qed

text \<open>
  No \<^verbatim>\<open>--input\<close> flag; a directory given as input; a positional argument.
\<close>

theorem getCliArgs_validation_witness:
  "main no_input_world [] =
     (Returned (Inl (ValidationError (js ''args.input '' @ ga_mitsukarimasen))), []) \<and>
   main input_is_directory_world [] =
     (Returned (Inl (ValidationError (js ''args.input '' @ wa_file_dewa_arimasen))),
      [StatSync (js ''out'')]) \<and>
   run extra_argument_world = (1, [Uncaught (js ''TypeError: Unexpected argument'')])"
proof -
  have p1: "parseArgs no_input_world (deno_args no_input_world) = Inr (None, Some (js ''out''))"
    by (simp add: no_input_world_def sample_world_def sample_parseArgs_def js_eq_iff)
  have p2: "parseArgs input_is_directory_world (deno_args input_is_directory_world) =
      Inr (Some (js ''out''), Some (js ''out''))"
    by (simp add: input_is_directory_world_def sample_world_def sample_parseArgs_def)
  have s2: "statSync input_is_directory_world [] (js ''out'') =
      Some \<lparr>isFile = False, isDirectory = True\<rparr>"
    by (simp add: input_is_directory_world_def sample_world_def js_eq_iff)
  have p3: "parseArgs extra_argument_world (deno_args extra_argument_world) =
      Inl (js ''TypeError: Unexpected argument'')"
    by (simp add: extra_argument_world_def sample_world_def sample_parseArgs_def)
  note t1 = getCliArgs_validation [of no_input_world _ None "Some (js ''out'')"]
  note t2 = getCliArgs_validation [of input_is_directory_world _ _ _ "js ''out''" "js ''out''"
      "\<lparr>isFile = False, isDirectory = True\<rparr>"]
  note t3 = getCliArgs_validation [of extra_argument_world "js ''TypeError: Unexpected argument''"]
  have a: "main no_input_world [] =
     (Returned (Inl (ValidationError (js ''args.input '' @ ga_mitsukarimasen))), [])"
    using t1 p1 by simp
  have b: "main input_is_directory_world [] =
     (Returned (Inl (ValidationError (js ''args.input '' @ wa_file_dewa_arimasen))),
      [StatSync (js ''out'')])"
    using t2 p2 s2 by (simp add: js_nonempty)
  have c: "run extra_argument_world = (1, [Uncaught (js ''TypeError: Unexpected argument'')])"
    using t3 p3 by simp
  from a b c show ?thesis by (intro conjI)
qed

lemma strip_lit_append: "strip_lit p (p @ s) = Some s"
  by (induction p) auto

lemma semicolon_not_word: "\<not> is_word 59"
  by (simp add: is_word_def)

lemma js_base64_marker: "js '';base64,'' = 59 # js ''base64,''"
  by (simp add: js_def)

lemma strip_data_uri_prefix:
  assumes "t \<noteq> []" "\<forall>c\<in>set t. is_word c"
  shows "strip_data_uri (js ''data:image/'' @ t @ js '';base64,'' @ b) = b"
proof -
  have tw: "takeWhile is_word (t @ js '';base64,'' @ b) = t"
    using assms(2) by (simp add: js_base64_marker semicolon_not_word takeWhile_append2)
  have dw: "dropWhile is_word (t @ js '';base64,'' @ b) = js '';base64,'' @ b"
    using assms(2) by (simp add: js_base64_marker semicolon_not_word dropWhile_append2)
  show ?thesis
    unfolding strip_data_uri_def
    by (simp add: strip_lit_append tw dw assms(1))
qed

lemma remove_spaces_id: "\<forall>c\<in>set s. \<not> is_space c \<Longrightarrow> remove_spaces s = s"
  by (simp add: remove_spaces_def)

lemma sample_cleaned: "cleaned_payload sample_image = js ''QUJD''"
proof -
  have "js ''data:image/png;base64,QUJD'' =
      js ''data:image/'' @ js ''png'' @ js '';base64,'' @ js ''QUJD''"
    by (simp add: js_append [symmetric])
  moreover have "\<forall>c\<in>set (js ''png''). is_word c"
    by (simp add: js_def is_word_def)
  moreover have "\<forall>c\<in>set (js ''QUJD''). \<not> is_space c"
    by (simp add: js_def is_space_def)
  ultimately show ?thesis
    by (simp add: cleaned_payload_def sample_image_def strip_data_uri_prefix js_nonempty
        remove_spaces_id)
qed

lemma sample_ymd: "ymd_of \<lparr>fullYear = 2025, month = 0, day_of_month = 8\<rparr> = js ''2025-01-08''"
  by (simp add: ymd_of_def padStart2_def js_of_int_def digits_of.simps js_def)

lemma sample_key: "storage_key (js ''2025-01-08'') (js ''img-1'') = js ''paper/2025-01-08/img-1.png''"
  by (simp add: storage_key_def js_append [symmetric])

lemma sample_has_bytes: "has_inline_bytes sample_image" "\<not> has_inline_bytes bare_image"
  by (simp_all add: has_inline_bytes_def sample_image_def bare_image_def js_nonempty)

lemma sample_put_command:
  "put_command (js ''bucket'') (js ''2025-01-08'') sample_image [65, 66, 67] = sample_put"
  by (simp add: put_command_def sample_put_def sample_key sample_image_def)

lemma sample_published: "[published (js ''https://pub'') (js ''2025-01-08'') sample_image] = sample_map"
  by (simp add: published_def sample_map_def sample_key sample_image_def js_append [symmetric])

lemma uploadImages_loop:
  "uploadImages w tr b s3 kid sec pub images =
     (case upload_loop w (s3_client_of s3 kid sec) b pub (ymd_of (new_Date w tr)) images []
             (tr @ [NewDate]) of
        (Inl cause, tr') \<Rightarrow> (Inl (SystemError (upload_failed @ cause)), tr')
      | (Inr uploaded, tr') \<Rightarrow> (Inr uploaded, tr'))"
  unfolding uploadImages_def Let_def s3_client_of_def ..

lemma sample_uploadImages:
  assumes "decodeBase64 w = decodeBase64 sample_world" "new_Date w = new_Date sample_world"
    and "length tr = 7"
  shows "uploadImages w tr (js ''bucket'') (js ''https://s3'') (js ''id'') (js ''secret'')
      (js ''https://pub'') [sample_image, bare_image] =
    (case s3_send w (tr @ [NewDate]) sample_client sample_put of
       Some cause \<Rightarrow>
         (Inl (SystemError (upload_failed @ cause)), tr @ [NewDate, S3Send sample_client sample_put])
     | None \<Rightarrow> (Inr sample_map, tr @ [NewDate, S3Send sample_client sample_put]))"
proof -
  have d: "decodeBase64 w (cleaned_payload sample_image) = Inr [65, 66, 67]"
    unfolding assms sample_cleaned by (simp add: sample_world_def)
  have y: "ymd_of (new_Date w tr) = js ''2025-01-08''"
    unfolding assms(2) using assms(3) by (simp add: sample_world_def sample_ymd)
  show ?thesis
    unfolding uploadImages_loop y sample_client_def [symmetric]
    by (simp add: upload_loop_step [OF sample_has_bytes(1)] upload_loop_skip [OF sample_has_bytes(2)]
        d sample_put_command sample_published split: option.split)
qed

lemma js_of_int_small: "js_of_int 1 = js ''1''" "js_of_int 2 = js ''2''"
  by (simp_all add: js_of_int_def digits_of.simps js_def)

lemma sample_page_lines:
  "page_lines sample_map sample_page1 =
     [js ''# Page 1'', [], js ''Hello'', [],
      js ''![img-1](https://pub/paper/2025-01-08/img-1.png)'', []]"
  "page_lines sample_map sample_page2 = [js ''# Page 2'', [], js ''World'', []]"
  by (simp_all add: page_lines_def sample_page1_def sample_page2_def sample_map_def
      sample_image_def bare_image_def js_of_int_small js_eq_iff js_append [symmetric])

lemma sample_page_files:
  "js ''page-'' @ js_of_int (page_index sample_page1 + 1) @ js ''.md'' = js ''page-1.md''"
  "js ''page-'' @ js_of_int (page_index sample_page2 + 1) @ js ''.md'' = js ''page-2.md''"
  by (simp_all add: sample_page1_def sample_page2_def js_of_int_small js_append [symmetric])

lemma sample_page_writes:
  assumes "path_join w = path_join sample_world"
  shows "page_write w sample_map (js ''out'') sample_page1 =
           WriteTextFile (js ''out/page-1.md'') sample_page1_text"
    and "page_write w sample_map (js ''out'') sample_page2 =
           WriteTextFile (js ''out/page-2.md'') sample_page2_text"
  unfolding page_write_def assms sample_page_lines sample_page_files
  by (simp_all add: sample_world_def sample_page1_text_def sample_page2_text_def
      js_append [symmetric])

lemma sample_generateMarkdown:
  assumes "path_join w = path_join sample_world" "writeTextFile w = writeTextFile sample_world"
  shows "generateMarkdown w tr sample_pages sample_map (js ''out'') =
    (Inr (), tr @ [WriteTextFile (js ''out/page-1.md'') sample_page1_text,
                   WriteTextFile (js ''out/page-2.md'') sample_page2_text,
                   WriteTextFile (js ''out/all-pages.md'') sample_all_text])"
proof -
  have wr: "writeTextFile w t p c = None" for t p c
    unfolding assms by (simp add: sample_world_def)
  have loop: "pages_loop w sample_map (js ''out'') sample_pages [] tr =
      (Inr (page_lines sample_map sample_page1 @ [] #
            page_lines sample_map sample_page2 @ [[]]),
       tr @ [WriteTextFile (js ''out/page-1.md'') sample_page1_text,
             WriteTextFile (js ''out/page-2.md'') sample_page2_text])"
    unfolding sample_pages_def
    by (simp add: pages_loop_step wr sample_page_writes [OF assms(1)])
  have all_path: "path_join w (js ''out'') (js ''all-pages.md'') = js ''out/all-pages.md''"
    unfolding assms by (simp add: sample_world_def js_append [symmetric])
  have all_text: "js_join nl (page_lines sample_map sample_page1 @ [] #
            page_lines sample_map sample_page2 @ [[]]) = sample_all_text"
    by (simp add: sample_page_lines sample_all_text_def sample_page1_text_def
        sample_page2_text_def)
  show ?thesis
    unfolding generateMarkdown_def loop
    by (simp add: wr all_path all_text)
qed

lemma sample_main_until_ocr:
  assumes "deno_args w = deno_args sample_world" "parseArgs w = parseArgs sample_world"
    "statSync w = statSync sample_world" "env_get w = env_get sample_world"
    "ensureDir w = ensureDir sample_world" "readFile w = readFile sample_world"
    "basename w = basename sample_world" "files_upload w = files_upload sample_world"
    "files_getSignedUrl w = files_getSignedUrl sample_world"
  shows "main w [] =
    (case ocr_process w (butlast sample_prefix_trace) (js ''mk'')
            \<lparr>model = js ''mistral-ocr-latest'', documentUrl = js ''https://signed'',
             includeImageBase64 = True\<rparr> of
       Inl cause \<Rightarrow> (Returned (Inl (SystemError ocr_failed)), sample_prefix_trace)
     | Inr pages \<Rightarrow>
         (case uploadImages w sample_prefix_trace (js ''bucket'') (js ''https://s3'') (js ''id'')
                 (js ''secret'') (js ''https://pub'') (concat (map page_images pages)) of
            (Inl e, t4) \<Rightarrow> (Returned (Inl e), t4)
          | (Inr m, t4) \<Rightarrow>
              (case generateMarkdown w t4 pages m (js ''out'') of
                 (Inl e, t5) \<Rightarrow> (Returned (Inl e), t5)
               | (Inr u, t5) \<Rightarrow> (Returned (Inr ()), t5))))"
proof -
  have c: "getCliArgs w [] =
      (Returned (Inr \<lparr>input = js ''in.pdf'', outDir = js ''out''\<rparr>),
       [StatSync (js ''in.pdf''), StatSync (js ''out'')])"
    by (rule sample_getCliArgs) (simp_all add: assms sample_world_def)
  have e: "getEnvs w =
      Inr \<lparr>MISTRAL_OCR_API_KEY = js ''mk'', R2_S3_URL = js ''https://s3'',
         R2_ACCESS_KEY_ID = js ''id'', R2_SECRET_ACCESS_KEY = js ''secret'',
         R2_BUCKET_NAME = js ''bucket'', R2_PUBLIC_URL = js ''https://pub''\<rparr>"
    by (rule sample_getEnvs) (simp add: assms sample_world_def)
  have d: "dirResult w tr dir = (Inr (), tr @ [EnsureDir dir])" for tr dir
    by (rule sample_dirResult) (simp add: assms)
  note o = sample_processOcr [OF assms(6-9)]
  have bl: "butlast sample_prefix_trace =
      [StatSync (js ''in.pdf''), StatSync (js ''out''), EnsureDir (js ''out'')] @
      butlast (sample_ocr_trace (js ''mk'') (js ''in.pdf''))"
    by (simp add: sample_prefix_trace_def sample_ocr_trace_def)
  show ?thesis
    unfolding main_def c bl
    by (simp add: e d o sample_prefix_trace_def split: sum.split prod.split)
qed

lemma sample_prefix_length: "length sample_prefix_trace = 7"
  by (simp add: sample_prefix_trace_def sample_ocr_trace_def)

lemma sample_images: "concat (map page_images sample_pages) = [sample_image, bare_image]"
  by (simp add: sample_pages_def sample_page1_def sample_page2_def)

lemma sample_run_trace_eq:
  "sample_run_trace =
     sample_prefix_trace @
     [NewDate, S3Send sample_client sample_put,
      WriteTextFile (js ''out/page-1.md'') sample_page1_text,
      WriteTextFile (js ''out/page-2.md'') sample_page2_text,
      WriteTextFile (js ''out/all-pages.md'') sample_all_text]"
  by (simp add: sample_run_trace_def sample_prefix_trace_def)

lemma sample_ocr_process: "ocr_process sample_world tr k r = Inr sample_pages"
  by (simp add: sample_world_def)

lemma sample_main: "main sample_world [] = (Returned (Inr ()), sample_run_trace)"
proof -
  have u: "uploadImages sample_world sample_prefix_trace (js ''bucket'') (js ''https://s3'')
      (js ''id'') (js ''secret'') (js ''https://pub'') [sample_image, bare_image] =
      (Inr sample_map, sample_prefix_trace @ [NewDate, S3Send sample_client sample_put])"
    by (subst sample_uploadImages [OF _ _ sample_prefix_length]) (simp_all add: sample_world_def)
  have g: "generateMarkdown sample_world tr sample_pages sample_map (js ''out'') =
    (Inr (), tr @ [WriteTextFile (js ''out/page-1.md'') sample_page1_text,
                   WriteTextFile (js ''out/page-2.md'') sample_page2_text,
                   WriteTextFile (js ''out/all-pages.md'') sample_all_text])" for tr
    by (rule sample_generateMarkdown) simp_all
  show ?thesis
    by (subst sample_main_until_ocr)
       (simp_all add: sample_ocr_process sample_images u g sample_run_trace_eq)
qed

section \<open>The errors of the stages\<close>

lemma upload_loop_append:
  "upload_loop w c b pub ymd (pre @ rest) up tr =
     (case upload_loop w c b pub ymd pre up tr of
        (Inl cause, t) \<Rightarrow> (Inl cause, t)
      | (Inr up1, t1) \<Rightarrow> upload_loop w c b pub ymd rest up1 t1)"
proof (induction pre arbitrary: up tr)
  case Nil
  show ?case by simp
next
  case (Cons img pre)
  show ?case
  proof (cases "has_inline_bytes img")
    case False
    then show ?thesis by (simp add: upload_loop_skip Cons.IH)
  next
    case True
    then show ?thesis
      by (simp add: upload_loop_step Cons.IH split: sum.split option.split)
  qed
qed

lemma upload_loop_failure:
  "upload_loop w c b pub ymd imgs up tr = (Inl cause, tr') \<Longrightarrow>
   \<exists>pre img post up1 tr1.
     imgs = pre @ img # post \<and> has_inline_bytes img \<and>
     upload_loop w c b pub ymd pre up tr = (Inr up1, tr1) \<and>
     (decodeBase64 w (cleaned_payload img) = Inl cause \<and> tr' = tr1 \<or>
      (\<exists>body. decodeBase64 w (cleaned_payload img) = Inr body \<and>
         s3_send w tr1 c (put_command b ymd img body) = Some cause \<and>
         tr' = tr1 @ [S3Send c (put_command b ymd img body)]))"
proof (induction imgs arbitrary: up tr)
  case Nil
  then show ?case by simp
next
  case (Cons img rest)
  show ?case
  proof (cases "has_inline_bytes img")
    case False
    with Cons.prems have "upload_loop w c b pub ymd rest up tr = (Inl cause, tr')"
      by (simp add: upload_loop_skip)
    from Cons.IH [OF this] obtain pre i post up1 tr1 where
      p: "rest = pre @ i # post" "has_inline_bytes i"
         "upload_loop w c b pub ymd pre up tr = (Inr up1, tr1)"
         "decodeBase64 w (cleaned_payload i) = Inl cause \<and> tr' = tr1 \<or>
          (\<exists>body. decodeBase64 w (cleaned_payload i) = Inr body \<and>
             s3_send w tr1 c (put_command b ymd i body) = Some cause \<and>
             tr' = tr1 @ [S3Send c (put_command b ymd i body)])"
      by blast
    have "upload_loop w c b pub ymd (img # pre) up tr = (Inr up1, tr1)"
      using p(3) False by (simp add: upload_loop_skip)
    with p(1,2,4) show ?thesis
      by (intro exI [of _ "img # pre"] exI [of _ i] exI [of _ post] exI [of _ up1]
          exI [of _ tr1]) simp
  next
    case True
    note step = upload_loop_step [OF True, of w c b pub ymd rest up tr]
    have nil: "upload_loop w c b pub ymd [] up tr = (Inr up, tr)" by simp
    show ?thesis
    proof (cases "decodeBase64 w (cleaned_payload img)")
      case (Inl x)
      with step Cons.prems have "x = cause" "tr' = tr" by simp_all
      with Inl True nil show ?thesis
        by (intro exI [of _ "[]"] exI [of _ img] exI [of _ rest] exI [of _ up] exI [of _ tr])
           simp
    next
      case (Inr body)
      let ?ev = "S3Send c (put_command b ymd img body)"
      show ?thesis
      proof (cases "s3_send w tr c (put_command b ymd img body)")
        case (Some x)
        with step Inr Cons.prems have "x = cause" "tr' = tr @ [?ev]" by simp_all
        with Some Inr True nil show ?thesis
          by (intro exI [of _ "[]"] exI [of _ img] exI [of _ rest] exI [of _ up] exI [of _ tr])
             simp
      next
        case None
        with step Inr Cons.prems
        have "upload_loop w c b pub ymd rest (up @ [published pub ymd img]) (tr @ [?ev]) =
            (Inl cause, tr')"
          by simp
        from Cons.IH [OF this] obtain pre i post up1 tr1 where
          p: "rest = pre @ i # post" "has_inline_bytes i"
             "upload_loop w c b pub ymd pre (up @ [published pub ymd img]) (tr @ [?ev]) =
                (Inr up1, tr1)"
             "decodeBase64 w (cleaned_payload i) = Inl cause \<and> tr' = tr1 \<or>
              (\<exists>body. decodeBase64 w (cleaned_payload i) = Inr body \<and>
                 s3_send w tr1 c (put_command b ymd i body) = Some cause \<and>
                 tr' = tr1 @ [S3Send c (put_command b ymd i body)])"
          by blast
        have "upload_loop w c b pub ymd (img # pre) up tr = (Inr up1, tr1)"
          using p(3) None Inr by (simp add: upload_loop_step [OF True])
        with p(1,2,4) show ?thesis
          by (intro exI [of _ "img # pre"] exI [of _ i] exI [of _ post] exI [of _ up1]
              exI [of _ tr1]) simp
      qed
    qed
  qed
qed

lemma pages_loop_append:
  "pages_loop w images dir (pre @ rest) combinedLines tr =
     (case pages_loop w images dir pre combinedLines tr of
        (Inl cause, t) \<Rightarrow> (Inl cause, t)
      | (Inr lines1, t1) \<Rightarrow> pages_loop w images dir rest lines1 t1)"
  by (induction pre arbitrary: combinedLines tr)
     (simp_all add: pages_loop_step split: option.split)

lemma pages_loop_failure:
  "pages_loop w images dir objects combinedLines tr = (Inl cause, tr') \<Longrightarrow>
   \<exists>t p text. tr' = t @ [WriteTextFile p text] \<and> writeTextFile w t p text = Some cause"
proof (induction objects arbitrary: combinedLines tr)
  case Nil
  then show ?case by simp
next
  case (Cons object rest)
  show ?case
  proof (cases "writeTextFile w tr
      (path_join w dir (js ''page-'' @ js_of_int (page_index object + 1) @ js ''.md''))
      (js_join nl (page_lines images object))")
    case (Some x)
    with Cons.prems have "x = cause" "tr' = tr @ [page_write w images dir object]"
      by (simp_all add: pages_loop_step)
    with Some show ?thesis
      unfolding page_write_def by blast
  next
    case None
    with Cons.prems
    have "pages_loop w images dir rest (combinedLines @ page_lines images object @ [[]])
        (tr @ [page_write w images dir object]) = (Inl cause, tr')"
      by (simp add: pages_loop_step)
    then show ?thesis by (rule Cons.IH)
  qed
qed

lemma uploadImages_Inr_loop:
  "uploadImages w tr b s3 kid sec pub images = (Inr m, tr') \<longleftrightarrow>
   upload_loop w (s3_client_of s3 kid sec) b pub (ymd_of (new_Date w tr)) images []
     (tr @ [NewDate]) = (Inr m, tr')"
  unfolding uploadImages_loop
  by (cases "upload_loop w (s3_client_of s3 kid sec) b pub (ymd_of (new_Date w tr)) images []
     (tr @ [NewDate])") (auto split: sum.splits)

lemma uploadImages_Inl_loop:
  "uploadImages w tr b s3 kid sec pub images = (Inl e, tr') \<longleftrightarrow>
   (\<exists>cause. e = SystemError (upload_failed @ cause) \<and>
      upload_loop w (s3_client_of s3 kid sec) b pub (ymd_of (new_Date w tr)) images []
        (tr @ [NewDate]) = (Inl cause, tr'))"
  unfolding uploadImages_loop
  by (cases "upload_loop w (s3_client_of s3 kid sec) b pub (ymd_of (new_Date w tr)) images []
     (tr @ [NewDate])") (auto split: sum.splits)

text \<open>
  Claim C5, as amended. Every call a stage makes turns its failure into that stage's
  SystemError, and the stage stops there, with the failing call the last event.
  In the OCR stage a failure of \<open>readFile\<close>, of the upload of the file, of the
  signed URL or of the OCR request (each after the earlier calls succeeded) gives the
  fixed text \<open>ocr_failed\<close>, whatever the cause; a failure of \<open>ensureDir\<close>
  gives the fixed text \<open>dir_failed\<close>. In the upload stage, after the images before
  it were published, an image with inline bytes whose payload \<open>decodeBase64\<close> rejects
  with \<open>c\<close>, or whose upload \<open>s3_send\<close> rejects with \<open>c\<close>, gives
  \<open>upload_failed\<close> followed by \<open>c\<close>. In the assembler a write of a page
  file, after the pages before it were written, or the write of the combined file,
  rejected with \<open>c\<close>, gives \<open>markdown_failed\<close> followed by \<open>c\<close>.
  Conversely an error of a stage has this form, and the cause in the text of the upload
  stage and of the assembler is the one of the call that failed.
\<close>

theorem system_error_messages:
  "(readFile w tr p = Inl c \<longrightarrow>
      processOcr w tr k p = (Inl (SystemError ocr_failed), tr @ [ReadFile p])) \<and>
   (readFile w tr p = Inr pdfBytes \<and>
    files_upload w (tr @ [ReadFile p]) k (basename w p) pdfBytes = Inl c \<longrightarrow>
      processOcr w tr k p =
        (Inl (SystemError ocr_failed),
         tr @ [ReadFile p, FilesUpload k (basename w p) pdfBytes])) \<and>
   (readFile w tr p = Inr pdfBytes \<and>
    files_upload w (tr @ [ReadFile p]) k (basename w p) pdfBytes = Inr fileId \<and>
    files_getSignedUrl w (tr @ [ReadFile p, FilesUpload k (basename w p) pdfBytes]) k fileId =
      Inl c \<longrightarrow>
      processOcr w tr k p =
        (Inl (SystemError ocr_failed),
         tr @ [ReadFile p, FilesUpload k (basename w p) pdfBytes, GetSignedUrl k fileId])) \<and>
   (readFile w tr p = Inr pdfBytes \<and>
    files_upload w (tr @ [ReadFile p]) k (basename w p) pdfBytes = Inr fileId \<and>
    files_getSignedUrl w (tr @ [ReadFile p, FilesUpload k (basename w p) pdfBytes]) k fileId =
      Inr signed \<and>
    ocr_process w
      (tr @ [ReadFile p, FilesUpload k (basename w p) pdfBytes, GetSignedUrl k fileId]) k
      \<lparr>model = js ''mistral-ocr-latest'', documentUrl = signed, includeImageBase64 = True\<rparr> =
      Inl c \<longrightarrow>
      processOcr w tr k p =
        (Inl (SystemError ocr_failed),
         tr @ [ReadFile p, FilesUpload k (basename w p) pdfBytes, GetSignedUrl k fileId,
               OcrProcess k \<lparr>model = js ''mistral-ocr-latest'', documentUrl = signed,
                            includeImageBase64 = True\<rparr>])) \<and>
   (processOcr w tr k p = (Inl e, tr') \<longrightarrow> e = SystemError ocr_failed) \<and>
   (ensureDir w tr dir = Some c \<longrightarrow>
      dirResult w tr dir = (Inl (SystemError dir_failed), tr @ [EnsureDir dir])) \<and>
   (dirResult w tr dir = (Inl e, tr') \<longrightarrow> e = SystemError dir_failed) \<and>
   (uploadImages w tr b s3 kid sec pub pre = (Inr m1, tr1) \<and> has_inline_bytes img \<and>
    decodeBase64 w (cleaned_payload img) = Inl c \<longrightarrow>
      uploadImages w tr b s3 kid sec pub (pre @ img # post) =
        (Inl (SystemError (upload_failed @ c)), tr1)) \<and>
   (uploadImages w tr b s3 kid sec pub pre = (Inr m1, tr1) \<and> has_inline_bytes img \<and>
    decodeBase64 w (cleaned_payload img) = Inr body \<and>
    s3_send w tr1 (s3_client_of s3 kid sec)
      (put_command b (ymd_of (new_Date w tr)) img body) = Some c \<longrightarrow>
      uploadImages w tr b s3 kid sec pub (pre @ img # post) =
        (Inl (SystemError (upload_failed @ c)),
         tr1 @ [S3Send (s3_client_of s3 kid sec)
                  (put_command b (ymd_of (new_Date w tr)) img body)])) \<and>
   (uploadImages w tr b s3 kid sec pub images = (Inl e, tr') \<longrightarrow>
      (\<exists>pre img post m1 tr1 cause.
         images = pre @ img # post \<and> has_inline_bytes img \<and>
         uploadImages w tr b s3 kid sec pub pre = (Inr m1, tr1) \<and>
         e = SystemError (upload_failed @ cause) \<and>
         (decodeBase64 w (cleaned_payload img) = Inl cause \<and> tr' = tr1 \<or>
          (\<exists>body. decodeBase64 w (cleaned_payload img) = Inr body \<and>
             s3_send w tr1 (s3_client_of s3 kid sec)
               (put_command b (ymd_of (new_Date w tr)) img body) = Some cause \<and>
             tr' = tr1 @ [S3Send (s3_client_of s3 kid sec)
                           (put_command b (ymd_of (new_Date w tr)) img body)])))) \<and>
   (pages_loop w mp dir before [] tr = (Inr lines1, tr1) \<and>
    writeTextFile w tr1
      (path_join w dir (js ''page-'' @ js_of_int (page_index object + 1) @ js ''.md''))
      (js_join nl (page_lines mp object)) = Some c \<longrightarrow>
      generateMarkdown w tr (before @ object # after) mp dir =
        (Inl (SystemError (markdown_failed @ c)),
         tr1 @ [WriteTextFile
                  (path_join w dir (js ''page-'' @ js_of_int (page_index object + 1) @ js ''.md''))
                  (js_join nl (page_lines mp object))])) \<and>
   (pages_loop w mp dir objects [] tr = (Inr lines1, tr1) \<and>
    writeTextFile w tr1 (path_join w dir (js ''all-pages.md'')) (js_join nl lines1) = Some c \<longrightarrow>
      generateMarkdown w tr objects mp dir =
        (Inl (SystemError (markdown_failed @ c)),
         tr1 @ [WriteTextFile (path_join w dir (js ''all-pages.md'')) (js_join nl lines1)])) \<and>
   (generateMarkdown w tr objects mp dir = (Inl e, tr') \<longrightarrow>
      (\<exists>cause t path text.
         e = SystemError (markdown_failed @ cause) \<and> tr' = t @ [WriteTextFile path text] \<and>
         writeTextFile w t path text = Some cause))"
proof -
  let ?client = "s3_client_of s3 kid sec"
  let ?ymd = "ymd_of (new_Date w tr)"
  note po = processOcr_def [of w tr k p, unfolded Let_def]
  have o1: "processOcr w tr k p = (Inl (SystemError ocr_failed), tr @ [ReadFile p])"
    if "readFile w tr p = Inl c"
    using that by (simp add: po)
  have o2: "processOcr w tr k p =
        (Inl (SystemError ocr_failed), tr @ [ReadFile p, FilesUpload k (basename w p) pdfBytes])"
    if "readFile w tr p = Inr pdfBytes"
      "files_upload w (tr @ [ReadFile p]) k (basename w p) pdfBytes = Inl c"
    using that by (simp add: po)
  have o3: "processOcr w tr k p =
        (Inl (SystemError ocr_failed),
         tr @ [ReadFile p, FilesUpload k (basename w p) pdfBytes, GetSignedUrl k fileId])"
    if "readFile w tr p = Inr pdfBytes"
      "files_upload w (tr @ [ReadFile p]) k (basename w p) pdfBytes = Inr fileId"
      "files_getSignedUrl w (tr @ [ReadFile p, FilesUpload k (basename w p) pdfBytes]) k fileId =
        Inl c"
    using that by (simp add: po)
  have o4: "processOcr w tr k p =
        (Inl (SystemError ocr_failed),
         tr @ [ReadFile p, FilesUpload k (basename w p) pdfBytes, GetSignedUrl k fileId,
               OcrProcess k \<lparr>model = js ''mistral-ocr-latest'', documentUrl = signed, includeImageBase64 = True\<rparr>])"
    if "readFile w tr p = Inr pdfBytes"
      "files_upload w (tr @ [ReadFile p]) k (basename w p) pdfBytes = Inr fileId"
      "files_getSignedUrl w (tr @ [ReadFile p, FilesUpload k (basename w p) pdfBytes]) k fileId =
        Inr signed"
      "ocr_process w
        (tr @ [ReadFile p, FilesUpload k (basename w p) pdfBytes, GetSignedUrl k fileId]) k
        \<lparr>model = js ''mistral-ocr-latest'', documentUrl = signed, includeImageBase64 = True\<rparr> = Inl c"
    using that by (simp add: po)
  have o5: "e = SystemError ocr_failed" if "processOcr w tr k p = (Inl e, tr')"
    using that unfolding po by (auto split: sum.splits)
  have d1: "dirResult w tr dir = (Inl (SystemError dir_failed), tr @ [EnsureDir dir])"
    if "ensureDir w tr dir = Some c"
    using that by (simp add: dirResult_def)
  have d2: "e = SystemError dir_failed" if "dirResult w tr dir = (Inl e, tr')"
    using that unfolding dirResult_def by (auto split: option.splits)
  have u1: "uploadImages w tr b s3 kid sec pub (pre @ img # post) =
        (Inl (SystemError (upload_failed @ c)), tr1)"
    if "uploadImages w tr b s3 kid sec pub pre = (Inr m1, tr1)" "has_inline_bytes img"
      "decodeBase64 w (cleaned_payload img) = Inl c"
  proof -
    from that(1) have l: "upload_loop w ?client b pub ?ymd pre [] (tr @ [NewDate]) = (Inr m1, tr1)"
      by (simp add: uploadImages_Inr_loop)
    have "upload_loop w ?client b pub ?ymd (pre @ img # post) [] (tr @ [NewDate]) = (Inl c, tr1)"
      by (simp add: upload_loop_append l upload_loop_step [OF that(2)] that(3))
    then show ?thesis by (simp add: uploadImages_Inl_loop)
  qed
  have u2: "uploadImages w tr b s3 kid sec pub (pre @ img # post) =
        (Inl (SystemError (upload_failed @ c)),
         tr1 @ [S3Send ?client (put_command b ?ymd img body)])"
    if "uploadImages w tr b s3 kid sec pub pre = (Inr m1, tr1)" "has_inline_bytes img"
      "decodeBase64 w (cleaned_payload img) = Inr body"
      "s3_send w tr1 ?client (put_command b ?ymd img body) = Some c"
  proof -
    from that(1) have l: "upload_loop w ?client b pub ?ymd pre [] (tr @ [NewDate]) = (Inr m1, tr1)"
      by (simp add: uploadImages_Inr_loop)
    have "upload_loop w ?client b pub ?ymd (pre @ img # post) [] (tr @ [NewDate]) =
        (Inl c, tr1 @ [S3Send ?client (put_command b ?ymd img body)])"
      by (simp add: upload_loop_append l upload_loop_step [OF that(2)] that(3,4))
    then show ?thesis by (simp add: uploadImages_Inl_loop)
  qed
  have u3: "\<exists>pre img post m1 tr1 cause.
         images = pre @ img # post \<and> has_inline_bytes img \<and>
         uploadImages w tr b s3 kid sec pub pre = (Inr m1, tr1) \<and>
         e = SystemError (upload_failed @ cause) \<and>
         (decodeBase64 w (cleaned_payload img) = Inl cause \<and> tr' = tr1 \<or>
          (\<exists>body. decodeBase64 w (cleaned_payload img) = Inr body \<and>
             s3_send w tr1 ?client (put_command b ?ymd img body) = Some cause \<and>
             tr' = tr1 @ [S3Send ?client (put_command b ?ymd img body)]))"
    if "uploadImages w tr b s3 kid sec pub images = (Inl e, tr')"
  proof -
    from that obtain cause where c: "e = SystemError (upload_failed @ cause)"
      "upload_loop w ?client b pub ?ymd images [] (tr @ [NewDate]) = (Inl cause, tr')"
      by (auto simp: uploadImages_Inl_loop)
    from upload_loop_failure [OF c(2)] obtain pre img post up1 tr1 where
      p: "images = pre @ img # post" "has_inline_bytes img"
         "upload_loop w ?client b pub ?ymd pre [] (tr @ [NewDate]) = (Inr up1, tr1)"
         "decodeBase64 w (cleaned_payload img) = Inl cause \<and> tr' = tr1 \<or>
          (\<exists>body. decodeBase64 w (cleaned_payload img) = Inr body \<and>
             s3_send w tr1 ?client (put_command b ?ymd img body) = Some cause \<and>
             tr' = tr1 @ [S3Send ?client (put_command b ?ymd img body)])"
      by blast
    from p(3) have "uploadImages w tr b s3 kid sec pub pre = (Inr up1, tr1)"
      by (simp add: uploadImages_Inr_loop)
    with p(1,2,4) c(1) show ?thesis by blast
  qed
  note gm = generateMarkdown_def [unfolded Let_def]
  have m1: "generateMarkdown w tr (before @ object # after) mp dir =
        (Inl (SystemError (markdown_failed @ c)),
         tr1 @ [WriteTextFile
                  (path_join w dir (js ''page-'' @ js_of_int (page_index object + 1) @ js ''.md''))
                  (js_join nl (page_lines mp object))])"
    if "pages_loop w mp dir before [] tr = (Inr lines1, tr1)"
      "writeTextFile w tr1
        (path_join w dir (js ''page-'' @ js_of_int (page_index object + 1) @ js ''.md''))
        (js_join nl (page_lines mp object)) = Some c"
  proof -
    have "pages_loop w mp dir (before @ object # after) [] tr =
        (Inl c, tr1 @ [page_write w mp dir object])"
      by (simp add: pages_loop_append that(1) pages_loop_step that(2))
    then show ?thesis by (simp add: gm page_write_def)
  qed
  have m2: "generateMarkdown w tr objects mp dir =
        (Inl (SystemError (markdown_failed @ c)),
         tr1 @ [WriteTextFile (path_join w dir (js ''all-pages.md'')) (js_join nl lines1)])"
    if "pages_loop w mp dir objects [] tr = (Inr lines1, tr1)"
      "writeTextFile w tr1 (path_join w dir (js ''all-pages.md'')) (js_join nl lines1) = Some c"
    using that by (simp add: gm)
  have m3: "\<exists>cause t path text.
         e = SystemError (markdown_failed @ cause) \<and> tr' = t @ [WriteTextFile path text] \<and>
         writeTextFile w t path text = Some cause"
    if g: "generateMarkdown w tr objects mp dir = (Inl e, tr')"
  proof -
    obtain r t where l: "pages_loop w mp dir objects [] tr = (r, t)"
      by force
    show ?thesis
    proof (cases r)
      case (Inl cause)
      with g l have e: "e = SystemError (markdown_failed @ cause)" "tr' = t"
        by (simp_all add: gm)
      from pages_loop_failure [OF l [unfolded Inl]] e show ?thesis by blast
    next
      case (Inr lines1)
      with g l show ?thesis
        unfolding gm
        by (cases "writeTextFile w t (path_join w dir (js ''all-pages.md''))
              (js_join nl lines1)") auto
    qed
  qed
  show ?thesis
    by (intro conjI impI; (elim conjE)?;
        (rule o1 o2 o3 o4 o5 d1 d2 u1 u2 u3 m1 m2 m3; assumption))
qed

lemma sample_upload_failure:
  assumes "decodeBase64 w = decodeBase64 sample_world" "new_Date w = new_Date sample_world"
    and "s3_send w = (\<lambda>tr c p. Some cause)"
  shows "uploadImages w sample_prefix_trace (js ''bucket'') (js ''https://s3'') (js ''id'')
      (js ''secret'') (js ''https://pub'') [sample_image, bare_image] =
    (Inl (SystemError (upload_failed @ cause)),
     sample_prefix_trace @ [NewDate, S3Send sample_client sample_put])"
  by (subst sample_uploadImages [OF assms(1,2) sample_prefix_length]) (simp add: assms(3))

lemma sample_main_upload_failure:
  "main (sample_world\<lparr>s3_send := (\<lambda>tr c p. Some cause)\<rparr>) [] =
     (Returned (Inl (SystemError (upload_failed @ cause))),
      sample_prefix_trace @ [NewDate, S3Send sample_client sample_put])"
  by (subst sample_main_until_ocr)
     (simp_all add: sample_ocr_process sample_images sample_upload_failure)

text \<open>
  Claim C5 as stated fails for the upload stage: two runs that differ only in the cause
  of the upload failure report different messages, each with its cause.
\<close>

theorem upload_error_carries_cause:
  "fst (main upload_timeout_world []) =
     Returned (Inl (SystemError (upload_failed @ js ''TimeoutError''))) \<and>
   fst (main upload_denied_world []) =
     Returned (Inl (SystemError (upload_failed @ js ''AccessDenied''))) \<and>
   message (SystemError (upload_failed @ js ''TimeoutError'')) \<noteq>
   message (SystemError (upload_failed @ js ''AccessDenied''))"
  by (simp add: sample_main_upload_failure upload_timeout_world_def upload_denied_world_def
      js_eq_iff)

text \<open>
  The sample run succeeds with code 0; with the OCR service down the run stops after the
  OCR stage, prints that stage's error and exits with code 1.
\<close>

theorem main_short_circuit_witness:
  "run sample_world = (0, sample_run_trace) \<and>
   main ocr_down_world [] = (Returned (Inl (SystemError ocr_failed)), sample_prefix_trace) \<and>
   run ocr_down_world =
     (1, sample_prefix_trace @ [ConsoleError (SystemError ocr_failed), Exit 1]) \<and>
   in_order 4 sample_prefix_trace"
proof -
  note ok = main_short_circuit [where w = sample_world and t = sample_run_trace]
  from ok [THEN conjunct2, THEN conjunct2, THEN conjunct2, THEN conjunct2, THEN conjunct2,
      THEN conjunct2, THEN conjunct2, THEN conjunct1] sample_main
  have r0: "run sample_world = (0, sample_run_trace)" by (rule mp)
  have c: "getCliArgs ocr_down_world [] =
      (Returned (Inr \<lparr>input = js ''in.pdf'', outDir = js ''out''\<rparr>),
       [StatSync (js ''in.pdf''), StatSync (js ''out'')])"
    by (rule sample_getCliArgs) (simp_all add: ocr_down_world_def sample_world_def)
  have e: "getEnvs ocr_down_world =
      Inr \<lparr>MISTRAL_OCR_API_KEY = js ''mk'', R2_S3_URL = js ''https://s3'',
         R2_ACCESS_KEY_ID = js ''id'', R2_SECRET_ACCESS_KEY = js ''secret'',
         R2_BUCKET_NAME = js ''bucket'', R2_PUBLIC_URL = js ''https://pub''\<rparr>"
    by (rule sample_getEnvs) (simp add: ocr_down_world_def sample_world_def)
  have d: "dirResult ocr_down_world [StatSync (js ''in.pdf''), StatSync (js ''out'')]
      (outDir \<lparr>input = js ''in.pdf'', outDir = js ''out''\<rparr>) =
      (Inr (), [StatSync (js ''in.pdf''), StatSync (js ''out''), EnsureDir (js ''out'')])"
    by (subst sample_dirResult) (simp_all add: ocr_down_world_def)
  have p: "processOcr ocr_down_world
      [StatSync (js ''in.pdf''), StatSync (js ''out''), EnsureDir (js ''out'')]
      (MISTRAL_OCR_API_KEY \<lparr>MISTRAL_OCR_API_KEY = js ''mk'', R2_S3_URL = js ''https://s3'',
         R2_ACCESS_KEY_ID = js ''id'', R2_SECRET_ACCESS_KEY = js ''secret'',
         R2_BUCKET_NAME = js ''bucket'', R2_PUBLIC_URL = js ''https://pub''\<rparr>)
      (input \<lparr>input = js ''in.pdf'', outDir = js ''out''\<rparr>) =
      (Inl (SystemError ocr_failed), sample_prefix_trace)"
    by (subst sample_processOcr)
       (simp_all add: ocr_down_world_def sample_prefix_trace_def)
  note ko = main_short_circuit [where w = ocr_down_world and e = "SystemError ocr_failed"
      and t = sample_prefix_trace and ?t1.0 = "[StatSync (js ''in.pdf''), StatSync (js ''out'')]"
      and a = "\<lparr>input = js ''in.pdf'', outDir = js ''out''\<rparr>"
      and envs = "\<lparr>MISTRAL_OCR_API_KEY = js ''mk'', R2_S3_URL = js ''https://s3'',
         R2_ACCESS_KEY_ID = js ''id'', R2_SECRET_ACCESS_KEY = js ''secret'',
         R2_BUCKET_NAME = js ''bucket'', R2_PUBLIC_URL = js ''https://pub''\<rparr>"
      and ?t2.0 = "[StatSync (js ''in.pdf''), StatSync (js ''out''), EnsureDir (js ''out'')]"
      and ?t3.0 = sample_prefix_trace]
  from c e d p have hyp: "getCliArgs ocr_down_world [] =
      (Returned (Inr \<lparr>input = js ''in.pdf'', outDir = js ''out''\<rparr>),
       [StatSync (js ''in.pdf''), StatSync (js ''out'')]) \<and>
    getEnvs ocr_down_world =
      Inr \<lparr>MISTRAL_OCR_API_KEY = js ''mk'', R2_S3_URL = js ''https://s3'',
         R2_ACCESS_KEY_ID = js ''id'', R2_SECRET_ACCESS_KEY = js ''secret'',
         R2_BUCKET_NAME = js ''bucket'', R2_PUBLIC_URL = js ''https://pub''\<rparr> \<and>
    dirResult ocr_down_world [StatSync (js ''in.pdf''), StatSync (js ''out'')]
      (outDir \<lparr>input = js ''in.pdf'', outDir = js ''out''\<rparr>) =
      (Inr (), [StatSync (js ''in.pdf''), StatSync (js ''out''), EnsureDir (js ''out'')]) \<and>
    processOcr ocr_down_world
      [StatSync (js ''in.pdf''), StatSync (js ''out''), EnsureDir (js ''out'')]
      (MISTRAL_OCR_API_KEY \<lparr>MISTRAL_OCR_API_KEY = js ''mk'', R2_S3_URL = js ''https://s3'',
         R2_ACCESS_KEY_ID = js ''id'', R2_SECRET_ACCESS_KEY = js ''secret'',
         R2_BUCKET_NAME = js ''bucket'', R2_PUBLIC_URL = js ''https://pub''\<rparr>)
      (input \<lparr>input = js ''in.pdf'', outDir = js ''out''\<rparr>) =
      (Inl (SystemError ocr_failed), sample_prefix_trace)"
    by (intro conjI)
  from ko [THEN conjunct2, THEN conjunct2, THEN conjunct2, THEN conjunct1] hyp
  have m: "main ocr_down_world [] = (Returned (Inl (SystemError ocr_failed)), sample_prefix_trace)
      \<and> in_order 4 sample_prefix_trace"
    by (rule mp)
  from ko [THEN conjunct2, THEN conjunct2, THEN conjunct2, THEN conjunct2, THEN conjunct2,
      THEN conjunct2, THEN conjunct1] m [THEN conjunct1]
  have r1: "run ocr_down_world =
     (1, sample_prefix_trace @ [ConsoleError (SystemError ocr_failed), Exit 1])"
    by (rule mp)
  from r0 m r1 show ?thesis by blast
qed

section \<open>The image publisher\<close>

lemma uploadImages_trace:
  assumes "uploadImages w tr b s3 kid sec pub images = (r, tr')"
  shows "\<exists>sent.
      tr' = tr @ NewDate #
        map (\<lambda>(img, body). S3Send (s3_client_of s3 kid sec)
              (put_command b (ymd_of (new_Date w tr)) img body)) sent \<and>
      prefix (map fst sent) (filter has_inline_bytes images) \<and>
      (\<forall>(img, body)\<in>set sent. decodeBase64 w (cleaned_payload img) = Inr body) \<and>
      (\<forall>m. r = Inr m \<longrightarrow>
         map fst sent = filter has_inline_bytes images \<and>
         m = map (published pub (ymd_of (new_Date w tr))) (filter has_inline_bytes images))"
proof -
  obtain r0 t0 where l: "upload_loop w (s3_client_of s3 kid sec) b pub (ymd_of (new_Date w tr))
      images [] (tr @ [NewDate]) = (r0, t0)"
    by force
  from upload_loop_trace [OF l] obtain sent where
    s: "t0 = (tr @ [NewDate]) @
       map (\<lambda>(img, body). S3Send (s3_client_of s3 kid sec)
         (put_command b (ymd_of (new_Date w tr)) img body)) sent"
      "prefix (map fst sent) (filter has_inline_bytes images)"
      "\<forall>(img, body)\<in>set sent. decodeBase64 w (cleaned_payload img) = Inr body"
      "\<forall>m. r0 = Inr m \<longrightarrow> map fst sent = filter has_inline_bytes images \<and>
         m = [] @ map (published pub (ymd_of (new_Date w tr))) (filter has_inline_bytes images)"
    by blast
  have t: "tr' = t0" and r: "\<And>m. r = Inr m \<Longrightarrow> r0 = Inr m"
    using assms l by (auto simp: uploadImages_loop split: sum.splits)
  from s t r show ?thesis
    by (intro exI [of _ sent]) auto
qed

text \<open>
  Claim C7. In one run of the image publisher the clock is read once, before any upload:
  the trace grows by one \<open>NewDate\<close> followed by uploads only, one for each image of a
  prefix of the images with inline bytes, and the key of every upload is
  \<^verbatim>\<open>paper/<date>/<id>.png\<close> with the date of that one reading, however many images
  there are and however the clock moves during the run.
\<close>

theorem upload_keys_share_date:
  "\<exists>sent.
     snd (uploadImages w tr b s3 kid sec pub images) =
       tr @ NewDate #
         map (\<lambda>(img, body). S3Send (s3_client_of s3 kid sec)
               (put_command b (ymd_of (new_Date w tr)) img body)) sent \<and>
     prefix (map fst sent) (filter has_inline_bytes images) \<and>
     list_all (\<lambda>(img, body).
        Key (put_command b (ymd_of (new_Date w tr)) img body) =
          js ''paper/'' @ ymd_of (new_Date w tr) @ js ''/'' @ image_id img @ js ''.png'') sent"
proof -
  obtain r tr' where u: "uploadImages w tr b s3 kid sec pub images = (r, tr')"
    by force
  from uploadImages_trace [OF u] obtain sent where
    s: "tr' = tr @ NewDate #
        map (\<lambda>(img, body). S3Send (s3_client_of s3 kid sec)
              (put_command b (ymd_of (new_Date w tr)) img body)) sent"
      "prefix (map fst sent) (filter has_inline_bytes images)"
    by blast
  have k: "list_all (\<lambda>(img, body).
        Key (put_command b (ymd_of (new_Date w tr)) img body) =
          js ''paper/'' @ ymd_of (new_Date w tr) @ js ''/'' @ image_id img @ js ''.png'') sent"
    by (simp add: list_all_iff put_command_def storage_key_def split: prod.split)
  from u s k show ?thesis
    by (intro exI [of _ sent]) simp
qed

lemma second_cleaned: "cleaned_payload second_image = js ''QUJD''"
  using sample_cleaned by (simp add: cleaned_payload_def second_image_def)

lemma second_has_bytes: "has_inline_bytes second_image"
  using sample_has_bytes(1) by (simp add: has_inline_bytes_def second_image_def)

lemma second_put_command:
  "put_command (js ''bucket'') (js ''2025-01-08'') second_image [65, 66, 67] = second_put"
  by (simp add: put_command_def second_put_def storage_key_def second_image_def
      js_append [symmetric])

lemma sample_two_uploads:
  "snd (uploadImages sample_world sample_prefix_trace (js ''bucket'') (js ''https://s3'')
      (js ''id'') (js ''secret'') (js ''https://pub'') [sample_image, second_image]) =
   sample_prefix_trace @
     [NewDate, S3Send sample_client sample_put, S3Send sample_client second_put]"
proof -
  have d: "decodeBase64 sample_world (js ''QUJD'') = Inr [65, 66, 67]"
    by (simp add: sample_world_def)
  have y: "ymd_of (new_Date sample_world sample_prefix_trace) = js ''2025-01-08''"
    using sample_prefix_length by (simp add: sample_world_def sample_ymd)
  have s: "s3_send sample_world t c p = None" for t c p
    by (simp add: sample_world_def)
  show ?thesis
    unfolding uploadImages_loop y sample_client_def [symmetric]
    by (simp add: upload_loop_step [OF sample_has_bytes(1)] upload_loop_step [OF second_has_bytes]
        sample_cleaned second_cleaned d s sample_put_command second_put_command)
qed

lemma sample_clock_advances:
  "day_of_month (new_Date sample_world sample_prefix_trace) = 8"
  "day_of_month (new_Date sample_world
     (sample_prefix_trace @ [NewDate, S3Send sample_client sample_put])) = 10"
  using sample_prefix_length by (simp_all add: sample_world_def)

text \<open>
  Two images with inline bytes under a clock that advances with every effect: both keys
  carry the date read at the start (day 8), though the clock shows day 10 before the
  second upload.
\<close>

theorem upload_keys_share_date_witness:
  "(\<exists>sent.
     snd (uploadImages sample_world sample_prefix_trace (js ''bucket'') (js ''https://s3'')
       (js ''id'') (js ''secret'') (js ''https://pub'') [sample_image, second_image]) =
       sample_prefix_trace @ NewDate #
         map (\<lambda>(img, body). S3Send (s3_client_of (js ''https://s3'') (js ''id'') (js ''secret''))
               (put_command (js ''bucket'') (ymd_of (new_Date sample_world sample_prefix_trace))
                  img body)) sent \<and>
     prefix (map fst sent) (filter has_inline_bytes [sample_image, second_image]) \<and>
     list_all (\<lambda>(img, body).
        Key (put_command (js ''bucket'') (ymd_of (new_Date sample_world sample_prefix_trace))
               img body) =
          js ''paper/'' @ ymd_of (new_Date sample_world sample_prefix_trace) @ js ''/'' @
          image_id img @ js ''.png'') sent) \<and>
   snd (uploadImages sample_world sample_prefix_trace (js ''bucket'') (js ''https://s3'')
      (js ''id'') (js ''secret'') (js ''https://pub'') [sample_image, second_image]) =
     sample_prefix_trace @
       [NewDate, S3Send sample_client sample_put, S3Send sample_client second_put] \<and>
   Key sample_put = js ''paper/2025-01-08/img-1.png'' \<and>
   Key second_put = js ''paper/2025-01-08/img-3.png'' \<and>
   day_of_month (new_Date sample_world sample_prefix_trace) = 8 \<and>
   day_of_month (new_Date sample_world
     (sample_prefix_trace @ [NewDate, S3Send sample_client sample_put])) = 10"
  using upload_keys_share_date [of sample_world sample_prefix_trace "js ''bucket''"
      "js ''https://s3''" "js ''id''" "js ''secret''" "js ''https://pub''"
      "[sample_image, second_image]"]
    sample_two_uploads sample_clock_advances
  by (simp add: sample_put_def second_put_def)












lemma sample_ymd_at_upload: "ymd_of (new_Date sample_world sample_prefix_trace) = js ''2025-01-08''"
  using sample_prefix_length by (simp add: sample_world_def sample_ymd)



text \<open>
  The OCR service down: the request fails with 503 after the three earlier calls
  succeeded, and the stage returns the fixed text. The upload timing out for the first
  image: the stage returns the text with that cause, and the upload is the last event.
  The directory refused: the fixed text. The write of the second page file rejected,
  after the first was written: the text with that cause, and this write is the last
  event.
\<close>

theorem system_error_messages_witness:
  "processOcr ocr_down_world
     [StatSync (js ''in.pdf''), StatSync (js ''out''), EnsureDir (js ''out'')]
     (js ''mk'') (js ''in.pdf'') =
     (Inl (SystemError ocr_failed),
      [StatSync (js ''in.pdf''), StatSync (js ''out''), EnsureDir (js ''out''),
       ReadFile (js ''in.pdf''), FilesUpload (js ''mk'') (js ''in.pdf'') [37, 80, 68, 70],
       GetSignedUrl (js ''mk'') (js ''file-1''),
       OcrProcess (js ''mk'')
         \<lparr>model = js ''mistral-ocr-latest'', documentUrl = js ''https://signed'',
          includeImageBase64 = True\<rparr>]) \<and>
   uploadImages upload_timeout_world sample_prefix_trace (js ''bucket'') (js ''https://s3'')
     (js ''id'') (js ''secret'') (js ''https://pub'') [sample_image, bare_image] =
     (Inl (SystemError (upload_failed @ js ''TimeoutError'')),
      sample_prefix_trace @ [NewDate, S3Send sample_client sample_put]) \<and>
   dirResult (sample_world\<lparr>ensureDir := (\<lambda>tr p. Some (js ''PermissionDenied''))\<rparr>)
     [StatSync (js ''in.pdf''), StatSync (js ''out'')] (js ''out'') =
     (Inl (SystemError dir_failed),
      [StatSync (js ''in.pdf''), StatSync (js ''out''), EnsureDir (js ''out'')]) \<and>
   generateMarkdown
     (sample_world\<lparr>writeTextFile :=
        (\<lambda>tr p c. if p = js ''out/page-2.md'' then Some (js ''NoSpace'') else None)\<rparr>)
     [] sample_pages sample_map (js ''out'') =
     (Inl (SystemError (markdown_failed @ js ''NoSpace'')),
      [WriteTextFile (js ''out/page-1.md'') sample_page1_text,
       WriteTextFile (js ''out/page-2.md'') sample_page2_text])"
proof -
  let ?t = "[StatSync (js ''in.pdf''), StatSync (js ''out''), EnsureDir (js ''out'')]"
  have r: "readFile ocr_down_world ?t (js ''in.pdf'') = Inr [37, 80, 68, 70]"
    by (simp add: ocr_down_world_def sample_world_def)
  have bn: "basename ocr_down_world (js ''in.pdf'') = js ''in.pdf''"
    by (simp add: ocr_down_world_def sample_world_def)
  have f: "files_upload ocr_down_world (?t @ [ReadFile (js ''in.pdf'')]) (js ''mk'')
      (basename ocr_down_world (js ''in.pdf'')) [37, 80, 68, 70] = Inr (js ''file-1'')"
    by (simp add: ocr_down_world_def sample_world_def)
  have g: "files_getSignedUrl ocr_down_world
      (?t @ [ReadFile (js ''in.pdf''),
             FilesUpload (js ''mk'') (basename ocr_down_world (js ''in.pdf'')) [37, 80, 68, 70]])
      (js ''mk'') (js ''file-1'') = Inr (js ''https://signed'')"
    by (simp add: ocr_down_world_def sample_world_def)
  have o: "ocr_process ocr_down_world
      (?t @ [ReadFile (js ''in.pdf''),
             FilesUpload (js ''mk'') (basename ocr_down_world (js ''in.pdf'')) [37, 80, 68, 70],
             GetSignedUrl (js ''mk'') (js ''file-1'')])
      (js ''mk'')
      \<lparr>model = js ''mistral-ocr-latest'', documentUrl = js ''https://signed'',
       includeImageBase64 = True\<rparr> = Inl (js ''503'')"
    by (simp add: ocr_down_world_def)
  note t1 = system_error_messages [where w = ocr_down_world and tr = ?t and p = "js ''in.pdf''"
      and k = "js ''mk''" and pdfBytes = "[37, 80, 68, 70]" and fileId = "js ''file-1''"
      and signed = "js ''https://signed''" and c = "js ''503''",
      THEN conjunct2, THEN conjunct2, THEN conjunct2, THEN conjunct1]
  from r f g o have h1: "readFile ocr_down_world ?t (js ''in.pdf'') = Inr [37, 80, 68, 70] \<and>
    files_upload ocr_down_world (?t @ [ReadFile (js ''in.pdf'')]) (js ''mk'')
      (basename ocr_down_world (js ''in.pdf'')) [37, 80, 68, 70] = Inr (js ''file-1'') \<and>
    files_getSignedUrl ocr_down_world
      (?t @ [ReadFile (js ''in.pdf''),
             FilesUpload (js ''mk'') (basename ocr_down_world (js ''in.pdf'')) [37, 80, 68, 70]])
      (js ''mk'') (js ''file-1'') = Inr (js ''https://signed'') \<and>
    ocr_process ocr_down_world
      (?t @ [ReadFile (js ''in.pdf''),
             FilesUpload (js ''mk'') (basename ocr_down_world (js ''in.pdf'')) [37, 80, 68, 70],
             GetSignedUrl (js ''mk'') (js ''file-1'')])
      (js ''mk'')
      \<lparr>model = js ''mistral-ocr-latest'', documentUrl = js ''https://signed'',
       includeImageBase64 = True\<rparr> = Inl (js ''503'')"
    by (intro conjI)
  from t1 h1 have a0: "processOcr ocr_down_world ?t (js ''mk'') (js ''in.pdf'') =
      (Inl (SystemError ocr_failed),
       ?t @ [ReadFile (js ''in.pdf''),
             FilesUpload (js ''mk'') (basename ocr_down_world (js ''in.pdf'')) [37, 80, 68, 70],
             GetSignedUrl (js ''mk'') (js ''file-1''),
             OcrProcess (js ''mk'')
               \<lparr>model = js ''mistral-ocr-latest'', documentUrl = js ''https://signed'',
                includeImageBase64 = True\<rparr>])"
    by (rule mp)
  have a: "processOcr ocr_down_world ?t (js ''mk'') (js ''in.pdf'') =
     (Inl (SystemError ocr_failed),
      [StatSync (js ''in.pdf''), StatSync (js ''out''), EnsureDir (js ''out''),
       ReadFile (js ''in.pdf''), FilesUpload (js ''mk'') (js ''in.pdf'') [37, 80, 68, 70],
       GetSignedUrl (js ''mk'') (js ''file-1''),
       OcrProcess (js ''mk'')
         \<lparr>model = js ''mistral-ocr-latest'', documentUrl = js ''https://signed'',
          includeImageBase64 = True\<rparr>])"
    using a0 unfolding bn by simp
  let ?w = upload_timeout_world
  have y: "ymd_of (new_Date ?w sample_prefix_trace) = js ''2025-01-08''"
    using sample_ymd_at_upload by (simp add: upload_timeout_world_def)
  have u0: "uploadImages ?w sample_prefix_trace (js ''bucket'') (js ''https://s3'') (js ''id'')
      (js ''secret'') (js ''https://pub'') [] = (Inr [], sample_prefix_trace @ [NewDate])"
    by (simp add: uploadImages_loop)
  have d: "decodeBase64 ?w (cleaned_payload sample_image) = Inr [65, 66, 67]"
    unfolding sample_cleaned by (simp add: upload_timeout_world_def sample_world_def)
  have s: "s3_send ?w (sample_prefix_trace @ [NewDate])
      (s3_client_of (js ''https://s3'') (js ''id'') (js ''secret''))
      (put_command (js ''bucket'') (ymd_of (new_Date ?w sample_prefix_trace)) sample_image
         [65, 66, 67]) = Some (js ''TimeoutError'')"
    by (simp add: upload_timeout_world_def)
  note t2 = system_error_messages [where w = ?w and tr = sample_prefix_trace
      and b = "js ''bucket''" and ?s3.0 = "js ''https://s3''" and kid = "js ''id''"
      and sec = "js ''secret''" and pub = "js ''https://pub''" and pre = "[]"
      and ?m1.0 = "[]" and ?tr1.0 = "sample_prefix_trace @ [NewDate]" and img = sample_image
      and post = "[bare_image]" and body = "[65, 66, 67]" and c = "js ''TimeoutError''",
      THEN conjunct2, THEN conjunct2, THEN conjunct2, THEN conjunct2, THEN conjunct2,
      THEN conjunct2, THEN conjunct2, THEN conjunct2, THEN conjunct1]
  from u0 sample_has_bytes(1) d s
  have h2: "uploadImages ?w sample_prefix_trace (js ''bucket'') (js ''https://s3'') (js ''id'')
      (js ''secret'') (js ''https://pub'') [] = (Inr [], sample_prefix_trace @ [NewDate]) \<and>
    has_inline_bytes sample_image \<and>
    decodeBase64 ?w (cleaned_payload sample_image) = Inr [65, 66, 67] \<and>
    s3_send ?w (sample_prefix_trace @ [NewDate])
      (s3_client_of (js ''https://s3'') (js ''id'') (js ''secret''))
      (put_command (js ''bucket'') (ymd_of (new_Date ?w sample_prefix_trace)) sample_image
         [65, 66, 67]) = Some (js ''TimeoutError'')"
    by (intro conjI)
  from t2 h2 have b0: "uploadImages ?w sample_prefix_trace (js ''bucket'') (js ''https://s3'')
      (js ''id'') (js ''secret'') (js ''https://pub'') ([] @ sample_image # [bare_image]) =
      (Inl (SystemError (upload_failed @ js ''TimeoutError'')),
       (sample_prefix_trace @ [NewDate]) @
       [S3Send (s3_client_of (js ''https://s3'') (js ''id'') (js ''secret''))
          (put_command (js ''bucket'') (ymd_of (new_Date ?w sample_prefix_trace)) sample_image
             [65, 66, 67])])"
    by (rule mp)
  have b: "uploadImages ?w sample_prefix_trace (js ''bucket'') (js ''https://s3'')
      (js ''id'') (js ''secret'') (js ''https://pub'') [sample_image, bare_image] =
     (Inl (SystemError (upload_failed @ js ''TimeoutError'')),
      sample_prefix_trace @ [NewDate, S3Send sample_client sample_put])"
    using b0 unfolding y sample_put_command sample_client_def [symmetric] by simp
  let ?wd = "sample_world\<lparr>ensureDir := (\<lambda>tr p. Some (js ''PermissionDenied''))\<rparr>"
  let ?td = "[StatSync (js ''in.pdf''), StatSync (js ''out'')]"
  have e: "ensureDir ?wd ?td (js ''out'') = Some (js ''PermissionDenied'')"
    by simp
  note t3 = system_error_messages [where w = ?wd and tr = ?td and dir = "js ''out''"
      and c = "js ''PermissionDenied''",
      THEN conjunct2, THEN conjunct2, THEN conjunct2, THEN conjunct2, THEN conjunct2,
      THEN conjunct1]
  from t3 e have c0: "dirResult ?wd ?td (js ''out'') =
      (Inl (SystemError dir_failed), ?td @ [EnsureDir (js ''out'')])"
    by (rule mp)
  have c3: "dirResult ?wd ?td (js ''out'') =
     (Inl (SystemError dir_failed),
      [StatSync (js ''in.pdf''), StatSync (js ''out''), EnsureDir (js ''out'')])"
    using c0 by simp
  let ?ww = "sample_world\<lparr>writeTextFile :=
        (\<lambda>tr p c. if p = js ''out/page-2.md'' then Some (js ''NoSpace'') else None)\<rparr>"
  have pj: "path_join ?ww = path_join sample_world"
    by simp
  have p1: "path_join ?ww (js ''out'')
      (js ''page-'' @ js_of_int (page_index sample_page1 + 1) @ js ''.md'') = js ''out/page-1.md''"
    unfolding sample_page_files by (simp add: sample_world_def js_append [symmetric])
  have p2: "path_join ?ww (js ''out'')
      (js ''page-'' @ js_of_int (page_index sample_page2 + 1) @ js ''.md'') = js ''out/page-2.md''"
    unfolding sample_page_files by (simp add: sample_world_def js_append [symmetric])
  have x2: "js_join nl (page_lines sample_map sample_page2) = sample_page2_text"
    using sample_page_writes(2) [OF pj] unfolding page_write_def p2 by simp
  have w1: "writeTextFile ?ww [] (js ''out/page-1.md'') body = None" for body
    by (simp add: js_eq_iff)
  have l: "pages_loop ?ww sample_map (js ''out'') [sample_page1] [] [] =
      (Inr (page_lines sample_map sample_page1 @ [[]]),
       [WriteTextFile (js ''out/page-1.md'') sample_page1_text])"
    unfolding pages_loop_step p1 w1 by (simp add: sample_page_writes(1) [OF pj])
  have w2: "writeTextFile ?ww [WriteTextFile (js ''out/page-1.md'') sample_page1_text]
      (path_join ?ww (js ''out'')
         (js ''page-'' @ js_of_int (page_index sample_page2 + 1) @ js ''.md''))
      (js_join nl (page_lines sample_map sample_page2)) = Some (js ''NoSpace'')"
    unfolding p2 by simp
  note t4 = system_error_messages [where w = ?ww and tr = "[]" and dir = "js ''out''"
      and mp = sample_map and before = "[sample_page1]"
      and ?lines1.0 = "page_lines sample_map sample_page1 @ [[]]"
      and ?tr1.0 = "[WriteTextFile (js ''out/page-1.md'') sample_page1_text]"
      and object = sample_page2 and after = "[]" and c = "js ''NoSpace''",
      THEN conjunct2, THEN conjunct2, THEN conjunct2, THEN conjunct2, THEN conjunct2,
      THEN conjunct2, THEN conjunct2, THEN conjunct2, THEN conjunct2, THEN conjunct2,
      THEN conjunct1]
  from l w2 have h4: "pages_loop ?ww sample_map (js ''out'') [sample_page1] [] [] =
      (Inr (page_lines sample_map sample_page1 @ [[]]),
       [WriteTextFile (js ''out/page-1.md'') sample_page1_text]) \<and>
    writeTextFile ?ww [WriteTextFile (js ''out/page-1.md'') sample_page1_text]
      (path_join ?ww (js ''out'')
         (js ''page-'' @ js_of_int (page_index sample_page2 + 1) @ js ''.md''))
      (js_join nl (page_lines sample_map sample_page2)) = Some (js ''NoSpace'')"
    by (rule conjI)
  from t4 h4 have d0: "generateMarkdown ?ww [] ([sample_page1] @ sample_page2 # [])
      sample_map (js ''out'') =
      (Inl (SystemError (markdown_failed @ js ''NoSpace'')),
       [WriteTextFile (js ''out/page-1.md'') sample_page1_text] @
       [WriteTextFile
          (path_join ?ww (js ''out'')
             (js ''page-'' @ js_of_int (page_index sample_page2 + 1) @ js ''.md''))
          (js_join nl (page_lines sample_map sample_page2))])"
    by (rule mp)
  have d4: "generateMarkdown ?ww [] sample_pages sample_map (js ''out'') =
     (Inl (SystemError (markdown_failed @ js ''NoSpace'')),
      [WriteTextFile (js ''out/page-1.md'') sample_page1_text,
       WriteTextFile (js ''out/page-2.md'') sample_page2_text])"
    using d0 unfolding p2 x2 sample_pages_def by simp
  from a b c3 d4 show ?thesis by (intro conjI)
qed

section \<open>The Markdown assembler\<close>

text \<open>
  Printing an integer is injective, so pages with different indices are written to
  different files.
\<close>

lemma digit_value_digits_of: "digit_value (digits_of n) = n"
proof (induction n rule: digits_of.induct)
  case (1 n)
  show ?case
  proof (cases "n < 10")
    case True
    then show ?thesis by (simp add: digits_of.simps [of n] digit_value_def)
  next
    case False
    with 1 have "digit_value (digits_of (n div 10)) = n div 10" by simp
    with False show ?thesis
      by (simp add: digits_of.simps [of n] digit_value_def)
  qed
qed

lemma digits_of_inj: "digits_of n = digits_of m \<Longrightarrow> n = m"
  by (metis digit_value_digits_of)

lemma digits_of_range: "c \<in> set (digits_of n) \<Longrightarrow> 48 \<le> c"
proof (induction n rule: digits_of.induct)
  case (1 n)
  then show ?case
    by (cases "n < 10") (auto simp: digits_of.simps [of n])
qed

lemma js_of_int_inj: "js_of_int i = js_of_int j \<Longrightarrow> i = j"
proof -
  assume eq: "js_of_int i = js_of_int j"
  have no_minus: "45 # s \<noteq> digits_of n" for s n
  proof
    assume "45 # s = digits_of n"
    then have "45 \<in> set (digits_of n)" by (metis list.set_intros(1))
    from digits_of_range [OF this] show False by simp
  qed
  show ?thesis
  proof (cases "i < 0"; cases "j < 0")
    assume "i < 0" "j < 0"
    with eq have "nat (- i) = nat (- j)"
      by (auto simp: js_of_int_def dest: digits_of_inj)
    with \<open>i < 0\<close> \<open>j < 0\<close> show ?thesis by simp
  next
    assume "i < 0" "\<not> j < 0"
    with eq no_minus show ?thesis by (auto simp: js_of_int_def)
  next
    assume "\<not> i < 0" "j < 0"
    with eq no_minus [of "digits_of (nat (- j))" "nat i"] show ?thesis
      by (auto simp: js_of_int_def)
  next
    assume "\<not> i < 0" "\<not> j < 0"
    with eq have "nat i = nat j"
      by (auto simp: js_of_int_def dest: digits_of_inj)
    with \<open>\<not> i < 0\<close> \<open>\<not> j < 0\<close> show ?thesis by simp
  qed
qed

lemma page_names_distinct:
  "distinct ns \<Longrightarrow> distinct (map (\<lambda>n. js ''page-'' @ js_of_int n @ js ''.md'') ns)"
proof (induction ns)
  case Nil
  show ?case by simp
next
  case (Cons n ns)
  then show ?case by (auto dest!: js_of_int_inj)
qed

lemma pages_loop_never_fails:
  "\<forall>t p c. writeTextFile w t p c = None \<Longrightarrow>
   \<exists>c t. pages_loop w images dir objects combinedLines tr = (Inr c, t)"
  by (induction objects arbitrary: combinedLines tr) (simp_all add: pages_loop_step)

lemma all_pages_text:
  "js_join nl (concat (map (\<lambda>object. page_lines images object @ [[]]) objects)) =
   (if objects = [] then []
    else js_join (nl @ nl) (map (\<lambda>object. js_join nl (page_lines images object)) objects) @ nl)"
  using js_join_blocks [of objects "page_lines images" nl]
  by (simp add: page_lines_nonempty)

lemma generateMarkdown_ok:
  assumes "generateMarkdown w tr objects images dir = (Inr (), tr')"
  shows "tr' = tr @ map (page_write w images dir) objects @
      [WriteTextFile (path_join w dir (js ''all-pages.md''))
         (if objects = [] then []
          else js_join (nl @ nl)
                 (map (\<lambda>object. js_join nl (page_lines images object)) objects) @ nl)]"
proof -
  obtain r t where l: "pages_loop w images dir objects [] tr = (r, t)"
    by force
  from assms l obtain c where c: "r = Inr c"
    by (cases r) (auto simp: generateMarkdown_def)
  from pages_loop_trace [OF l] c
  have t: "t = tr @ map (page_write w images dir) objects"
    and cl: "c = concat (map (\<lambda>object. page_lines images object @ [[]]) objects)"
    by auto
  define k where "k = js ''all-pages.md''"
  from assms l c have "tr' = t @ [WriteTextFile (path_join w dir k) (js_join nl c)]"
    unfolding generateMarkdown_def Let_def k_def [symmetric]
    by (auto split: option.splits)
  then show ?thesis
    unfolding t cl all_pages_text k_def by simp
qed

lemma sorted_sort_key_id: "sorted (map f xs) \<Longrightarrow> sort_key f xs = xs"
  by (rule sort_key_id_if_sorted)

text \<open>
  Claim C2, as amended. A run of the assembler that succeeds wrote one page file for
  each element of the page sequence, in the order of the sequence, and then the combined
  file, whose text is the texts of the pages in that same order (the trace grows by one
  event for each page and one more). When the indices of the sequence are ascending, this
  order is the order of the indices. When the indices are pairwise distinct integers
  from \<open>- 2 ^ 53\<close> up to \<open>2 ^ 53 - 1\<close>, where \<open>index + 1\<close> is exact in
  the code's arithmetic, the names of the page files are pairwise distinct, so there are
  as many page files as pages. If no write fails, the assembler succeeds.
\<close>

theorem generateMarkdown_files:
  "(generateMarkdown w tr objects images dir = (Inr (), tr') \<longrightarrow>
      tr' = tr @
        map (\<lambda>object.
               WriteTextFile
                 (path_join w dir (js ''page-'' @ js_of_int (page_index object + 1) @ js ''.md''))
                 (js_join nl (page_lines images object))) objects @
        [WriteTextFile (path_join w dir (js ''all-pages.md''))
           (if objects = [] then []
            else js_join (nl @ nl)
                   (map (\<lambda>object. js_join nl (page_lines images object)) objects) @ nl)] \<and>
      length tr' = length tr + length objects + 1) \<and>
   (generateMarkdown w tr objects images dir = (Inr (), tr') \<and>
    sorted (map page_index objects) \<longrightarrow>
      last tr' =
        WriteTextFile (path_join w dir (js ''all-pages.md''))
          (if objects = [] then []
           else js_join (nl @ nl)
                  (map (\<lambda>object. js_join nl (page_lines images object))
                     (sort_key page_index objects)) @ nl)) \<and>
   (distinct (map page_index objects) \<and>
    list_all (\<lambda>object. - (2 ^ 53) \<le> page_index object \<and> page_index object < 2 ^ 53) objects
    \<longrightarrow>
      distinct (map (\<lambda>object. js ''page-'' @ js_of_int (page_index object + 1) @ js ''.md'')
                 objects) \<and>
      card (set (map (\<lambda>object. js ''page-'' @ js_of_int (page_index object + 1) @ js ''.md'')
                   objects)) = length objects) \<and>
   ((\<forall>t p c. writeTextFile w t p c = None) \<longrightarrow>
      fst (generateMarkdown w tr objects images dir) = Inr ())"
proof -
  let ?all = "\<lambda>pages. WriteTextFile (path_join w dir (js ''all-pages.md''))
           (if objects = [] then []
            else js_join (nl @ nl)
                   (map (\<lambda>object. js_join nl (page_lines images object)) pages) @ nl)"
  have a: "tr' = tr @
        map (\<lambda>object.
               WriteTextFile
                 (path_join w dir (js ''page-'' @ js_of_int (page_index object + 1) @ js ''.md''))
                 (js_join nl (page_lines images object))) objects @
        [?all objects] \<and>
      length tr' = length tr + length objects + 1"
    if "generateMarkdown w tr objects images dir = (Inr (), tr')"
    using generateMarkdown_ok [OF that]
    by (simp add: page_write_def cong: map_cong)
  have s: "last tr' = ?all (sort_key page_index objects)"
    if "generateMarkdown w tr objects images dir = (Inr (), tr')"
      "sorted (map page_index objects)"
    using a [OF that(1)] sorted_sort_key_id [OF that(2)] by simp
  have b: "distinct (map (\<lambda>object. js ''page-'' @ js_of_int (page_index object + 1) @ js ''.md'')
                 objects) \<and>
      card (set (map (\<lambda>object. js ''page-'' @ js_of_int (page_index object + 1) @ js ''.md'')
                   objects)) = length objects"
    if "distinct (map page_index objects)"
      "list_all (\<lambda>object. - (2 ^ 53) \<le> page_index object \<and> page_index object < 2 ^ 53) objects"
  proof -
    from that(1) have "distinct (map (\<lambda>object. page_index object + 1) objects)"
      by (simp add: distinct_map inj_on_def)
    then have "distinct (map (\<lambda>n. js ''page-'' @ js_of_int n @ js ''.md'')
        (map (\<lambda>object. page_index object + 1) objects))"
      by (rule page_names_distinct)
    then have d: "distinct (map (\<lambda>object. js ''page-'' @ js_of_int (page_index object + 1) @ js ''.md'')
                 objects)"
      by (simp add: o_def)
    from distinct_card [OF d] d show ?thesis by simp
  qed
  have c: "fst (generateMarkdown w tr objects images dir) = Inr ()"
    if n: "\<forall>t p c. writeTextFile w t p c = None"
  proof -
    from pages_loop_never_fails [OF n] obtain c t where
      "pages_loop w images dir objects [] tr = (Inr c, t)"
      by blast
    then show ?thesis using n by (simp add: generateMarkdown_def Let_def)
  qed
  show ?thesis
    by (intro conjI impI; (elim conjE)?;
        (rule a [THEN conjunct1] a [THEN conjunct2] s b [THEN conjunct1] b [THEN conjunct2] c;
         assumption))
qed

lemma page_write_explicit:
  "page_write w images dir =
     (\<lambda>object.
        WriteTextFile
          (path_join w dir (js ''page-'' @ js_of_int (page_index object + 1) @ js ''.md''))
          (js_join nl
             ([js ''# Page '' @ js_of_int (page_index object + 1), [], markdown object, []] @
              concat (map (\<lambda>img.
                   case find (\<lambda>u. pub_id u = image_id img) images of
                     None \<Rightarrow> []
                   | Some uploaded \<Rightarrow>
                       [js ''!['' @ image_id img @ js '']('' @ url uploaded @ js '')'', []])
                 (page_images object)))))"
  by (rule ext) (simp add: page_write_def page_lines_eq image_reference_def
      cong: map_cong)

text \<open>
  Claim C3, as amended. Every page file the assembler writes (one per page of a prefix of
  the sequence, all of them when it succeeds) is \<^verbatim>\<open>page-<index+1>.md\<close>, and its text is
  these lines joined by a line feed: the heading \<^verbatim>\<open># Page <index+1>\<close>, an empty line,
  the page's markdown as it is, an empty line, and then for each image of the page, in
  the page's order, whose id is in the mapping, the reference \<^verbatim>\<open>![<id>](<url>)\<close> with
  the url of the first entry of that id, followed by an empty line. An image whose id is
  not in the mapping adds no line.
\<close>

theorem page_file_content:
  "generateMarkdown w tr objects images dir = (r, tr') \<longrightarrow>
     (\<exists>n rest.
        n \<le> length objects \<and>
        tr' = tr @
          map (\<lambda>object.
                 WriteTextFile
                   (path_join w dir
                      (js ''page-'' @ js_of_int (page_index object + 1) @ js ''.md''))
                   (js_join nl
                      ([js ''# Page '' @ js_of_int (page_index object + 1), [],
                        markdown object, []] @
                       concat (map (\<lambda>img.
                            case find (\<lambda>u. pub_id u = image_id img) images of
                              None \<Rightarrow> []
                            | Some uploaded \<Rightarrow>
                                [js ''!['' @ image_id img @ js '']('' @ url uploaded @ js '')'',
                                 []])
                          (page_images object)))))
            (take n objects) @ rest \<and>
        (rest = [] \<or> (\<exists>c. rest = [WriteTextFile (path_join w dir (js ''all-pages.md'')) c])) \<and>
        (r = Inr () \<longrightarrow> n = length objects))"
proof
  assume g: "generateMarkdown w tr objects images dir = (r, tr')"
  obtain r0 t0 where l: "pages_loop w images dir objects [] tr = (r0, t0)"
    by force
  from pages_loop_trace [OF l] obtain n where
    n: "n \<le> length objects" "t0 = tr @ map (page_write w images dir) (take n objects)"
       "\<forall>c. r0 = Inr c \<longrightarrow> n = length objects"
    by blast
  define k where "k = js ''all-pages.md''"
  have "\<exists>rest. tr' = t0 @ rest \<and>
      (rest = [] \<or> (\<exists>c. rest = [WriteTextFile (path_join w dir k) c])) \<and>
      (r = Inr () \<longrightarrow> (\<exists>c. r0 = Inr c))"
    using g l unfolding generateMarkdown_def Let_def k_def [symmetric]
    by (cases r0) (auto split: option.splits)
  then obtain rest where
    rest: "tr' = t0 @ rest"
      "rest = [] \<or> (\<exists>c. rest = [WriteTextFile (path_join w dir k) c])"
      "r = Inr () \<longrightarrow> (\<exists>c. r0 = Inr c)"
    by blast
  from n rest have
    "n \<le> length objects \<and>
     tr' = tr @ map (page_write w images dir) (take n objects) @ rest \<and>
     (rest = [] \<or> (\<exists>c. rest = [WriteTextFile (path_join w dir (js ''all-pages.md'')) c])) \<and>
     (r = Inr () \<longrightarrow> n = length objects)"
    unfolding k_def by auto
  then show "\<exists>n rest.
        n \<le> length objects \<and>
        tr' = tr @
          map (\<lambda>object.
                 WriteTextFile
                   (path_join w dir
                      (js ''page-'' @ js_of_int (page_index object + 1) @ js ''.md''))
                   (js_join nl
                      ([js ''# Page '' @ js_of_int (page_index object + 1), [],
                        markdown object, []] @
                       concat (map (\<lambda>img.
                            case find (\<lambda>u. pub_id u = image_id img) images of
                              None \<Rightarrow> []
                            | Some uploaded \<Rightarrow>
                                [js ''!['' @ image_id img @ js '']('' @ url uploaded @ js '')'',
                                 []])
                          (page_images object)))))
            (take n objects) @ rest \<and>
        (rest = [] \<or> (\<exists>c. rest = [WriteTextFile (path_join w dir (js ''all-pages.md'')) c])) \<and>
        (r = Inr () \<longrightarrow> n = length objects)"
    unfolding page_write_explicit by blast
qed

lemma sample_markdown_run:
  "generateMarkdown sample_world [] sample_pages sample_map (js ''out'') =
    (Inr (), [WriteTextFile (js ''out/page-1.md'') sample_page1_text,
              WriteTextFile (js ''out/page-2.md'') sample_page2_text,
              WriteTextFile (js ''out/all-pages.md'') sample_all_text])"
  by (subst sample_generateMarkdown) simp_all

text \<open>
  Claim C3 as stated fails: \<open>claimed_page_text\<close> is the text made of the heading, the
  markdown and the references alone, joined by line feeds. The second page of the sample
  run is written with an empty line after the heading and after the markdown.
\<close>

theorem page_text_has_empty_lines:
  "generateMarkdown sample_world [] sample_pages sample_map (js ''out'') =
    (Inr (), [WriteTextFile (js ''out/page-1.md'') sample_page1_text,
              WriteTextFile (js ''out/page-2.md'') sample_page2_text,
              WriteTextFile (js ''out/all-pages.md'') sample_all_text]) \<and>
   sample_page2_text = js ''# Page 2'' @ nl @ nl @ js ''World'' @ nl \<and>
   claimed_page_text sample_map sample_page2 = js ''# Page 2'' @ nl @ js ''World'' \<and>
   sample_page2_text \<noteq> claimed_page_text sample_map sample_page2"
proof -
  have c: "claimed_page_text sample_map sample_page2 = js ''# Page 2'' @ nl @ js ''World''"
    by (simp add: claimed_page_text_def sample_page2_def js_of_int_small js_append [symmetric])
  have "nl @ js ''World'' @ nl \<noteq> js ''World''"
    by (simp add: nl_def js_def)
  then have "sample_page2_text \<noteq> claimed_page_text sample_map sample_page2"
    unfolding c by (simp add: sample_page2_text_def)
  with sample_markdown_run c show ?thesis
    by (simp add: sample_page2_text_def)
qed

lemma sample_markdown_swapped:
  "generateMarkdown sample_world [] [sample_page2, sample_page1] sample_map (js ''out'') =
    (Inr (), [WriteTextFile (js ''out/page-2.md'') sample_page2_text,
              WriteTextFile (js ''out/page-1.md'') sample_page1_text,
              WriteTextFile (js ''out/all-pages.md'')
                (sample_page2_text @ nl @ nl @ sample_page1_text @ nl)])"
proof -
  have wr: "writeTextFile sample_world t p c = None" for t p c
    by (simp add: sample_world_def)
  have loop: "pages_loop sample_world sample_map (js ''out'') [sample_page2, sample_page1] [] [] =
      (Inr (page_lines sample_map sample_page2 @ [] #
            page_lines sample_map sample_page1 @ [[]]),
       [WriteTextFile (js ''out/page-2.md'') sample_page2_text,
        WriteTextFile (js ''out/page-1.md'') sample_page1_text])"
    by (simp add: pages_loop_step wr sample_page_writes)
  have all_path: "path_join sample_world (js ''out'') (js ''all-pages.md'') = js ''out/all-pages.md''"
    by (simp add: sample_world_def js_append [symmetric])
  have all_text: "js_join nl (page_lines sample_map sample_page2 @ [] #
            page_lines sample_map sample_page1 @ [[]]) =
      sample_page2_text @ nl @ nl @ sample_page1_text @ nl"
    by (simp add: sample_page_lines sample_page1_text_def sample_page2_text_def)
  show ?thesis
    unfolding generateMarkdown_def loop
    by (simp add: wr all_path all_text)
qed

lemma sample_markdown_repeated:
  "generateMarkdown sample_world [] [sample_page2, sample_page2] sample_map (js ''out'') =
    (Inr (), [WriteTextFile (js ''out/page-2.md'') sample_page2_text,
              WriteTextFile (js ''out/page-2.md'') sample_page2_text,
              WriteTextFile (js ''out/all-pages.md'')
                (sample_page2_text @ nl @ nl @ sample_page2_text @ nl)])"
proof -
  have wr: "writeTextFile sample_world t p c = None" for t p c
    by (simp add: sample_world_def)
  have loop: "pages_loop sample_world sample_map (js ''out'') [sample_page2, sample_page2] [] [] =
      (Inr (page_lines sample_map sample_page2 @ [] #
            page_lines sample_map sample_page2 @ [[]]),
       [WriteTextFile (js ''out/page-2.md'') sample_page2_text,
        WriteTextFile (js ''out/page-2.md'') sample_page2_text])"
    by (simp add: pages_loop_step wr sample_page_writes)
  have all_path: "path_join sample_world (js ''out'') (js ''all-pages.md'') = js ''out/all-pages.md''"
    by (simp add: sample_world_def js_append [symmetric])
  have all_text: "js_join nl (page_lines sample_map sample_page2 @ [] #
            page_lines sample_map sample_page2 @ [[]]) =
      sample_page2_text @ nl @ nl @ sample_page2_text @ nl"
    by (simp add: sample_page_lines sample_page2_text_def)
  show ?thesis
    unfolding generateMarkdown_def loop
    by (simp add: wr all_path all_text)
qed

text \<open>
  Claim C2 as stated fails when the sequence is not in the order of the indices, or
  repeats an index. For the pages of the sample in the order second, first (indices 1, 0)
  the run writes \<open>page-2.md\<close>, then \<open>page-1.md\<close>, and the combined file has
  the second page first. For the second page given twice the run writes
  \<open>page-2.md\<close> twice: one page file for two pages.
\<close>

theorem pages_in_sequence_order_not_index_order:
  "generateMarkdown sample_world [] [sample_page2, sample_page1] sample_map (js ''out'') =
    (Inr (), [WriteTextFile (js ''out/page-2.md'') sample_page2_text,
              WriteTextFile (js ''out/page-1.md'') sample_page1_text,
              WriteTextFile (js ''out/all-pages.md'')
                (sample_page2_text @ nl @ nl @ sample_page1_text @ nl)]) \<and>
   map page_index [sample_page2, sample_page1] = [1, 0] \<and>
   sample_page2_text @ nl @ nl @ sample_page1_text @ nl \<noteq>
     sample_page1_text @ nl @ nl @ sample_page2_text @ nl \<and>
   generateMarkdown sample_world [] [sample_page2, sample_page2] sample_map (js ''out'') =
    (Inr (), [WriteTextFile (js ''out/page-2.md'') sample_page2_text,
              WriteTextFile (js ''out/page-2.md'') sample_page2_text,
              WriteTextFile (js ''out/all-pages.md'')
                (sample_page2_text @ nl @ nl @ sample_page2_text @ nl)]) \<and>
   card {js ''out/page-2.md'', js ''out/page-2.md''} \<noteq> length [sample_page2, sample_page2]"
proof -
  have i: "map page_index [sample_page2, sample_page1] = [1, 0]"
    by (simp add: sample_page1_def sample_page2_def)
  have "js ''# Page 2'' \<noteq> js ''# Page 1''"
    by (simp add: js_eq_iff)
  then have n: "sample_page2_text @ nl @ nl @ sample_page1_text @ nl \<noteq>
     sample_page1_text @ nl @ nl @ sample_page2_text @ nl"
    by (simp add: sample_page1_text_def sample_page2_text_def js_def)
  have c: "card {js ''out/page-2.md'', js ''out/page-2.md''} \<noteq> length [sample_page2, sample_page2]"
    by simp
  from sample_markdown_swapped i n sample_markdown_repeated c show ?thesis
    by (intro conjI)
qed

text \<open>
  The sample run: two pages with the indices 0 and 1, ascending and distinct, two page
  files with two names and the combined file, in this order, which is the order of the
  indices; no write fails and the assembler succeeds.
\<close>

theorem generateMarkdown_files_witness:
  "generateMarkdown sample_world [] sample_pages sample_map (js ''out'') =
    (Inr (), [WriteTextFile (js ''out/page-1.md'') sample_page1_text,
              WriteTextFile (js ''out/page-2.md'') sample_page2_text,
              WriteTextFile (js ''out/all-pages.md'') sample_all_text]) \<and>
   length [WriteTextFile (js ''out/page-1.md'') sample_page1_text,
           WriteTextFile (js ''out/page-2.md'') sample_page2_text,
           WriteTextFile (js ''out/all-pages.md'') sample_all_text] = length sample_pages + 1 \<and>
   sample_all_text = js_join (nl @ nl) [sample_page1_text, sample_page2_text] @ nl \<and>
   distinct (map page_index sample_pages) \<and> sorted (map page_index sample_pages) \<and>
   list_all (\<lambda>object. - (2 ^ 53) \<le> page_index object \<and> page_index object < 2 ^ 53)
     sample_pages \<and>
   card (set (map (\<lambda>object. js ''page-'' @ js_of_int (page_index object + 1) @ js ''.md'')
                sample_pages)) = length sample_pages \<and>
   last [WriteTextFile (js ''out/page-1.md'') sample_page1_text,
         WriteTextFile (js ''out/page-2.md'') sample_page2_text,
         WriteTextFile (js ''out/all-pages.md'') sample_all_text] =
     WriteTextFile (js ''out/all-pages.md'')
       (js_join (nl @ nl)
          (map (\<lambda>object. js_join nl (page_lines sample_map object))
             (sort_key page_index sample_pages)) @ nl) \<and>
   (\<forall>t p c. writeTextFile sample_world t p c = None) \<and>
   fst (generateMarkdown sample_world [] sample_pages sample_map (js ''out'')) = Inr ()"
proof -
  note t = generateMarkdown_files [where w = sample_world and tr = "[]" and objects = sample_pages
      and images = sample_map and dir = "js ''out''"
      and tr' = "[WriteTextFile (js ''out/page-1.md'') sample_page1_text,
              WriteTextFile (js ''out/page-2.md'') sample_page2_text,
              WriteTextFile (js ''out/all-pages.md'') sample_all_text]"]
  from t [THEN conjunct1] sample_markdown_run
  have a: "length [WriteTextFile (js ''out/page-1.md'') sample_page1_text,
           WriteTextFile (js ''out/page-2.md'') sample_page2_text,
           WriteTextFile (js ''out/all-pages.md'') sample_all_text] = length sample_pages + 1"
    by simp
  have d: "distinct (map page_index sample_pages)"
    by (simp add: sample_pages_def sample_page1_def sample_page2_def)
  have s: "sorted (map page_index sample_pages)"
    by (simp add: sample_pages_def sample_page1_def sample_page2_def)
  have r: "list_all (\<lambda>object. - (2 ^ 53) \<le> page_index object \<and> page_index object < 2 ^ 53)
     sample_pages"
    by (simp add: sample_pages_def sample_page1_def sample_page2_def)
  from d r have h: "distinct (map page_index sample_pages) \<and>
    list_all (\<lambda>object. - (2 ^ 53) \<le> page_index object \<and> page_index object < 2 ^ 53)
     sample_pages"
    by (rule conjI)
  from t [THEN conjunct2, THEN conjunct2, THEN conjunct1] h
  have e: "distinct (map (\<lambda>object. js ''page-'' @ js_of_int (page_index object + 1) @ js ''.md'')
               sample_pages) \<and>
     card (set (map (\<lambda>object. js ''page-'' @ js_of_int (page_index object + 1) @ js ''.md'')
                sample_pages)) = length sample_pages"
    by (rule mp)
  have f: "sample_all_text = js_join (nl @ nl) [sample_page1_text, sample_page2_text] @ nl"
    by (simp add: sample_all_text_def)
  from sample_markdown_run s
  have hs: "generateMarkdown sample_world [] sample_pages sample_map (js ''out'') =
    (Inr (), [WriteTextFile (js ''out/page-1.md'') sample_page1_text,
              WriteTextFile (js ''out/page-2.md'') sample_page2_text,
              WriteTextFile (js ''out/all-pages.md'') sample_all_text]) \<and>
    sorted (map page_index sample_pages)"
    by (rule conjI)
  have ne: "sample_pages \<noteq> []"
    by (simp add: sample_pages_def)
  have ap: "path_join sample_world (js ''out'') (js ''all-pages.md'') = js ''out/all-pages.md''"
    by (simp add: sample_world_def js_append [symmetric])
  from t [THEN conjunct2, THEN conjunct1] hs
  have i0: "last [WriteTextFile (js ''out/page-1.md'') sample_page1_text,
         WriteTextFile (js ''out/page-2.md'') sample_page2_text,
         WriteTextFile (js ''out/all-pages.md'') sample_all_text] =
     WriteTextFile (path_join sample_world (js ''out'') (js ''all-pages.md''))
       (if sample_pages = [] then []
        else js_join (nl @ nl)
          (map (\<lambda>object. js_join nl (page_lines sample_map object))
             (sort_key page_index sample_pages)) @ nl)"
    by (rule mp)
  have i: "last [WriteTextFile (js ''out/page-1.md'') sample_page1_text,
         WriteTextFile (js ''out/page-2.md'') sample_page2_text,
         WriteTextFile (js ''out/all-pages.md'') sample_all_text] =
     WriteTextFile (js ''out/all-pages.md'')
       (js_join (nl @ nl)
          (map (\<lambda>object. js_join nl (page_lines sample_map object))
             (sort_key page_index sample_pages)) @ nl)"
    using i0 ne unfolding ap by (simp only: if_False)
  have nf: "\<forall>t p c. writeTextFile sample_world t p c = None"
    by (simp add: sample_world_def)
  from t [THEN conjunct2, THEN conjunct2, THEN conjunct2] nf
  have ok: "fst (generateMarkdown sample_world [] sample_pages sample_map (js ''out'')) = Inr ()"
    by (rule mp)
  from sample_markdown_run a f d s r e [THEN conjunct2] i nf ok show ?thesis
    by (intro conjI)
qed

text \<open>
  The sample run: the first page's file has the heading, the text and the reference of
  \<open>img-1\<close>, each followed by an empty line; \<open>img-2\<close> adds nothing.
\<close>

theorem page_file_content_witness:
  "generateMarkdown sample_world [] sample_pages sample_map (js ''out'') =
    (Inr (), [WriteTextFile (js ''out/page-1.md'') sample_page1_text,
              WriteTextFile (js ''out/page-2.md'') sample_page2_text,
              WriteTextFile (js ''out/all-pages.md'') sample_all_text]) \<and>
   sample_page1_text =
     js_join nl [js ''# Page 1'', [], js ''Hello'', [],
                 js ''![img-1](https://pub/paper/2025-01-08/img-1.png)'', []] \<and>
   (\<exists>n rest.
        n \<le> length sample_pages \<and>
        [WriteTextFile (js ''out/page-1.md'') sample_page1_text,
         WriteTextFile (js ''out/page-2.md'') sample_page2_text,
         WriteTextFile (js ''out/all-pages.md'') sample_all_text] =
          [] @
          map (\<lambda>object.
                 WriteTextFile
                   (path_join sample_world (js ''out'')
                      (js ''page-'' @ js_of_int (page_index object + 1) @ js ''.md''))
                   (js_join nl
                      ([js ''# Page '' @ js_of_int (page_index object + 1), [],
                        markdown object, []] @
                       concat (map (\<lambda>img.
                            case find (\<lambda>u. pub_id u = image_id img) sample_map of
                              None \<Rightarrow> []
                            | Some uploaded \<Rightarrow>
                                [js ''!['' @ image_id img @ js '']('' @ url uploaded @ js '')'',
                                 []])
                          (page_images object)))))
            (take n sample_pages) @ rest \<and>
        (rest = [] \<or>
         (\<exists>c. rest = [WriteTextFile (path_join sample_world (js ''out'') (js ''all-pages.md'')) c])) \<and>
        n = length sample_pages)"
proof -
  note t = page_file_content [where w = sample_world and tr = "[]" and objects = sample_pages
      and images = sample_map and dir = "js ''out''" and r = "Inr ()"
      and tr' = "[WriteTextFile (js ''out/page-1.md'') sample_page1_text,
              WriteTextFile (js ''out/page-2.md'') sample_page2_text,
              WriteTextFile (js ''out/all-pages.md'') sample_all_text]", THEN mp,
      OF sample_markdown_run]
  have p: "sample_page1_text =
     js_join nl [js ''# Page 1'', [], js ''Hello'', [],
                 js ''![img-1](https://pub/paper/2025-01-08/img-1.png)'', []]"
    by (simp add: sample_page1_text_def)
  from t have "\<exists>n rest.
        n \<le> length sample_pages \<and>
        [WriteTextFile (js ''out/page-1.md'') sample_page1_text,
         WriteTextFile (js ''out/page-2.md'') sample_page2_text,
         WriteTextFile (js ''out/all-pages.md'') sample_all_text] =
          [] @
          map (\<lambda>object.
                 WriteTextFile
                   (path_join sample_world (js ''out'')
                      (js ''page-'' @ js_of_int (page_index object + 1) @ js ''.md''))
                   (js_join nl
                      ([js ''# Page '' @ js_of_int (page_index object + 1), [],
                        markdown object, []] @
                       concat (map (\<lambda>img.
                            case find (\<lambda>u. pub_id u = image_id img) sample_map of
                              None \<Rightarrow> []
                            | Some uploaded \<Rightarrow>
                                [js ''!['' @ image_id img @ js '']('' @ url uploaded @ js '')'',
                                 []])
                          (page_images object)))))
            (take n sample_pages) @ rest \<and>
        (rest = [] \<or>
         (\<exists>c. rest = [WriteTextFile (path_join sample_world (js ''out'') (js ''all-pages.md'')) c])) \<and>
        n = length sample_pages"
    by blast
  with sample_markdown_run p show ?thesis by (intro conjI)
qed

end
